(* ===== verification/Prelude.thy ===== *)
theory Prelude
  imports Main "HOL-Library.Word"
begin

text \<open>
  Shared vocabulary of the chain-parameter development: the fixed-width integer
  types of the C++ sources as \<open>'n word\<close>, little-endian byte encodings (the
  in-memory and on-the-wire layout of every integer in a serialized block),
  C strings as byte strings, and \<open>ParseHex\<close>/\<open>HexStr\<close> of \<open>utilstrencodings\<close>,
  which \<open>chainparams.cpp\<close> uses for every public key it embeds.  The collection
  \<open>wire_simps\<close> gathers the equations that evaluate encodings on literals.
\<close>

unbundle bit_operations_syntax

named_theorems wire_simps "equations that evaluate byte encodings of literals"

type_synonym byte = "8 word"
type_synonym bytes = "byte list"
type_synonym uint16 = "16 word"
type_synonym uint32 = "32 word"
type_synonym int32 = "32 word"   \<comment> \<open>read by \<open>sint\<close>\<close>
type_synonym uint64 = "64 word"
type_synonym int64 = "64 word"   \<comment> \<open>read by \<open>sint\<close>\<close>
type_synonym uint256 = "256 word"

subsection \<open>Little-endian encoding of words\<close>

text \<open>
  \<open>le_bytes n w\<close> is the first \<open>n\<close> bytes of \<open>w\<close> in memory on a little-endian
  machine, which is also what \<open>serialize.h\<close> writes for every integer
  (\<open>WRITEDATA\<close>, \<open>ser_writedata32\<close>) and what \<open>uint256\<close> stores.
  \<open>le_word\<close> reads such bytes back.
\<close>

definition le_bytes :: "nat \<Rightarrow> 'a::len word \<Rightarrow> bytes" where
  "le_bytes n w = map (\<lambda>i. ucast (drop_bit (8 * i) w)) [0..<n]"

fun le_word :: "bytes \<Rightarrow> 'a::len word" where
  "le_word [] = 0"
| "le_word (b # bs) = ucast b OR push_bit 8 (le_word bs)"

text \<open>A NUL-terminated C string as the bytes before its terminator (\<open>strlen\<close>).\<close>

definition bytes_of_string :: "string \<Rightarrow> bytes" where
  "bytes_of_string s = map (\<lambda>c. of_nat (of_char c)) s"

subsection \<open>Hexadecimal strings (\<open>utilstrencodings\<close>)\<close>

text \<open>
  \<open>HexDigit\<close> is the table lookup \<open>p_util_hexdigit\<close>: the value of a hex digit of
  either case, and \<open>-1\<close> for any other character.
\<close>

definition HexDigit :: "char \<Rightarrow> int" where
  "HexDigit c =
     (let n = of_char c :: nat in
      if 48 \<le> n \<and> n \<le> 57 then int n - 48
      else if 97 \<le> n \<and> n \<le> 102 then int n - 87
      else if 65 \<le> n \<and> n \<le> 70 then int n - 55
      else -1)"

definition isspace :: "char \<Rightarrow> bool" where
  "isspace c \<longleftrightarrow> of_char c = (32::nat) \<or> (9 \<le> (of_char c::nat) \<and> (of_char c::nat) \<le> 13)"

text \<open>
  \<open>ParseHex\<close>: skip white space, read two digits, push the byte; stop at the
  first character that is not a digit (the string's end is the NUL terminator,
  which is not a digit).  White space is skipped only before a pair.
\<close>

fun ParseHex :: "string \<Rightarrow> bytes" where
  "ParseHex [] = []"
| "ParseHex (c # cs) =
     (if isspace c then ParseHex cs
      else if HexDigit c = -1 then []
      else (case cs of
              [] \<Rightarrow> []
            | d # ds \<Rightarrow>
                if HexDigit d = -1 then []
                else (push_bit 4 (word_of_int (HexDigit c)) OR word_of_int (HexDigit d))
                       # ParseHex ds))"

text \<open>\<open>HexStr\<close> without spaces: two lower-case digits per byte.\<close>

definition hexchar :: "byte \<Rightarrow> char" where
  "hexchar v = (if unat v < 10 then char_of (48 + unat v) else char_of (87 + unat v))"

fun HexStr :: "bytes \<Rightarrow> string" where
  "HexStr [] = []"
| "HexStr (b # bs) = hexchar (drop_bit 4 b) # hexchar (take_bit 4 b) # HexStr bs"

subsection \<open>Lemmas on the encodings\<close>

lemma length_le_bytes [simp]: "length (le_bytes n w) = n"
  by (simp add: le_bytes_def)

text \<open>The equations that evaluate \<open>le_bytes\<close> of a word literal.\<close>

lemmas le_bytes_literal = le_bytes_def upt_rec drop_bit_eq_div unsigned_ucast_eq

lemma nth_le_bytes: "i < n \<Longrightarrow> le_bytes n w ! i = ucast (drop_bit (8 * i) w)"
  by (simp add: le_bytes_def)

lemma le_bytes_0 [wire_simps]: "le_bytes 0 w = []"
  by (simp add: le_bytes_def)

lemma le_bytes_Suc [wire_simps]: "le_bytes (Suc n) w = ucast w # le_bytes n (drop_bit 8 w)"
  by (simp add: le_bytes_def map_upt_Suc drop_bit_drop_bit add.commute del: upt_Suc)

lemma bit_le_word:
  "bit (le_word bs :: 'a::len word) j \<longleftrightarrow>
     j < LENGTH('a) \<and> j < 8 * length bs \<and> bit (bs ! (j div 8)) (j mod 8)"
proof (induction bs arbitrary: j)
  case Nil
  then show ?case by simp
next
  case (Cons b bs)
  show ?case
  proof (cases "j < 8")
    case True
    then show ?thesis by (auto simp: bit_simps)
  next
    case False
    then obtain k where j: "j = k + 8" by (metis add.commute le_Suc_ex not_less)
    have d: "(k + 8) div 8 = Suc (k div 8)" "(k + 8) mod 8 = k mod 8" by auto
    have "\<not> bit b j" using False bit_imp_le_length[of b j] by auto
    then show ?thesis using Cons.IH[of k] j d by (auto simp: bit_simps)
  qed
qed

text \<open>Decoding what was encoded gives the word back, when the bytes cover it.\<close>

lemma le_word_le_bytes [simp]:
  assumes "LENGTH('a) \<le> 8 * n"
  shows "(le_word (le_bytes n w) :: 'a::len word) = w"
proof (rule bit_word_eqI)
  fix j assume j: "j < LENGTH('a)"
  then have jn: "j div 8 < n" using assms by auto
  have "8 * (j div 8) + j mod 8 = j" by simp
  then show "bit (le_word (le_bytes n w) :: 'a word) j = bit w j"
    using j jn assms by (auto simp: bit_le_word nth_le_bytes bit_simps)
qed

lemma pred_mult_div: "(Suc a * Suc b - 1) div Suc b = (a::nat)"
proof -
  have "Suc a * Suc b - 1 = b + a * Suc b" by simp
  moreover have "(b + a * Suc b) div Suc b = b div Suc b + a" using div_mult_self1 [of "Suc b" b a] by simp
  ultimately show ?thesis by (simp add: ac_simps)
qed

lemma length_bytes_of_string [simp]: "length (bytes_of_string s) = length s"
  by (simp add: bytes_of_string_def)

text \<open>\<open>ParseHex\<close> reads back what \<open>HexStr\<close> writes: every byte is two digits, neither of them white space.\<close>

lemma of_char_small: "n < 256 \<Longrightarrow> of_char (char_of n :: char) = (n::nat)"
  by (simp add: of_char_of)

lemma hexchar_digit:
  assumes "unat v < 16"
  shows "HexDigit (hexchar v) = uint v \<and> \<not> isspace (hexchar v)"
proof (cases "unat v < 10")
  case True
  then have "hexchar v = char_of (48 + unat v)" by (simp add: hexchar_def)
  moreover have "of_char (char_of (48 + unat v) :: char) = (48 + unat v :: nat)"
    using True by (intro of_char_small) simp
  ultimately show ?thesis using True by (simp add: HexDigit_def isspace_def Let_def)
next
  case False
  then have "hexchar v = char_of (87 + unat v)" by (simp add: hexchar_def)
  moreover have "of_char (char_of (87 + unat v) :: char) = (87 + unat v :: nat)"
    using assms by (intro of_char_small) simp
  ultimately show ?thesis using False assms by (simp add: HexDigit_def isspace_def Let_def)
qed

lemma unat_byte_lt: "unat (b :: byte) < 256"
  using unsigned_less [of b] by simp

lemma unat_nibbles: "unat (drop_bit 4 (b::byte)) < 16 \<and> unat (take_bit 4 b) < 16"
proof -
  have "unat b < 256" by (rule unat_byte_lt)
  then show ?thesis by (simp add: drop_bit_eq_div take_bit_eq_mod unat_div unat_mod)
qed

lemma byte_nibbles: "push_bit 4 (drop_bit 4 b) OR take_bit 4 b = (b::byte)"
proof -
  have "push_bit 4 (drop_bit 4 b) OR take_bit 4 b = push_bit 4 (drop_bit 4 b) + take_bit 4 b"
    by (simp add: disjunctive_add bit_simps)
  also have "\<dots> = b" by (simp add: bits_ident)
  finally show ?thesis .
qed

lemma ParseHex_HexStr: "ParseHex (HexStr bs) = bs"
proof (induction bs)
  case Nil
  then show ?case by simp
next
  case (Cons b bs)
  have n: "unat (drop_bit 4 b) < 16" "unat (take_bit 4 b) < 16" using unat_nibbles by blast+
  have h: "HexDigit (hexchar (drop_bit 4 b)) = uint (drop_bit 4 b)" "\<not> isspace (hexchar (drop_bit 4 b))"
    "HexDigit (hexchar (take_bit 4 b)) = uint (take_bit 4 b)"
    using hexchar_digit [OF n(1)] hexchar_digit [OF n(2)] by blast+
  have "uint (drop_bit 4 b) \<noteq> -1" "uint (take_bit 4 b) \<noteq> -1"
    using uint_ge_0 [of "drop_bit 4 b"] uint_ge_0 [of "take_bit 4 b"] by linarith+
  then show ?case using Cons h by (simp add: byte_nibbles)
qed

end
