(* ===== verification/Script.thy ===== *)
theory Script
  imports Prelude
begin

text \<open>
  The part of \<open>script/script.h\<close> that the genesis coinbase of
  \<open>chainparams.cpp\<close> uses (line 123 and line 125): a \<open>CScript\<close> is its byte
  vector, and the three \<open>operator<<\<close> it calls append an integer
  (\<open>push_int64\<close>, minimal \<open>CScriptNum\<close> encoding), a byte vector (a push
  with its length prefix) and an opcode.  \<open>CScriptNum\<close> works on \<open>int64_t\<close>,
  here a 64-bit word read by \<open>sint\<close>; the same encoding on unbounded integers
  is the reference its lemmas are proved against.
\<close>

type_synonym CScript = bytes

definition OP_0 :: byte where "OP_0 = 0x00"
definition OP_PUSHDATA1 :: byte where "OP_PUSHDATA1 = 0x4c"
definition OP_PUSHDATA2 :: byte where "OP_PUSHDATA2 = 0x4d"
definition OP_PUSHDATA4 :: byte where "OP_PUSHDATA4 = 0x4e"
definition OP_1 :: byte where "OP_1 = 0x51"
definition OP_CHECKSIG :: byte where "OP_CHECKSIG = 0xac"

lemmas opcode_defs = OP_0_def OP_PUSHDATA1_def OP_PUSHDATA2_def OP_PUSHDATA4_def OP_1_def OP_CHECKSIG_def

subsection \<open>\<open>CScriptNum::serialize\<close> and \<open>CScriptNum::set_vch\<close>\<close>

text \<open>
  \<open>serialize(const int64_t& value)\<close>: zero is the empty vector; otherwise the
  magnitude \<open>absvalue = neg ? -value : value\<close>, a \<open>uint64_t\<close>, is written least
  significant byte first (\<open>while (absvalue) { push_back(absvalue & 0xff);
  absvalue >>= 8; }\<close>), then the sign: an extra byte \<open>0x80\<close> or \<open>0\<close> when the top
  byte already has bit 7 set, otherwise bit 7 of the top byte for a negative
  value.  The negation is taken in 64 bits, so at \<open>INT64_MIN\<close> it gives
  \<open>2^63\<close> back.
\<close>

function scriptnum_bytes :: "uint64 \<Rightarrow> bytes" where
  "scriptnum_bytes absvalue =
     (if absvalue = 0 then [] else ucast (absvalue AND 0xff) # scriptnum_bytes (drop_bit 8 absvalue))"
  by auto
termination
  by (relation "measure unat") (auto simp: drop_bit_eq_div unat_div unat_gt_0)

declare scriptnum_bytes.simps [simp del]

definition CScriptNum_serialize :: "int64 \<Rightarrow> bytes" where
  "CScriptNum_serialize value =
     (if value = 0 then []
      else (let neg = sint value < 0; result = scriptnum_bytes (if neg then - value else value) in
            if bit (last result) 7 then result @ [if neg then 0x80 else 0]
            else if neg then butlast result @ [last result OR 0x80]
            else result))"

text \<open>
  \<open>set_vch\<close>: \<open>result |= static_cast<int64_t>(vch[i]) << 8*i\<close> for every byte,
  then, when bit 7 of the last byte is set, that bit is cleared and the result
  negated.  A shift by 64 or more bits is undefined in C++; a vector of more
  than eight bytes, on which the loop would shift that far, is the error
  \<open>ShiftOutOfRange\<close>.
\<close>

datatype scriptnum_error = ShiftOutOfRange

definition set_vch :: "bytes \<Rightarrow> scriptnum_error + int64" where
  "set_vch vch =
     (if vch = [] then Inr 0
      else if 8 < length vch then Inl ShiftOutOfRange
      else (let result = fold (\<lambda>i r. r OR push_bit (8 * i) (ucast (vch ! i))) [0..<length vch] 0 in
            if bit (last vch) 7 then Inr (- (result AND NOT (push_bit (8 * (length vch - 1)) 0x80)))
            else Inr result))"

subsection \<open>The encoding on unbounded integers, the reference\<close>

text \<open>
  The same sign-magnitude encoding on \<open>int\<close>, with the magnitude a \<open>nat\<close>:
  \<open>scriptnum_mag\<close> writes it, \<open>le_nat\<close> reads a little-endian magnitude back.
\<close>

fun scriptnum_mag :: "nat \<Rightarrow> bytes" where
  "scriptnum_mag n = (if n = 0 then [] else of_nat (n mod 256) # scriptnum_mag (n div 256))"

declare scriptnum_mag.simps [simp del]

definition scriptnum_serialize_int :: "int \<Rightarrow> bytes" where
  "scriptnum_serialize_int v =
     (if v = 0 then []
      else (let neg = v < 0; r = scriptnum_mag (nat \<bar>v\<bar>) in
            if bit (last r) 7 then r @ [if neg then 0x80 else 0]
            else if neg then butlast r @ [last r OR 0x80]
            else r))"

fun le_nat :: "bytes \<Rightarrow> nat" where
  "le_nat [] = 0"
| "le_nat (b # bs) = unat b + 256 * le_nat bs"

definition scriptnum_decode_int :: "bytes \<Rightarrow> int" where
  "scriptnum_decode_int vch =
     (if vch = [] then 0
      else if bit (last vch) 7
      then - (int (le_nat vch) - 128 * 256 ^ (length vch - 1))
      else int (le_nat vch))"

subsection \<open>The \<open>CScript\<close> append operators\<close>

text \<open>\<open>operator<<(const std::vector<unsigned char>&)\<close>: the length as a push opcode, then the bytes.\<close>

definition push_vector :: "CScript \<Rightarrow> bytes \<Rightarrow> CScript" where
  "push_vector s b =
     s @ (if length b < unat OP_PUSHDATA1 then [of_nat (length b)]
          else if length b \<le> 0xff then [OP_PUSHDATA1, of_nat (length b)]
          else if length b \<le> 0xffff then OP_PUSHDATA2 # le_bytes 2 (of_nat (length b) :: uint16)
          else OP_PUSHDATA4 # le_bytes 4 (of_nat (length b) :: uint32))
       @ b"

text \<open>\<open>push_int64\<close> (\<open>operator<<(int64_t)\<close>): \<open>OP_1NEGATE\<close>, \<open>OP_1\<close>..\<open>OP_16\<close> and \<open>OP_0\<close> for small values.\<close>

definition push_int64 :: "CScript \<Rightarrow> int64 \<Rightarrow> CScript" where
  "push_int64 s n =
     (if sint n = -1 \<or> (1 \<le> sint n \<and> sint n \<le> 16) then s @ [ucast n + (OP_1 - 1)]
      else if n = 0 then s @ [OP_0]
      else push_vector s (CScriptNum_serialize n))"

text \<open>\<open>operator<<(const CScriptNum&)\<close> pushes \<open>getvch()\<close>, the serialized value, as a vector.\<close>

definition push_scriptnum :: "CScript \<Rightarrow> int64 \<Rightarrow> CScript" where
  "push_scriptnum s n = push_vector s (CScriptNum_serialize n)"

definition push_opcode :: "CScript \<Rightarrow> byte \<Rightarrow> CScript" where
  "push_opcode s op = s @ [op]"

lemmas script_defs = push_vector_def push_int64_def push_scriptnum_def push_opcode_def

subsection \<open>Lemmas on the number encoding\<close>

lemma abs_sint_word: "(if sint v < 0 then - v else (v::int64)) = word_of_int \<bar>sint v\<bar>"
  by (cases "sint v < 0") simp_all
lemma sint64_range: "- 9223372036854775808 \<le> sint (v::int64) \<and> sint v < 9223372036854775808"
  using sint_ge [of v] sint_lt [of v] by simp
lemma unat_abs_sint: "unat (if sint v < 0 then - v else v) = nat \<bar>sint (v :: int64)\<bar>"
proof -
  have "\<bar>sint v\<bar> < 2 ^ 64" using sint64_range [of v] unfolding abs_less_iff by simp
  then have "take_bit 64 \<bar>sint v\<bar> = \<bar>sint v\<bar>" by (simp add: take_bit_int_eq_self)
  then have "uint (word_of_int \<bar>sint v\<bar> :: int64) = \<bar>sint v\<bar>" by (simp add: uint_word_of_int_eq)
  then show ?thesis by (simp add: abs_sint_word unat_eq_nat_uint)
qed

lemma scriptnum_mag_Suc: "0 < n \<Longrightarrow> scriptnum_mag n = of_nat (n mod 256) # scriptnum_mag (n div 256)"
  by (subst scriptnum_mag.simps) simp

lemma ucast_low_byte: "(ucast (a AND 0xff) :: byte) = of_nat (unat (a :: uint64) mod 256)"
proof -
  have "a AND 0xff = take_bit 8 a" by (simp add: take_bit_eq_mask mask_eq_exp_minus_1)
  then have "unat (a AND 0xff) = unat a mod 256" by (simp add: unsigned_take_bit_eq take_bit_eq_mod unat_mod)
  then show ?thesis by (metis of_nat_unat)
qed

lemma scriptnum_bytes_mag: "scriptnum_bytes a = scriptnum_mag (unat a)"
proof (induction a rule: scriptnum_bytes.induct)
  case (1 a)
  show ?case
  proof (cases "a = 0")
    case True
    then show ?thesis by (simp add: scriptnum_bytes.simps scriptnum_mag.simps)
  next
    case False
    have "unat (drop_bit 8 a) = unat a div 256" by (simp add: drop_bit_eq_div unat_div)
    then show ?thesis using False 1
      by (simp add: scriptnum_bytes.simps[of a] scriptnum_mag_Suc unat_gt_0 ucast_low_byte)
  qed
qed

lemma sint_eq_0_iff: "sint (v :: 'a::len word) = 0 \<longleftrightarrow> v = 0"
proof
  assume "sint v = 0"
  have "v = word_of_int (sint v)" by simp
  then show "v = 0" using \<open>sint v = 0\<close> by (simp only: of_int_0)
qed simp

lemma CScriptNum_serialize_int: "CScriptNum_serialize v = scriptnum_serialize_int (sint v)"
proof -
  have m: "scriptnum_bytes (if sint v < 0 then - v else v) = scriptnum_mag (nat \<bar>sint v\<bar>)"
    by (simp only: scriptnum_bytes_mag unat_abs_sint)
  show ?thesis unfolding CScriptNum_serialize_def scriptnum_serialize_int_def Let_def m
    by (simp only: sint_eq_0_iff)
qed

lemma le_nat_append: "le_nat (xs @ ys) = le_nat xs + 256 ^ length xs * le_nat ys"
  by (induction xs) auto

lemma le_nat_butlast_last:
  "xs \<noteq> [] \<Longrightarrow> le_nat xs = le_nat (butlast xs) + 256 ^ (length xs - 1) * unat (last xs)"
  using le_nat_append [of "butlast xs" "[last xs]"] by simp

lemma le_nat_bound: "le_nat xs < 256 ^ length xs"
proof (induction xs)
  case (Cons b bs)
  have "unat b < 256" by (rule unat_byte_lt)
  then show ?case using Cons by simp
qed simp

lemma nat_low_and_push_bit: "(a :: nat) < 2 ^ k \<Longrightarrow> a AND push_bit k b = 0"
proof -
  assume "a < 2 ^ k"
  then have "take_bit k a = a" by (simp add: take_bit_nat_eq_self_iff)
  then have "\<And>n. bit a n \<Longrightarrow> n < k" by (metis bit_take_bit_iff)
  then show ?thesis by (intro bit_eqI) (force simp: bit_and_iff bit_push_bit_iff)
qed

lemma or_and_not_disjoint: "a AND m = 0 \<Longrightarrow> (a OR m) AND NOT m = (a :: 'a::len word)"
  by (rule bit_eqI) (auto simp: bit_simps dest: arg_cong [where f = "\<lambda>x. bit x _"])

lemma fold_or_bytes:
  "fold (\<lambda>i r. r OR push_bit (8 * i) (ucast (f i :: byte))) [0..<n] (0 :: int64)
     = of_nat (\<Sum>i<n. unat (f i) * 256 ^ i)
   \<and> (\<Sum>i<n. unat (f i) * 256 ^ i) < 256 ^ n"
proof (induction n)
  case (Suc n)
  define S where "S = (\<Sum>i<n. unat (f i) * 256 ^ i)"
  define P where "P = push_bit (8 * n) (unat (f n))"
  have lt: "S < 2 ^ (8 * n)" using Suc by (simp add: S_def power_mult)
  have P: "P = unat (f n) * 256 ^ n" by (simp add: P_def push_bit_eq_mult power_mult)
  have "fold (\<lambda>i r. r OR push_bit (8 * i) (ucast (f i :: byte))) [0..<Suc n] (0 :: int64)
        = of_nat S OR push_bit (8 * n) (ucast (f n))" using Suc by (simp add: S_def)
  also have "\<dots> = of_nat S OR of_nat P" by (simp add: P_def of_nat_push_bit of_nat_unat)
  also have "\<dots> = of_nat (S OR P)" by (simp only: of_nat_or_eq)
  also have "S OR P = S + P" using nat_low_and_push_bit [OF lt] by (simp add: P_def disjunctive_add_eq_or)
  finally have f: "fold (\<lambda>i r. r OR push_bit (8 * i) (ucast (f i :: byte))) [0..<Suc n] (0 :: int64)
        = of_nat (\<Sum>i<Suc n. unat (f i) * 256 ^ i)" by (simp add: S_def P)
  have b: "unat (f n) * 256 ^ n \<le> 255 * 256 ^ n"
    by (rule mult_le_mono1) (use unat_byte_lt [of "f n"] in simp)
  have "S < 256 ^ n" using Suc by (simp add: S_def)
  then have "S + unat (f n) * 256 ^ n < 256 ^ Suc n" using b by (simp only: power_Suc)
  then show ?case using f by (simp add: S_def)
qed simp


lemma byte_bit7_iff: "bit (t::byte) 7 \<longleftrightarrow> 128 \<le> unat t"
proof -
  have "unat t < 256" by (rule unat_byte_lt)
  then have "unat t div 128 = (if 128 \<le> unat t then 1 else 0)" by auto
  moreover have "bit t 7 \<longleftrightarrow> bit (unat t) 7" by (simp add: bit_unsigned_iff)
  ultimately show ?thesis by (simp add: bit_iff_odd)
qed

lemma le_nat_sum: "le_nat xs = (\<Sum>i<length xs. unat (xs ! i) * 256 ^ i)"
proof (induction xs)
  case (Cons b bs)
  have "(\<Sum>i<Suc (length bs). unat ((b # bs) ! i) * 256 ^ i)
        = unat b + (\<Sum>i<length bs. unat (bs ! i) * 256 ^ Suc i)"
    by (subst sum.lessThan_Suc_shift) simp
  then show ?case using Cons by (simp add: sum_distrib_left mult.left_commute)
qed simp

lemma set_vch_eq:
  assumes ne: "vch \<noteq> []" and len: "length vch \<le> 8"
  shows "set_vch vch = Inr (word_of_int (scriptnum_decode_int vch))"
proof -
  define N where "N = le_nat vch"
  have r: "fold (\<lambda>i r. r OR push_bit (8 * i) (ucast (vch ! i))) [0..<length vch] 0 = (of_nat N :: int64)"
    using fold_or_bytes [of "(!) vch" "length vch"] by (simp add: N_def le_nat_sum)
  show ?thesis
  proof (cases "bit (last vch) 7")
    case False
    then show ?thesis using ne len r by (simp add: set_vch_def scriptnum_decode_int_def N_def)
  next
    case True
    define k where "k = length vch - 1"
    define N' where "N' = le_nat (butlast vch) + 256 ^ k * (unat (last vch) - 128)"
    define M :: nat where "M = push_bit (8 * k + 7) 1"
    have top: "128 \<le> unat (last vch)" using True by (simp add: byte_bit7_iff)
    have low: "le_nat (butlast vch) < 256 ^ k" using le_nat_bound [of "butlast vch"] by (simp add: k_def)
    have "unat (last vch) - 128 \<le> 127" using unat_byte_lt [of "last vch"] by simp
    then have f1: "256 ^ k * (unat (last vch) - 128) \<le> 256 ^ k * 127" by (rule mult_le_mono2)
    have M: "M = 128 * 256 ^ k" by (simp add: M_def push_bit_eq_mult power_add power_mult)
    have "N' < 128 * 256 ^ k" using low f1 unfolding N'_def by linarith
    then have lt: "N' < 2 ^ (8 * k + 7)" using M by (simp add: M_def push_bit_eq_mult)
    have ge: "128 * 256 ^ k \<le> unat (last vch) * 256 ^ k" using top by (rule mult_le_mono1)
    have sp: "N = le_nat (butlast vch) + unat (last vch) * 256 ^ k"
      using le_nat_butlast_last [OF ne] by (simp add: N_def k_def)
    have "256 ^ k * (unat (last vch) - 128) = unat (last vch) * 256 ^ k - 128 * 256 ^ k"
      by (simp only: mult.commute [of "256 ^ k"] diff_mult_distrib)
    then have NN: "N = N' + M" using sp ge unfolding N'_def M by linarith
    have d: "N' AND M = 0" unfolding M_def by (rule nat_low_and_push_bit [OF lt])
    have mk: "push_bit (8 * k) (0x80 :: int64) = of_nat M"
      by (simp add: M_def push_bit_eq_mult power_add power_mult)
    have "(of_nat N :: int64) = of_nat N' OR of_nat M"
      using d by (simp add: NN disjunctive_add_eq_or of_nat_or_eq)
    moreover have "(of_nat N' :: int64) AND of_nat M = 0" using d by (simp flip: of_nat_and_eq)
    ultimately have "(of_nat N :: int64) AND NOT (push_bit (8 * k) 0x80) = of_nat N'"
      by (simp add: mk or_and_not_disjoint)
    moreover have "scriptnum_decode_int vch = - int N'"
      using True ne NN by (simp add: scriptnum_decode_int_def N_def M k_def)
    ultimately show ?thesis using True ne len r by (simp add: set_vch_def k_def)
  qed
qed

lemma le_nat_scriptnum_mag: "le_nat (scriptnum_mag n) = n"
proof (induction n rule: less_induct)
  case (less n)
  show ?case
  proof (cases "n = 0")
    case True
    then show ?thesis by (simp add: scriptnum_mag.simps)
  next
    case False
    then have "le_nat (scriptnum_mag (n div 256)) = n div 256" using less by simp
    moreover have "unat (of_nat (n mod 256) :: byte) = n mod 256" by (simp add: unat_of_nat)
    ultimately show ?thesis using False by (simp add: scriptnum_mag_Suc)
  qed
qed

lemma scriptnum_mag_nonempty: "0 < n \<Longrightarrow> scriptnum_mag n \<noteq> []"
  by (simp add: scriptnum_mag_Suc)

lemma scriptnum_mag_last: "0 < n \<Longrightarrow> 0 < unat (last (scriptnum_mag n))"
proof (induction n rule: less_induct)
  case (less n)
  show ?case
  proof (cases "n div 256 = 0")
    case True
    then have "n < 256" by simp
    then have "unat (of_nat (n mod 256) :: byte) = n" by (simp add: unat_of_nat)
    then show ?thesis using True less.prems by (simp add: scriptnum_mag_Suc [of n] scriptnum_mag.simps [of 0])
  next
    case False
    then have "0 < n div 256" "n div 256 < n" using less.prems by auto
    then show ?thesis using less.IH [of "n div 256"] less.prems
      by (simp add: scriptnum_mag_Suc [of n] scriptnum_mag_nonempty)
  qed
qed

lemma unat_or_128: "unat (t::byte) < 128 \<Longrightarrow> unat (t OR 0x80) = unat t + 128"
proof -
  assume lt: "unat t < 128"
  have "\<And>n. \<not> bit (unat t) n \<or> \<not> bit (128::nat) n"
  proof -
    fix n
    show "\<not> bit (unat t) n \<or> \<not> bit (128::nat) n"
    proof (cases "n = 7")
      case True
      then show ?thesis using lt by (simp add: bit_iff_odd)
    next
      case False
      then show ?thesis by (simp add: bit_exp_iff[of 7 n, simplified])
    qed
  qed
  then have "unat t + 128 = unat t OR 128" by (rule disjunctive_add)
  then show ?thesis by (simp add: unsigned_or_eq)
qed

lemma scriptnum_int_roundtrip: "scriptnum_decode_int (scriptnum_serialize_int v) = v"
proof (cases "v = 0")
  case True
  then show ?thesis by (simp add: scriptnum_serialize_int_def scriptnum_decode_int_def)
next
  case False
  define n where "n = nat \<bar>v\<bar>"
  define r where "r = scriptnum_mag n"
  have n0: "0 < n" using False by (simp add: n_def)
  have rne: "r \<noteq> []" using n0 by (simp add: r_def scriptnum_mag_nonempty)
  have rn: "le_nat r = n" by (simp add: r_def le_nat_scriptnum_mag)
  have sign: "v = (if v < 0 then - int n else int n)" by (simp add: n_def)
  have split: "le_nat r = le_nat (butlast r) + 256 ^ (length r - 1) * unat (last r)"
    using rne by (rule le_nat_butlast_last)
  consider (top) "bit (last r) 7" | (neg) "\<not> bit (last r) 7" "v < 0" | (pos) "\<not> bit (last r) 7" "\<not> v < 0"
    by blast
  then show ?thesis
  proof cases
    case top
    then show ?thesis using False rn sign
      by (auto simp: scriptnum_serialize_int_def scriptnum_decode_int_def Let_def le_nat_append
          r_def[symmetric] n_def[symmetric])
  next
    case neg
    then have lt: "unat (last r) < 128" by (simp add: byte_bit7_iff)
    have "bit (last r OR 0x80) 7" by (simp add: bit_simps)
    moreover have "le_nat (butlast r @ [last r OR 0x80]) = n + 128 * 256 ^ (length r - 1)"
      using rn split lt by (simp add: le_nat_append unat_or_128 rne algebra_simps)
    ultimately show ?thesis using neg False sign rne
      by (simp add: scriptnum_serialize_int_def scriptnum_decode_int_def Let_def
          r_def[symmetric] n_def[symmetric])
  next
    case pos
    then show ?thesis using False rn sign rne
      by (simp add: scriptnum_serialize_int_def scriptnum_decode_int_def Let_def
          r_def[symmetric] n_def[symmetric])
  qed
qed


lemma scriptnum_serialize_int_short:
  assumes "\<bar>x\<bar> < 2 ^ 63"
  shows "length (scriptnum_serialize_int x) \<le> 8"
proof (cases "x = 0")
  case True
  then show ?thesis by (simp add: scriptnum_serialize_int_def)
next
  case False
  define r where "r = scriptnum_mag (nat \<bar>x\<bar>)"
  have n0: "0 < nat \<bar>x\<bar>" using False by simp
  have rne: "r \<noteq> []" using n0 by (simp add: r_def scriptnum_mag_nonempty)
  have lst: "0 < unat (last r)" using n0 by (simp add: r_def scriptnum_mag_last)
  have big: "256 ^ (length r - 1) * unat (last r) \<le> nat \<bar>x\<bar>"
    using le_nat_butlast_last [OF rne] by (simp add: r_def le_nat_scriptnum_mag)
  have bound: "nat \<bar>x\<bar> < 2 ^ 63" using assms by (simp add: nat_less_iff)
  have l8: "length r \<le> 8"
  proof (rule ccontr)
    assume "\<not> length r \<le> 8"
    then have "(256::nat) ^ 8 \<le> 256 ^ (length r - 1)" by (intro power_increasing) auto
    also have "\<dots> \<le> 256 ^ (length r - 1) * unat (last r)" using lst by simp
    finally show False using big bound by simp
  qed
  have l8b: "length r = 8 \<Longrightarrow> \<not> bit (last r) 7"
  proof
    assume "length r = 8" "bit (last r) 7"
    then have "256 ^ 7 * 128 \<le> 256 ^ (length r - 1) * unat (last r)" by (simp add: byte_bit7_iff)
    then show False using big bound by simp
  qed
  show ?thesis using False l8 l8b rne
    by (cases "length r = 8") (auto simp: scriptnum_serialize_int_def Let_def r_def [symmetric])
qed

lemma scriptnum_serialize_int_min: "scriptnum_serialize_int (- 9223372036854775808) = [0, 0, 0, 0, 0, 0, 0, 0x80, 0x80]"
  by (simp add: scriptnum_serialize_int_def scriptnum_mag.simps)

lemma scriptnum_serialize_int_nonempty: "x \<noteq> 0 \<Longrightarrow> scriptnum_serialize_int x \<noteq> []"
  using scriptnum_int_roundtrip [of x] by (auto simp: scriptnum_decode_int_def)

text \<open>
  C12: on \<open>int64_t\<close>, \<open>set_vch\<close> reads back every serialized script number
  except \<open>INT64_MIN\<close>: every other value serializes to at most eight bytes
  and decodes to itself, while \<open>INT64_MIN\<close>, whose negation wraps to
  \<open>2^63\<close>, serializes to nine bytes, which \<open>set_vch\<close> would shift past the
  width of its result.
\<close>

theorem CScriptNum_roundtrip:
  "set_vch (CScriptNum_serialize v) = (if sint v = - (2 ^ 63) then Inl ShiftOutOfRange else Inr v)
   \<and> (length (CScriptNum_serialize v) \<le> 8 \<longleftrightarrow> sint v \<noteq> - (2 ^ 63))"
proof (cases "sint v = - (2 ^ 63)")
  case True
  then have "CScriptNum_serialize v = [0, 0, 0, 0, 0, 0, 0, 0x80, 0x80]"
    by (simp add: CScriptNum_serialize_int scriptnum_serialize_int_min)
  then show ?thesis using True by (simp add: set_vch_def)
next
  case False
  have "\<bar>sint v\<bar> < 2 ^ 63" using sint64_range [of v] False unfolding abs_less_iff by simp
  then have s: "length (CScriptNum_serialize v) \<le> 8"
    by (simp add: CScriptNum_serialize_int scriptnum_serialize_int_short)
  show ?thesis
  proof (cases "sint v = 0")
    case True
    then show ?thesis using False by (simp add: sint_eq_0_iff CScriptNum_serialize_def set_vch_def)
  next
    case nz: False
    then have "set_vch (CScriptNum_serialize v) = Inr (word_of_int (sint v))"
      using s by (simp add: CScriptNum_serialize_int set_vch_eq scriptnum_serialize_int_nonempty scriptnum_int_roundtrip)
    then show ?thesis using False s by simp
  qed
qed


end
