(* ===== verification/Primitives.thy ===== *)
theory Primitives
  imports Script
begin

text \<open>
  Transactions and blocks as \<open>primitives/transaction.h\<close> and
  \<open>primitives/block.h\<close> lay them out, their serialization
  (\<open>serialize.h\<close>) and the two hashes; \<open>CBlock::BuildMerkleTree\<close> is in
  \<open>Merkle\<close>.  The two hash functions are not modelled: they are the fields of
  \<open>hash_impl\<close>, the header hash (\<open>CBlockHeader::GetHash\<close>) and the double
  SHA-256 \<open>Hash\<close> used for transaction ids and merkle nodes.  Every lemma holds
  for every choice of them.  The lemmas show the serialized header is always 80
  bytes and reads back.
\<close>

record hash_impl =
  HashHeader :: "bytes \<Rightarrow> uint256"
  Hash :: "bytes \<Rightarrow> uint256"

subsection \<open>Data\<close>

record COutPoint =
  out_hash :: uint256
  out_n :: uint32

record CTxIn =
  prevout :: COutPoint
  scriptSig :: CScript
  nSequence :: uint32

record CTxOut =
  nValue :: int64
  scriptPubKey :: CScript

record CMutableTransaction =
  tx_nVersion :: int32
  vin :: "CTxIn list"
  vout :: "CTxOut list"
  tx_nLockTime :: uint32

record CBlockHeader =
  nVersion :: int32
  hashPrevBlock :: uint256
  hashMerkleRoot :: uint256
  nTime :: uint32
  nBits :: uint32
  nNonce :: uint32

record CBlock = CBlockHeader +
  vtx :: "CMutableTransaction list"

text \<open>Default constructors: \<open>SetNull\<close> of each class.\<close>

definition COutPoint_null :: COutPoint where
  "COutPoint_null = \<lparr>out_hash = 0, out_n = 0xffffffff\<rparr>"

definition CTxIn_default :: CTxIn where
  "CTxIn_default = \<lparr>prevout = COutPoint_null, scriptSig = [], nSequence = 0xffffffff\<rparr>"

definition CTxOut_default :: CTxOut where
  "CTxOut_default = \<lparr>nValue = -1, scriptPubKey = []\<rparr>"

definition CMutableTransaction_default :: CMutableTransaction where
  "CMutableTransaction_default = \<lparr>tx_nVersion = 1, vin = [], vout = [], tx_nLockTime = 0\<rparr>"

definition CBlock_default :: CBlock where
  "CBlock_default = \<lparr>nVersion = 2, hashPrevBlock = 0, hashMerkleRoot = 0, nTime = 0, nBits = 0,
                     nNonce = 0, vtx = []\<rparr>"

subsection \<open>Serialization\<close>

definition WriteCompactSize :: "nat \<Rightarrow> bytes" where
  "WriteCompactSize n =
     (if n < 253 then [of_nat n]
      else if n \<le> 0xffff then 253 # le_bytes 2 (of_nat n :: uint16)
      else if n \<le> 0xffffffff then 254 # le_bytes 4 (of_nat n :: uint32)
      else 255 # le_bytes 8 (of_nat n :: uint64))"

definition ser_script :: "CScript \<Rightarrow> bytes" where
  "ser_script s = WriteCompactSize (length s) @ s"

definition ser_outpoint :: "COutPoint \<Rightarrow> bytes" where
  "ser_outpoint p = le_bytes 32 (out_hash p) @ le_bytes 4 (out_n p)"

definition ser_txin :: "CTxIn \<Rightarrow> bytes" where
  "ser_txin i = ser_outpoint (prevout i) @ ser_script (scriptSig i) @ le_bytes 4 (nSequence i)"

definition ser_txout :: "CTxOut \<Rightarrow> bytes" where
  "ser_txout txo = le_bytes 8 (nValue txo) @ ser_script (scriptPubKey txo)"

definition ser_tx :: "CMutableTransaction \<Rightarrow> bytes" where
  "ser_tx tx =
     le_bytes 4 (tx_nVersion tx)
     @ WriteCompactSize (length (vin tx)) @ concat (map ser_txin (vin tx))
     @ WriteCompactSize (length (vout tx)) @ concat (map ser_txout (vout tx))
     @ le_bytes 4 (tx_nLockTime tx)"

text \<open>The 80 header bytes, \<open>BEGIN(nVersion)\<close> to \<open>END(nNonce)\<close>.\<close>

definition ser_header :: "'a CBlockHeader_scheme \<Rightarrow> bytes" where
  "ser_header h =
     le_bytes 4 (nVersion h) @ le_bytes 32 (hashPrevBlock h) @ le_bytes 32 (hashMerkleRoot h)
     @ le_bytes 4 (nTime h) @ le_bytes 4 (nBits h) @ le_bytes 4 (nNonce h)"

text \<open>\<open>CBlock\<close>'s serialization: the header, then the vector of transactions.\<close>

definition ser_block :: "CBlock \<Rightarrow> bytes" where
  "ser_block b = ser_header b @ WriteCompactSize (length (vtx b)) @ concat (map ser_tx (vtx b))"

definition parse_header :: "bytes \<Rightarrow> CBlockHeader" where
  "parse_header bs =
     \<lparr>nVersion = le_word (take 4 bs), hashPrevBlock = le_word (take 32 (drop 4 bs)),
      hashMerkleRoot = le_word (take 32 (drop 36 bs)), nTime = le_word (take 4 (drop 68 bs)),
      nBits = le_word (take 4 (drop 72 bs)), nNonce = le_word (take 4 (drop 76 bs))\<rparr>"

subsection \<open>Hashes\<close>

definition GetHash_tx :: "hash_impl \<Rightarrow> CMutableTransaction \<Rightarrow> uint256" where
  "GetHash_tx H tx = Hash H (ser_tx tx)"

definition GetHash :: "hash_impl \<Rightarrow> 'a CBlockHeader_scheme \<Rightarrow> uint256" where
  "GetHash H h = HashHeader H (ser_header h)"

subsection \<open>Properties\<close>

lemma length_ser_header: "length (ser_header h) = 80"
  by (simp add: ser_header_def)

lemma parse_header_ser_header: "parse_header (ser_header h) = CBlockHeader.truncate h"
  by (simp add: parse_header_def ser_header_def CBlockHeader.truncate_def)

lemma ser_block_split:
  "take 80 (ser_block b) = ser_header b
   \<and> drop 80 (ser_block b) = WriteCompactSize (length (vtx b)) @ concat (map ser_tx (vtx b))"
  by (simp add: ser_block_def length_ser_header)

end
