(* ===== verification/Merkle.thy ===== *)
theory Merkle
  imports Primitives "HOL-Library.While_Combinator"
begin

text \<open>
  \<open>CBlock::BuildMerkleTree\<close> (\<open>primitives/block.cpp\<close>, called at line 128 of
  \<open>chainparams.cpp\<close>).  The source runs two nested \<open>for\<close> loops over one
  growing vector: the outer loop halves \<open>nSize\<close> and advances the level start
  \<open>j\<close>, the inner loop appends the hash of each pair of the current level to the
  vector it reads.  Three models: \<open>merkle_level\<close>/\<open>merkle_levels\<close> compute a
  level at once and recurse on the level size; \<open>merkle_inner\<close>/\<open>merkle_loop\<close>
  keep the source's shape, the inner loop appending one node per step and the
  outer loop a \<open>while_option\<close> over the state \<open>(vMerkleTree, j, nSize)\<close>; and
  \<open>merkle_root\<close> is the reference that pairs neighbours level by level.  The
  lemmas show the three agree and that the outer loop always stops.
\<close>

text \<open>\<open>Hash(BEGIN(a), END(a), BEGIN(b), END(b))\<close>: the hash of the two 32-byte nodes.\<close>

definition merkle_node :: "hash_impl \<Rightarrow> uint256 \<Rightarrow> uint256 \<Rightarrow> uint256" where
  "merkle_node H a b = Hash H (le_bytes 32 a @ le_bytes 32 b)"

subsection \<open>\<open>BuildMerkleTree\<close>\<close>

text \<open>
  One pass of the inner loop: for \<open>i = 0, 2, 4, \<dots> < nSize\<close>, hash
  \<open>vMerkleTree[j+i]\<close> with \<open>vMerkleTree[j+i2]\<close>, \<open>i2 = min(i+1, nSize-1)\<close>
  (the last node of an odd level is paired with itself).
\<close>

definition merkle_level :: "hash_impl \<Rightarrow> uint256 list \<Rightarrow> nat \<Rightarrow> nat \<Rightarrow> uint256 list" where
  "merkle_level H tree j nSize =
     map (\<lambda>k. let i = 2 * k; i2 = min (i + 1) (nSize - 1)
              in merkle_node H (tree ! (j + i)) (tree ! (j + i2)))
         [0..<(nSize + 1) div 2]"

text \<open>The outer loop: \<open>for (nSize = vtx.size(); nSize > 1; nSize = (nSize + 1) / 2)\<close>, \<open>j += nSize\<close>.\<close>

function merkle_levels :: "hash_impl \<Rightarrow> uint256 list \<Rightarrow> nat \<Rightarrow> nat \<Rightarrow> uint256 list" where
  "merkle_levels H tree j nSize =
     (if 1 < nSize
      then merkle_levels H (tree @ merkle_level H tree j nSize) (j + nSize) ((nSize + 1) div 2)
      else tree)"
  by pat_completeness auto
termination
  by (relation "measure (\<lambda>(H, tree, j, nSize). nSize)") auto

declare merkle_levels.simps [simp del]

definition BuildMerkleTree :: "hash_impl \<Rightarrow> CBlock \<Rightarrow> uint256" where
  "BuildMerkleTree H blk =
     (let vMerkleTree = merkle_levels H (map (GetHash_tx H) (vtx blk)) 0 (length (vtx blk))
      in if vMerkleTree = [] then 0 else last vMerkleTree)"

text \<open>Constant hash functions, for concrete runs.\<close>

definition null_hashes :: hash_impl where
  "null_hashes = \<lparr>HashHeader = (\<lambda>_. 0), Hash = (\<lambda>_. 0)\<rparr>"

text \<open>The reference: hash neighbouring pairs level by level until one node is left.\<close>

fun pair_level :: "hash_impl \<Rightarrow> uint256 list \<Rightarrow> uint256 list" where
  "pair_level H [] = []"
| "pair_level H [a] = [merkle_node H a a]"
| "pair_level H (a # b # rest) = merkle_node H a b # pair_level H rest"

lemma length_pair_level: "length (pair_level H hs) = (length hs + 1) div 2"
  by (induction H hs rule: pair_level.induct) auto

lemma pair_level_shorter:
  assumes "hs \<noteq> []" and "length hs \<noteq> 1"
  shows "length (pair_level H hs) < length hs"
proof -
  have "1 < length hs" using assms by (cases hs) auto
  then show ?thesis by (simp add: length_pair_level)
qed

function merkle_root :: "hash_impl \<Rightarrow> uint256 list \<Rightarrow> uint256" where
  "merkle_root H hs =
     (if hs = [] then 0 else if length hs = 1 then hd hs else merkle_root H (pair_level H hs))"
  by pat_completeness auto
termination
  by (relation "measure (\<lambda>(H, hs). length hs)") (auto simp: pair_level_shorter)

declare merkle_root.simps [simp del]

text \<open>
  The inner loop as the source writes it:
  \<open>for (i = 0; i < nSize; i += 2) vMerkleTree.push_back(Hash(vMerkleTree[j+i], vMerkleTree[j+i2]))\<close>,
  reading the vector it appends to.
\<close>

function merkle_inner :: "hash_impl \<Rightarrow> nat \<Rightarrow> nat \<Rightarrow> uint256 list \<Rightarrow> nat \<Rightarrow> uint256 list" where
  "merkle_inner H j nSize tree i =
     (if i < nSize
      then merkle_inner H j nSize
             (tree @ [merkle_node H (tree ! (j + i)) (tree ! (j + min (i + 1) (nSize - 1)))]) (i + 2)
      else tree)"
  by pat_completeness auto
termination
  by (relation "measure (\<lambda>(H, j, nSize, tree, i). nSize - i)") auto

declare merkle_inner.simps [simp del]

text \<open>The outer loop as a \<open>while_option\<close> over \<open>(vMerkleTree, j, nSize)\<close>.\<close>

definition merkle_loop :: "hash_impl \<Rightarrow> uint256 list \<Rightarrow> (uint256 list \<times> nat \<times> nat) option" where
  "merkle_loop H hs =
     while_option (\<lambda>(tree, j, nSize). 1 < nSize)
       (\<lambda>(tree, j, nSize). (merkle_inner H j nSize tree 0, j + nSize, (nSize + 1) div 2))
       (hs, 0, length hs)"

text \<open>\<open>BuildMerkleTree\<close> over the source-shaped loop: \<open>None\<close> would mean the loop never stops.\<close>

definition BuildMerkleTree_loop :: "hash_impl \<Rightarrow> CBlock \<Rightarrow> uint256 option" where
  "BuildMerkleTree_loop H blk =
     map_option (\<lambda>(vMerkleTree, j, nSize). if vMerkleTree = [] then 0 else last vMerkleTree)
       (merkle_loop H (map (GetHash_tx H) (vtx blk)))"


subsection \<open>Properties\<close>

lemma nth_pair_level:
  "i < length (pair_level H xs) \<Longrightarrow>
   pair_level H xs ! i = merkle_node H (xs ! (2 * i)) (xs ! min (2 * i + 1) (length xs - 1))"
proof (induction H xs arbitrary: i rule: pair_level.induct)
  case (3 H a b rest)
  show ?case
  proof (cases i)
    case 0
    then show ?thesis by simp
  next
    case (Suc k)
    then have "k < length (pair_level H rest)" using "3.prems" by simp
    then have "rest \<noteq> []" by (cases rest) auto
    then have "min (Suc (Suc (2 * k))) (length rest) = Suc (min (Suc (2 * k)) (length rest - 1))"
      by (cases rest) auto
    then show ?thesis using "3.IH" [of k] \<open>k < length (pair_level H rest)\<close> Suc by simp
  qed
qed auto

lemma merkle_level_pair_level:
  assumes "length tree = j + nSize"
  shows "merkle_level H tree j nSize = pair_level H (drop j tree)"
proof (rule nth_equalityI)
  show "length (merkle_level H tree j nSize) = length (pair_level H (drop j tree))"
    using assms by (simp add: merkle_level_def length_pair_level)
next
  fix i assume "i < length (merkle_level H tree j nSize)"
  then have i: "i < (nSize + 1) div 2" by (simp add: merkle_level_def)
  then have "i < length (pair_level H (drop j tree))" using assms by (simp add: length_pair_level)
  moreover have "2 * i < nSize" "min (2 * i + 1) (nSize - 1) < nSize" using i by auto
  ultimately show "merkle_level H tree j nSize ! i = pair_level H (drop j tree) ! i"
    using assms i by (simp add: merkle_level_def nth_pair_level Let_def)
qed

lemma merkle_levels_nonempty: "tree \<noteq> [] \<Longrightarrow> merkle_levels H tree j nSize \<noteq> []"
proof (induction H tree j nSize rule: merkle_levels.induct)
  case (1 H tree j nSize)
  then show ?case by (subst merkle_levels.simps) simp
qed

lemma merkle_root_step:
  "hs \<noteq> [] \<Longrightarrow> length hs \<noteq> 1 \<Longrightarrow> merkle_root H hs = merkle_root H (pair_level H hs)"
  by (subst merkle_root.simps) simp

lemma last_merkle_levels:
  "length tree = j + nSize \<Longrightarrow> 0 < nSize \<Longrightarrow>
   last (merkle_levels H tree j nSize) = merkle_root H (drop j tree)"
proof (induction H tree j nSize rule: merkle_levels.induct)
  case (1 H tree j nSize)
  show ?case
  proof (cases "1 < nSize")
    case True
    let ?L = "merkle_level H tree j nSize"
    have L: "?L = pair_level H (drop j tree)" using "1.prems"(1) by (rule merkle_level_pair_level)
    have len: "length (tree @ ?L) = (j + nSize) + (nSize + 1) div 2"
      using "1.prems"(1) L by (simp add: length_pair_level)
    have "last (merkle_levels H (tree @ ?L) (j + nSize) ((nSize + 1) div 2)) =
          merkle_root H (drop (j + nSize) (tree @ ?L))"
      using "1.IH" [OF True len] True by simp
    also have "\<dots> = merkle_root H (pair_level H (drop j tree))" using "1.prems"(1) L by simp
    also have "\<dots> = merkle_root H (drop j tree)"
      using "1.prems" True by (simp add: merkle_root_step)
    finally show ?thesis using True by (simp add: merkle_levels.simps [of H tree j nSize])
  next
    case False
    then have n1: "nSize = 1" using "1.prems"(2) by simp
    then have "drop j tree = [tree ! j]" using "1.prems"(1)
      by (metis Cons_nth_drop_Suc add_diff_cancel_left' drop_all le_refl length_drop lessI plus_1_eq_Suc add.commute)
    moreover have "last tree = tree ! j"
    proof -
      have "tree \<noteq> []" using "1.prems"(1) n1 by auto
      then show ?thesis using "1.prems"(1) n1 by (simp add: last_conv_nth)
    qed
    ultimately show ?thesis using n1 by (simp add: merkle_levels.simps [of H tree j] merkle_root.simps)
  qed
qed

text \<open>C11: the index-based merkle loop computes the level-by-level merkle root of the transaction ids.\<close>

theorem BuildMerkleTree_merkle_root:
  "BuildMerkleTree H blk = merkle_root H (map (GetHash_tx H) (vtx blk))"
proof (cases "vtx blk = []")
  case True
  then show ?thesis by (simp add: BuildMerkleTree_def merkle_levels.simps merkle_root.simps)
next
  case False
  let ?hs = "map (GetHash_tx H) (vtx blk)"
  have "merkle_levels H ?hs 0 (length (vtx blk)) \<noteq> []" using False by (simp add: merkle_levels_nonempty)
  moreover have "last (merkle_levels H ?hs 0 (length (vtx blk))) = merkle_root H ?hs"
    using last_merkle_levels [of ?hs 0 "length (vtx blk)" H] False by simp
  ultimately show ?thesis by (simp add: BuildMerkleTree_def)
qed


lemma merkle_inner_level:
  assumes "j + nSize \<le> length tree"
  shows "merkle_inner H j nSize tree (2 * k) =
           tree @ map (\<lambda>k. merkle_node H (tree ! (j + 2 * k)) (tree ! (j + min (2 * k + 1) (nSize - 1))))
                      [k..<(nSize + 1) div 2]"
  using assms
proof (induction "(nSize + 1) div 2 - k" arbitrary: tree k)
  case 0
  then have "\<not> 2 * k < nSize" by auto
  then show ?case using 0 by (simp add: merkle_inner.simps [of H j nSize tree])
next
  case (Suc m)
  then have lt: "2 * k < nSize" and m: "m = (nSize + 1) div 2 - Suc k" by auto
  let ?x = "merkle_node H (tree ! (j + 2 * k)) (tree ! (j + min (2 * k + 1) (nSize - 1)))"
  have len: "j + nSize \<le> length (tree @ [?x])" using Suc.prems by simp
  have nth: "\<And>a. a < j + nSize \<Longrightarrow> (tree @ [?x]) ! a = tree ! a" using Suc.prems by (simp add: nth_append)
  have "merkle_inner H j nSize tree (2 * k) = merkle_inner H j nSize (tree @ [?x]) (2 * Suc k)"
    using lt by (simp add: merkle_inner.simps [of H j nSize tree])
  also have "\<dots> = (tree @ [?x]) @ map (\<lambda>k. merkle_node H ((tree @ [?x]) ! (j + 2 * k))
                      ((tree @ [?x]) ! (j + min (2 * k + 1) (nSize - 1)))) [Suc k..<(nSize + 1) div 2]"
    using Suc.hyps(1) [OF m len] .
  also have "map (\<lambda>k. merkle_node H ((tree @ [?x]) ! (j + 2 * k))
                      ((tree @ [?x]) ! (j + min (2 * k + 1) (nSize - 1)))) [Suc k..<(nSize + 1) div 2]
           = map (\<lambda>k. merkle_node H (tree ! (j + 2 * k)) (tree ! (j + min (2 * k + 1) (nSize - 1))))
                 [Suc k..<(nSize + 1) div 2]"
  proof (rule map_cong [OF refl])
    fix x assume "x \<in> set [Suc k..<(nSize + 1) div 2]"
    then have "j + 2 * x < j + nSize" "j + min (2 * x + 1) (nSize - 1) < j + nSize" by auto
    then show "merkle_node H ((tree @ [?x]) ! (j + 2 * x)) ((tree @ [?x]) ! (j + min (2 * x + 1) (nSize - 1)))
             = merkle_node H (tree ! (j + 2 * x)) (tree ! (j + min (2 * x + 1) (nSize - 1)))"
      by (simp only: nth)
  qed
  finally show ?case using lt by (simp add: upt_conv_Cons)
qed

lemma merkle_inner_eq:
  "j + nSize \<le> length tree \<Longrightarrow> merkle_inner H j nSize tree 0 = tree @ merkle_level H tree j nSize"
  using merkle_inner_level [of j nSize tree H 0] by (simp add: merkle_level_def Let_def)

lemma while_merkle_loop:
  "length tree = j + nSize \<Longrightarrow>
   \<exists>j' n'. n' \<le> 1 \<and>
     while_option (\<lambda>(tree, j, nSize). 1 < nSize)
       (\<lambda>(tree, j, nSize). (merkle_inner H j nSize tree 0, j + nSize, (nSize + 1) div 2))
       (tree, j, nSize) = Some (merkle_levels H tree j nSize, j', n')"
proof (induction H tree j nSize rule: merkle_levels.induct)
  case (1 H tree j nSize)
  show ?case
  proof (cases "1 < nSize")
    case True
    have i: "merkle_inner H j nSize tree 0 = tree @ merkle_level H tree j nSize"
      using "1.prems" by (simp add: merkle_inner_eq)
    have "length (tree @ merkle_level H tree j nSize) = (j + nSize) + (nSize + 1) div 2"
      using "1.prems" by (simp add: merkle_level_def)
    then show ?thesis using "1.IH" [OF True] True i
      by (subst while_option_unfold) (simp add: merkle_levels.simps [of H tree j nSize])
  next
    case False
    then show ?thesis by (subst while_option_unfold) (auto simp: merkle_levels.simps [of H tree j nSize])
  qed
qed

text \<open>
  C21: the source-shaped loops, whose inner loop reads the vector it is
  appending to, compute the same merkle root as \<open>BuildMerkleTree\<close>'s
  level-at-once model, for every block.
\<close>

theorem BuildMerkleTree_loop_eq: "BuildMerkleTree_loop H blk = Some (BuildMerkleTree H blk)"
  using while_merkle_loop [where H = H and tree = "map (GetHash_tx H) (vtx blk)" and j = 0
      and nSize = "length (vtx blk)"]
  by (auto simp: BuildMerkleTree_loop_def merkle_loop_def BuildMerkleTree_def Let_def)

end
