(* ===== verification/Seeds.thy ===== *)
theory Seeds
  imports Prelude
begin

text \<open>
  \<open>convertSeed6\<close> of \<open>chainparams.cpp\<close> (lines 20--47): each packed seed
  (\<open>SeedSpec6\<close>: 16 address bytes and a port) becomes a \<open>CAddress\<close> whose
  last-seen time is \<open>GetTime() - GetRand(nOneWeek) - nOneWeek\<close>.  The clock and
  the random source are the environment \<open>seed_env\<close>: the \<open>k\<close>-th call of the
  loop reads \<open>GetTime_at env k\<close> and \<open>GetRand_at env k nOneWeek\<close>, and the
  loop threads the call counter.  The arithmetic is at the source's widths:
  \<open>int64_t - uint64_t\<close> is computed in \<open>uint64_t\<close>, and the result is stored
  in \<open>CAddress::nTime\<close>, an \<open>unsigned int\<close>, so it is truncated to 32 bits.
  The lemmas give the output list (the seeds in order, each with its own time)
  and the interval the time lies in when \<open>GetRand\<close> keeps its contract.
\<close>

record SeedSpec6 =
  seed_addr :: bytes
  seed_port :: uint16

text \<open>\<open>CAddress\<close> (\<open>protocol.h\<close>): a \<open>CService\<close> and the gossip metadata.\<close>

record CAddress =
  addr_ip :: bytes
  addr_port :: uint16
  nServices :: uint64
  addr_nTime :: uint32
  nLastTry :: int64

record seed_env =
  GetTime_at :: "nat \<Rightarrow> int64"
  GetRand_at :: "nat \<Rightarrow> uint64 \<Rightarrow> uint64"

definition nOneWeek :: int64 where
  "nOneWeek = 7 * 24 * 60 * 60"

definition NODE_NETWORK :: uint64 where
  "NODE_NETWORK = 1"

text \<open>\<open>CAddress(CService(ip, port))\<close>: \<open>Init()\<close> sets the default time 100000000.\<close>

definition CAddress_of :: "bytes \<Rightarrow> uint16 \<Rightarrow> CAddress" where
  "CAddress_of ip port =
     \<lparr>addr_ip = ip, addr_port = port, nServices = NODE_NETWORK, addr_nTime = 100000000, nLastTry = 0\<rparr>"

text \<open>\<open>addr.nTime = GetTime() - GetRand(nOneWeek) - nOneWeek\<close>, in \<open>uint64_t\<close>, stored in 32 bits.\<close>

definition seed_nTime :: "int64 \<Rightarrow> uint64 \<Rightarrow> uint32" where
  "seed_nTime now r = ucast (now - r - nOneWeek)"

fun convertSeed6 :: "seed_env \<Rightarrow> CAddress list \<Rightarrow> SeedSpec6 list \<Rightarrow> nat \<Rightarrow> CAddress list \<times> nat" where
  "convertSeed6 env vSeedsOut [] k = (vSeedsOut, k)"
| "convertSeed6 env vSeedsOut (d # ds) k =
     (let addr = (CAddress_of (take 16 (seed_addr d)) (seed_port d))
                   \<lparr>addr_nTime := seed_nTime (GetTime_at env k) (GetRand_at env k nOneWeek)\<rparr>
      in convertSeed6 env (vSeedsOut @ [addr]) ds (Suc k))"

text \<open>What \<open>GetRand\<close> promises: a value below its bound.\<close>

definition GetRand_contract :: "seed_env \<Rightarrow> bool" where
  "GetRand_contract env \<longleftrightarrow> (\<forall>k n. 0 < n \<longrightarrow> GetRand_at env k n < n)"

text \<open>A clock at the genesis time and a random source that returns 0, and one seed, for concrete runs.\<close>

definition seed_env_zero :: seed_env where
  "seed_env_zero = \<lparr>GetTime_at = (\<lambda>_. 1523209806), GetRand_at = (\<lambda>_ _. 0)\<rparr>"

definition seed_example :: SeedSpec6 where
  "seed_example = \<lparr>seed_addr = replicate 10 0 @ [0xff, 0xff, 178, 57, 222, 93], seed_port = 36003\<rparr>"

text \<open>A clock two weeks past \<open>2^32\<close> seconds (the year 2106).\<close>

definition seed_env_2106 :: seed_env where
  "seed_env_2106 = \<lparr>GetTime_at = (\<lambda>_. 2 ^ 32 + 2 * 604800), GetRand_at = (\<lambda>_ _. 0)\<rparr>"

subsection \<open>Lemmas\<close>

lemma unat_nOneWeek [simp]: "unat nOneWeek = 604800"
  by (simp add: nOneWeek_def)

lemma convertSeed6_eq:
  "convertSeed6 env out ds k =
     (out @ map (\<lambda>i. (CAddress_of (take 16 (seed_addr (ds ! i))) (seed_port (ds ! i)))
                      \<lparr>addr_nTime := seed_nTime (GetTime_at env (k + i)) (GetRand_at env (k + i) nOneWeek)\<rparr>)
                [0..<length ds],
      k + length ds)"
proof (induction ds arbitrary: out k)
  case Nil
  then show ?case by simp
next
  case (Cons d ds)
  show ?case
    by (simp add: Cons.IH Let_def map_upt_Suc del: upt_Suc)
qed

text \<open>
  The stored time, read as a number: the 64-bit difference is exact when the
  clock is past the subtracted amount, and the store keeps it modulo \<open>2^32\<close>.
\<close>

lemma unat_seed_nTime:
  assumes "unat r + 604800 \<le> unat now"
  shows "unat (seed_nTime now r) = (unat now - unat r - 604800) mod 2 ^ 32"
proof -
  have "r \<le> now" using assms by (simp add: word_le_nat_alt)
  then have a: "unat (now - r) = unat now - unat r" by (simp add: unat_sub)
  have "nOneWeek \<le> now - r" using assms a by (simp add: word_le_nat_alt)
  then have "unat (now - r - nOneWeek) = unat now - unat r - 604800"
    using a by (simp add: unat_sub)
  then show ?thesis by (simp add: seed_nTime_def unsigned_ucast_eq take_bit_eq_mod)
qed

lemma nth_convertSeed6:
  "j < length ds \<Longrightarrow>
   fst (convertSeed6 env out ds k) ! (length out + j) =
     (CAddress_of (take 16 (seed_addr (ds ! j))) (seed_port (ds ! j)))
       \<lparr>addr_nTime := seed_nTime (GetTime_at env (k + j)) (GetRand_at env (k + j) nOneWeek)\<rparr>"
  by (simp add: convertSeed6_eq nth_append)

text \<open>
  The stored time of one converted seed, once the clock has passed two weeks:
  the random draw is below a week, and the 64-bit difference is exact, so the
  time is that difference modulo \<open>2^32\<close>.
\<close>

lemma seed_time_mod:
  assumes "GetRand_contract env" and "j < length ds" and "2 * 604800 \<le> unat (GetTime_at env (k + j))"
  shows "unat (GetRand_at env (k + j) nOneWeek) < 604800
     \<and> unat (addr_nTime (fst (convertSeed6 env out ds k) ! (length out + j)))
         = (unat (GetTime_at env (k + j)) - unat (GetRand_at env (k + j) nOneWeek) - 604800) mod 2 ^ 32"
proof -
  let ?now = "GetTime_at env (k + j)" and ?r = "GetRand_at env (k + j) nOneWeek"
  have "?r < nOneWeek" using assms(1) by (simp add: GetRand_contract_def nOneWeek_def)
  then have r: "unat ?r < 604800" by (simp add: word_less_nat_alt)
  then have "unat (seed_nTime ?now ?r) = (unat ?now - unat ?r - 604800) mod 2 ^ 32"
    using assms(3) by (intro unat_seed_nTime) simp
  then show ?thesis using r by (simp add: nth_convertSeed6 assms(2))
qed

lemma convertSeed6_ip_port:
  "map (\<lambda>a. (addr_ip a, addr_port a)) (fst (convertSeed6 env out ds k)) =
     map (\<lambda>a. (addr_ip a, addr_port a)) out @ map (\<lambda>d. (take 16 (seed_addr d), seed_port d)) ds"
proof -
  have "map (\<lambda>i. (take 16 (seed_addr (ds ! i)), seed_port (ds ! i))) [0..<length ds] =
        map (\<lambda>d. (take 16 (seed_addr d), seed_port d)) ds"
    by (rule nth_equalityI) simp_all
  then show ?thesis by (simp add: convertSeed6_eq CAddress_of_def comp_def)
qed

lemma GetRand_contract_zero: "GetRand_contract seed_env_zero"
  by (simp add: GetRand_contract_def seed_env_zero_def)

subsection \<open>Properties\<close>

text \<open>
  C13: the converted list is the old list followed by one address per seed, in
  order, with the seed's address bytes and port, and the loop made one clock and
  one random call per seed.
\<close>

theorem convertSeed6_addresses:
  "map (\<lambda>a. (addr_ip a, addr_port a)) (fst (convertSeed6 env out ds k)) =
     map (\<lambda>a. (addr_ip a, addr_port a)) out @ map (\<lambda>d. (take 16 (seed_addr d), seed_port d)) ds
   \<and> snd (convertSeed6 env out ds k) = k + length ds"
  using convertSeed6_ip_port [of env out ds k] by (simp add: convertSeed6_eq)

text \<open>
  C14: when \<open>GetRand\<close> keeps its contract and the clock reads a time between two
  weeks and \<open>2^32\<close> seconds, every converted seed's last-seen time lies in the
  half-open window \<open>(now - 2 weeks, now - 1 week]\<close> of the clock reading of its
  own iteration.
\<close>

theorem convertSeed6_nTime_window:
  assumes "GetRand_contract env" and "j < length ds"
    and "2 * 604800 \<le> unat (GetTime_at env (k + j))" and "unat (GetTime_at env (k + j)) < 2 ^ 32"
  shows "unat (GetTime_at env (k + j)) - 2 * 604800 < unat (addr_nTime (fst (convertSeed6 env out ds k) ! (length out + j)))
       \<and> unat (addr_nTime (fst (convertSeed6 env out ds k) ! (length out + j))) \<le> unat (GetTime_at env (k + j)) - 604800"
proof -
  let ?now = "unat (GetTime_at env (k + j))" and ?r = "unat (GetRand_at env (k + j) nOneWeek)"
    and ?t = "unat (addr_nTime (fst (convertSeed6 env out ds k) ! (length out + j)))"
  have r: "?r < 604800" and e: "?t = (?now - ?r - 604800) mod 2 ^ 32"
    using seed_time_mod [OF assms(1,2,3), of out] by blast+
  have "?now - ?r - 604800 < 2 ^ 32" using assms(4) by linarith
  then have "?t = ?now - ?r - 604800" using e by simp
  then show ?thesis using r assms(3) by linarith
qed

theorem convertSeed6_nTime_window_witness:
  "unat (GetTime_at seed_env_zero 0) - 2 * 604800
     < unat (addr_nTime (fst (convertSeed6 seed_env_zero [] [seed_example] 0) ! 0))
   \<and> unat (addr_nTime (fst (convertSeed6 seed_env_zero [] [seed_example] 0) ! 0))
     \<le> unat (GetTime_at seed_env_zero 0) - 604800"
  using convertSeed6_nTime_window [OF GetRand_contract_zero, of 0 "[seed_example]" 0 "[]"]
  by (simp add: seed_env_zero_def)

text \<open>
  C24: the 32-bit store wraps: once the clock is two weeks past \<open>2^32\<close> seconds
  (the year 2106), a converted seed's last-seen time is the difference modulo
  \<open>2^32\<close>, and it lies before the two-week window instead of inside it.
\<close>

theorem convertSeed6_nTime_wraps:
  assumes "GetRand_contract env" and "j < length ds"
    and "2 ^ 32 + 2 * 604800 \<le> unat (GetTime_at env (k + j))"
  shows "unat (addr_nTime (fst (convertSeed6 env out ds k) ! (length out + j)))
           = (unat (GetTime_at env (k + j)) - unat (GetRand_at env (k + j) nOneWeek) - 604800) mod 2 ^ 32
       \<and> unat (addr_nTime (fst (convertSeed6 env out ds k) ! (length out + j))) < unat (GetTime_at env (k + j)) - 2 * 604800"
proof -
  let ?now = "unat (GetTime_at env (k + j))" and ?r = "unat (GetRand_at env (k + j) nOneWeek)"
    and ?t = "unat (addr_nTime (fst (convertSeed6 env out ds k) ! (length out + j)))"
  have w: "2 * 604800 \<le> ?now" using assms(3) by linarith
  have e: "?t = (?now - ?r - 604800) mod 2 ^ 32"
    using seed_time_mod [OF assms(1,2) w, of out] by blast
  have "(?now - ?r - 604800) mod 2 ^ 32 < 2 ^ 32" by simp
  then show ?thesis using e assms(3) by linarith
qed

theorem convertSeed6_nTime_wraps_witness:
  "GetRand_contract seed_env_2106 \<and>
   unat (addr_nTime (fst (convertSeed6 seed_env_2106 [] [seed_example] 0) ! 0)) = 604800"
proof -
  have c: "GetRand_contract seed_env_2106" by (simp add: GetRand_contract_def seed_env_2106_def)
  show ?thesis using convertSeed6_nTime_wraps [OF c, of 0 "[seed_example]" 0 "[]"] c
    by (simp add: seed_env_2106_def)
qed

end
