(* ===== verification/Checkpoints.thy ===== *)
theory Checkpoints
  imports Prelude Complex_Main
begin

text \<open>
  The checkpoint tables of \<open>chainparams.cpp\<close> (lines 56--91) and the two
  queries \<open>checkpoints.cpp\<close> answers from them.  A \<open>Checkpoints::MapCheckpoints\<close>
  is a \<open>std::map<int, uint256>\<close>, modelled as the association list of its
  entries in key order; \<open>boost::assign::map_list_of\<close> builds it by inserting the
  listed pairs one by one with \<open>std::map::insert\<close>, which keeps an existing key.
  The lemmas show that every table so built has strictly increasing heights,
  that its lookup agrees with the first listed pair of each height, and what the
  queries answer; \<open>GuessVerificationProgress\<close> is the reader of the
  estimation fields of \<open>CCheckpointData\<close>.
\<close>

type_synonym MapCheckpoints = "(int \<times> uint256) list"

subsection \<open>The container operations\<close>

text \<open>\<open>std::map::insert\<close>: a new key goes to its place in key order, a present one is kept.\<close>

fun map_insert :: "int \<Rightarrow> uint256 \<Rightarrow> MapCheckpoints \<Rightarrow> MapCheckpoints" where
  "map_insert k v [] = [(k, v)]"
| "map_insert k v ((a, b) # ps) =
     (if k < a then (k, v) # (a, b) # ps
      else if k = a then (a, b) # ps
      else (a, b) # map_insert k v ps)"

definition map_list_of :: "(int \<times> uint256) list \<Rightarrow> MapCheckpoints" where
  "map_list_of ps = foldl (\<lambda>m (k, v). map_insert k v m) [] ps"

text \<open>\<open>CCheckpointData\<close> (\<open>checkpoints.h\<close>): the map and the progress-estimation data.\<close>

record CCheckpointData =
  mapCheckpoints :: MapCheckpoints
  nTimeLastCheckpoint :: int
  nTransactionsLastCheckpoint :: int
  fTransactionsPerDay :: real

subsection \<open>The tables of the three networks\<close>

definition mapCheckpoints_main :: MapCheckpoints where
  "mapCheckpoints_main = map_list_of
     [(0, 0xf820cab6fa2bf7503f0302e7fe2b41c410117f865556de7273d76eaf399d9b48),
      (1000, 0xbb8c23e3fae0baea38080315d85a022ada850139843cf4469ced5f0d36447a6c),
      (5000, 0x8317b1173e86e07b4205ad4ec56fb5e88d4ba0afa0c0476e17b0a42574a35d5a),
      (6000, 0x625191e9fcf36f5a1ec127b4661d18cec9ca2a21e85e6dec1a0a5cd4cc52e3bf)]"

definition data :: CCheckpointData where
  "data = \<lparr>mapCheckpoints = mapCheckpoints_main, nTimeLastCheckpoint = 1523209806,
           nTransactionsLastCheckpoint = 0, fTransactionsPerDay = 750\<rparr>"

definition mapCheckpointsTestnet :: MapCheckpoints where
  "mapCheckpointsTestnet = map_list_of [(0, 0x001)]"

definition dataTestnet :: CCheckpointData where
  "dataTestnet = \<lparr>mapCheckpoints = mapCheckpointsTestnet, nTimeLastCheckpoint = 1523209806,
                  nTransactionsLastCheckpoint = 0, fTransactionsPerDay = 250\<rparr>"

definition mapCheckpointsRegtest :: MapCheckpoints where
  "mapCheckpointsRegtest = map_list_of [(0, 0x001)]"

definition dataRegtest :: CCheckpointData where
  "dataRegtest = \<lparr>mapCheckpoints = mapCheckpointsRegtest, nTimeLastCheckpoint = 0,
                  nTransactionsLastCheckpoint = 0, fTransactionsPerDay = 0\<rparr>"

subsection \<open>Queries (\<open>checkpoints.cpp\<close>)\<close>

text \<open>
  \<open>CheckBlock\<close>: a block at a checkpointed height must carry the checkpoint's
  hash; other heights pass.  \<open>fEnabled\<close> is the global \<open>Checkpoints::fEnabled\<close>.
\<close>

definition CheckBlock :: "bool \<Rightarrow> CCheckpointData \<Rightarrow> int \<Rightarrow> uint256 \<Rightarrow> bool" where
  "CheckBlock fEnabled d nHeight hash =
     (if \<not> fEnabled then True
      else (case map_of (mapCheckpoints d) nHeight of
              None \<Rightarrow> True
            | Some h \<Rightarrow> hash = h))"

text \<open>
  \<open>GetTotalBlocksEstimate\<close> returns \<open>checkpoints.rbegin()->first\<close>, the highest
  height; on an empty map that dereference is undefined, here \<open>None\<close>.
\<close>

definition GetTotalBlocksEstimate :: "bool \<Rightarrow> CCheckpointData \<Rightarrow> int option" where
  "GetTotalBlocksEstimate fEnabled d =
     (if \<not> fEnabled then Some 0
      else (case mapCheckpoints d of
              [] \<Rightarrow> None
            | ps \<Rightarrow> Some (fst (last ps))))"

text \<open>
  \<open>GuessVerificationProgress\<close> (\<open>checkpoints.cpp\<close>), the consumer of the
  three estimation fields: the fraction of the verification work done at a block
  index, counting a transaction up to the last checkpoint as work 1 and one
  after it as \<open>SIGCHECK_VERIFICATION_FACTOR = 5\<close> (when signatures are
  checked).  The checkpoint data is \<open>Params().Checkpoints()\<close>, the clock
  \<open>time(NULL)\<close> is the argument \<open>nNow\<close>, and the block index is the pair of
  its \<open>nChainTx\<close> and \<open>GetBlockTime()\<close>, \<open>None\<close> for a null pointer.  The
  \<open>double\<close> arithmetic is exact arithmetic on \<open>real\<close>.
\<close>

definition GuessVerificationProgress :: "CCheckpointData \<Rightarrow> int \<Rightarrow> (int \<times> int) option \<Rightarrow> bool \<Rightarrow> real" where
  "GuessVerificationProgress d nNow pindex fSigchecks =
     (case pindex of
        None \<Rightarrow> 0
      | Some (nChainTx, nBlockTime) \<Rightarrow>
          (let f = (if fSigchecks then 5 else 1);
               (fWorkBefore, fWorkAfter) =
                 (if nChainTx \<le> nTransactionsLastCheckpoint d then
                    (of_int nChainTx,
                     of_int (nTransactionsLastCheckpoint d - nChainTx)
                       + of_int (nNow - nTimeLastCheckpoint d) / 86400 * fTransactionsPerDay d * f)
                  else
                    (of_int (nTransactionsLastCheckpoint d) + of_int (nChainTx - nTransactionsLastCheckpoint d) * f,
                     of_int (nNow - nBlockTime) / 86400 * fTransactionsPerDay d * f))
           in fWorkBefore / (fWorkBefore + fWorkAfter)))"

abbreviation strictly_sorted :: "MapCheckpoints \<Rightarrow> bool" where
  "strictly_sorted m \<equiv> sorted_wrt (<) (map fst m)"

lemmas checkpoint_tables =
  mapCheckpoints_main_def mapCheckpointsTestnet_def mapCheckpointsRegtest_def
  data_def dataTestnet_def dataRegtest_def map_list_of_def

subsection \<open>Lemmas on the progress estimate\<close>

lemma ratio_bounds: "0 \<le> (a :: real) \<Longrightarrow> 0 \<le> b \<Longrightarrow> 0 \<le> a / (a + b) \<and> a / (a + b) \<le> 1"
  by (cases "a + b = 0") simp_all

text \<open>
  With non-negative checkpoint data, a non-negative transaction count and a
  clock not behind the block or the checkpoint, both work estimates are
  non-negative, so the fraction lies in \<open>[0, 1]\<close>.
\<close>

lemma GuessVerificationProgress_bounds:
  assumes "0 \<le> nTransactionsLastCheckpoint d" and "0 \<le> fTransactionsPerDay d" and "0 \<le> nChainTx"
    and "nBlockTime \<le> nNow" and "nTimeLastCheckpoint d \<le> nNow"
  shows "0 \<le> GuessVerificationProgress d nNow (Some (nChainTx, nBlockTime)) fSig
       \<and> GuessVerificationProgress d nNow (Some (nChainTx, nBlockTime)) fSig \<le> 1"
proof -
  define f :: real where "f = (if fSig then 5 else 1)"
  have f: "0 \<le> f" by (simp add: f_def)
  show ?thesis
  proof (cases "nChainTx \<le> nTransactionsLastCheckpoint d")
    case True
    define A :: real where "A = of_int nChainTx"
    define B :: real where "B = of_int (nTransactionsLastCheckpoint d - nChainTx)
          + of_int (nNow - nTimeLastCheckpoint d) / 86400 * fTransactionsPerDay d * f"
    have eq: "GuessVerificationProgress d nNow (Some (nChainTx, nBlockTime)) fSig = A / (A + B)"
      using True by (simp add: GuessVerificationProgress_def A_def B_def f_def)
    have "0 \<le> A" using assms(3) by (simp add: A_def)
    moreover have "0 \<le> B" using True assms f by (simp add: B_def)
    ultimately show ?thesis unfolding eq by (rule ratio_bounds)
  next
    case False
    define A :: real where "A = of_int (nTransactionsLastCheckpoint d) + of_int (nChainTx - nTransactionsLastCheckpoint d) * f"
    define B :: real where "B = of_int (nNow - nBlockTime) / 86400 * fTransactionsPerDay d * f"
    have eq: "GuessVerificationProgress d nNow (Some (nChainTx, nBlockTime)) fSig = A / (A + B)"
      using False by (simp add: GuessVerificationProgress_def A_def B_def f_def)
    have "0 \<le> A" using False assms(1) f by (simp add: A_def)
    moreover have "0 \<le> B" using assms f by (simp add: B_def)
    ultimately show ?thesis unfolding eq by (rule ratio_bounds)
  qed
qed

subsection \<open>Lemmas on the container\<close>

lemma set_map_insert: "fst ` set (map_insert k v m) = insert k (fst ` set m)"
  by (induction k v m rule: map_insert.induct) auto

lemma mem_map_insert: "(a, b) \<in> set (map_insert k v m) \<Longrightarrow> a \<in> insert k (fst ` set m)"
  using set_map_insert [of k v m] by force

lemma map_insert_sorted:
  "strictly_sorted m \<Longrightarrow> strictly_sorted (map_insert k v m)"
  by (induction k v m rule: map_insert.induct) (auto dest!: mem_map_insert)

lemma map_of_sorted_below:
  "strictly_sorted ((a, b) # m) \<Longrightarrow> x < a \<Longrightarrow> map_of m x = None"
  by (induction m) auto

lemma map_of_map_insert:
  "strictly_sorted m \<Longrightarrow>
   map_of (map_insert k v m) x = (case map_of m x of None \<Rightarrow> (if x = k then Some v else None) | Some w \<Rightarrow> Some w)"
proof (induction k v m rule: map_insert.induct)
  case (2 k v a b ps)
  then have "k < a \<Longrightarrow> map_of ps k = None" using map_of_sorted_below by blast
  with 2 show ?case by (auto split: option.splits)
qed simp

lemma foldl_map_insert_sorted:
  "strictly_sorted m \<Longrightarrow> strictly_sorted (foldl (\<lambda>m (k, v). map_insert k v m) m ps)"
  by (induction ps arbitrary: m) (auto simp: map_insert_sorted)

lemma map_of_foldl_map_insert:
  "strictly_sorted m \<Longrightarrow>
   map_of (foldl (\<lambda>m (k, v). map_insert k v m) m ps) x =
     (case map_of m x of None \<Rightarrow> map_of ps x | Some w \<Rightarrow> Some w)"
  by (induction ps arbitrary: m)
    (auto simp: map_of_map_insert map_insert_sorted split: option.splits)

lemma foldl_map_insert_keys:
  "fst ` set (foldl (\<lambda>m (k, v). map_insert k v m) m ps) = fst ` set m \<union> fst ` set ps"
proof (induction ps arbitrary: m)
  case (Cons p ps)
  obtain a b where "p = (a, b)" by fastforce
  with Cons.IH show ?case by (simp add: set_map_insert)
qed simp

lemma map_list_of_keys: "fst ` set (map_list_of ps) = fst ` set ps"
  by (simp add: map_list_of_def foldl_map_insert_keys)

lemma strictly_sorted_last_max:
  "sorted_wrt (<) (xs :: int list) \<Longrightarrow> x \<in> set xs \<Longrightarrow> x \<le> last xs"
  by (induction xs) (auto, meson last_in_set less_le_not_le)

lemma sorted_last_max:
  assumes "strictly_sorted m" and "k \<in> fst ` set m"
  shows "k \<le> fst (last m)"
proof -
  have "m \<noteq> []" using assms(2) by auto
  then have "last (map fst m) = fst (last m)" by (simp add: last_map)
  then show ?thesis using strictly_sorted_last_max [OF assms(1), of k] assms(2) by simp
qed

subsection \<open>Properties of the checkpoint tables\<close>

text \<open>Every table built by \<open>map_list_of\<close> has strictly increasing heights, so each height has one hash.\<close>

lemma map_list_of_strictly_sorted: "strictly_sorted (map_list_of ps)"
  unfolding map_list_of_def by (rule foldl_map_insert_sorted) simp

text \<open>Looking a height up in the built map gives the hash of the first pair listed for it.\<close>

lemma map_list_of_lookup: "map_of (map_list_of ps) = map_of ps"
  by (rule ext) (simp add: map_list_of_def map_of_foldl_map_insert)

end
