(* ===== verification/ChainParams.thy ===== *)
theory ChainParams
  imports Merkle Seeds Checkpoints
begin

text \<open>
  The parameter profiles of \<open>chainparams.cpp\<close> (lines 93--316).  A
  \<open>CChainParams\<close> object is the record \<open>CChainParams\<close>; the four classes
  \<open>CMainParams\<close>, \<open>CTestNetParams\<close>, \<open>CRegTestParams\<close> and
  \<open>CUnitTestParams\<close> are their constructor bodies, each a function from the
  object as its base-class constructor left it to the object it leaves, and a
  class's constructor is the chain of its base-class bodies followed by its
  own, as C++ runs them.  The statics start zero-initialized
  (\<open>CChainParams_zero\<close>).  A failed \<open>assert\<close> is the value \<open>Inl\<close> of the
  error it reports; the seed conversion threads the clock/random call counter.
  The hash functions are the parameter \<open>H\<close> (see \<open>Primitives\<close>).  The
  per-network constants (message start bytes, DNS seeds, base58 prefix
  assignments, dummy pool address, the derived classes' genesis changes) are
  definitions of their own, unfolded by the collection \<open>profile_consts\<close>.  The
  lemmas give each constructor's fields, its genesis behaviour, its base58
  prefixes and the well-formedness \<open>wf_params\<close> of what it builds; the claims
  pin down the genesis scripts, the genesis block's wire layout, the asserts and
  the alert key.
\<close>

datatype Network = MAIN | TESTNET | REGTEST | UNITTEST | MAX_NETWORK_TYPES

datatype Base58Type = PUBKEY_ADDRESS | SCRIPT_ADDRESS | SECRET_KEY | EXT_PUBLIC_KEY | EXT_SECRET_KEY

text \<open>The fatal errors: the failing \<open>assert\<close> of each source line.\<close>

datatype error =
    GenesisHashMismatch Network      \<comment> \<open>lines 135, 201, 262\<close>
  | MerkleRootMismatch Network       \<comment> \<open>line 136\<close>
  | NoCurrentParams                  \<comment> \<open>lines 323, 329\<close>
  | NotUnitTestParams                \<comment> \<open>line 324\<close>
  | UnimplementedNetwork             \<comment> \<open>line 344\<close>

text \<open>Both enumerations are finite: \<open>enum\<close> instances, so that statements over all networks or all prefix kinds evaluate.\<close>

lemma UNIV_Network: "(UNIV :: Network set) = {MAIN, TESTNET, REGTEST, UNITTEST, MAX_NETWORK_TYPES}"
  using Network.exhaust by auto

instantiation Network :: enum
begin
definition "enum_Network = [MAIN, TESTNET, REGTEST, UNITTEST, MAX_NETWORK_TYPES]"
definition "enum_all_Network P \<longleftrightarrow> P MAIN \<and> P TESTNET \<and> P REGTEST \<and> P UNITTEST \<and> P MAX_NETWORK_TYPES"
definition "enum_ex_Network P \<longleftrightarrow> P MAIN \<or> P TESTNET \<or> P REGTEST \<or> P UNITTEST \<or> P MAX_NETWORK_TYPES"
instance
proof
  show "(UNIV :: Network set) = set enum_class.enum"
    by (simp add: UNIV_Network enum_Network_def)
  show "distinct (enum_class.enum :: Network list)" by (simp add: enum_Network_def)
  show "enum_class.enum_all P = Ball UNIV P" for P :: "Network \<Rightarrow> bool"
    by (simp add: UNIV_Network enum_all_Network_def)
  show "enum_class.enum_ex P = Bex UNIV P" for P :: "Network \<Rightarrow> bool"
    by (simp add: UNIV_Network enum_ex_Network_def)
qed
end

lemma UNIV_Base58Type: "(UNIV :: Base58Type set) = {PUBKEY_ADDRESS, SCRIPT_ADDRESS, SECRET_KEY, EXT_PUBLIC_KEY, EXT_SECRET_KEY}"
  using Base58Type.exhaust by auto

instantiation Base58Type :: enum
begin
definition "enum_Base58Type = [PUBKEY_ADDRESS, SCRIPT_ADDRESS, SECRET_KEY, EXT_PUBLIC_KEY, EXT_SECRET_KEY]"
definition "enum_all_Base58Type P \<longleftrightarrow>
  P PUBKEY_ADDRESS \<and> P SCRIPT_ADDRESS \<and> P SECRET_KEY \<and> P EXT_PUBLIC_KEY \<and> P EXT_SECRET_KEY"
definition "enum_ex_Base58Type P \<longleftrightarrow>
  P PUBKEY_ADDRESS \<or> P SCRIPT_ADDRESS \<or> P SECRET_KEY \<or> P EXT_PUBLIC_KEY \<or> P EXT_SECRET_KEY"
instance
proof
  show "(UNIV :: Base58Type set) = set enum_class.enum"
    by (simp add: UNIV_Base58Type enum_Base58Type_def)
  show "distinct (enum_class.enum :: Base58Type list)" by (simp add: enum_Base58Type_def)
  show "enum_class.enum_all P = Ball UNIV P" for P :: "Base58Type \<Rightarrow> bool"
    by (simp add: UNIV_Base58Type enum_all_Base58Type_def)
  show "enum_class.enum_ex P = Bex UNIV P" for P :: "Base58Type \<Rightarrow> bool"
    by (simp add: UNIV_Base58Type enum_ex_Base58Type_def)
qed
end

record CDNSSeedData =
  dns_name :: string
  dns_host :: string

record CChainParams =
  networkID :: Network
  strNetworkID :: string
  pchMessageStart :: bytes
  vAlertPubKey :: bytes
  nDefaultPort :: int
  bnProofOfWorkLimit :: uint256
  nSubsidyHalvingInterval :: int
  nEnforceBlockUpgradeMajority :: int
  nRejectBlockOutdatedMajority :: int
  nToCheckBlockUpgradeMajority :: int
  nMinerThreads :: int
  nTargetTimespan :: int
  nTargetSpacing :: int
  genesis :: CBlock
  hashGenesisBlock :: uint256
  vSeeds :: "CDNSSeedData list"
  base58Prefixes :: "Base58Type \<Rightarrow> bytes"
  vFixedSeeds :: "CAddress list"
  fRequireRPCPassword :: bool
  fMiningRequiresPeers :: bool
  fAllowMinDifficultyBlocks :: bool
  fDefaultConsistencyChecks :: bool
  fRequireStandard :: bool
  fMineBlocksOnDemand :: bool
  fSkipProofOfWorkCheck :: bool
  fTestnetToBeDeprecatedFieldRPC :: bool
  nPoolMaxTransactions :: int
  strSporkKey :: string
  strMasternodePaymentsPubKey :: string
  strDarksendPoolDummyAddress :: string
  nStartMasternodePayments :: int

text \<open>A static object before its constructor runs: zero-initialized, its \<open>CBlock\<close> member null.\<close>

definition CChainParams_zero :: CChainParams where
  "CChainParams_zero =
     \<lparr>networkID = MAIN, strNetworkID = [], pchMessageStart = [0, 0, 0, 0], vAlertPubKey = [],
      nDefaultPort = 0, bnProofOfWorkLimit = 0, nSubsidyHalvingInterval = 0,
      nEnforceBlockUpgradeMajority = 0, nRejectBlockOutdatedMajority = 0,
      nToCheckBlockUpgradeMajority = 0, nMinerThreads = 0, nTargetTimespan = 0, nTargetSpacing = 0,
      genesis = CBlock_default, hashGenesisBlock = 0, vSeeds = [], base58Prefixes = (\<lambda>_. []),
      vFixedSeeds = [], fRequireRPCPassword = False, fMiningRequiresPeers = False,
      fAllowMinDifficultyBlocks = False, fDefaultConsistencyChecks = False, fRequireStandard = False,
      fMineBlocksOnDemand = False, fSkipProofOfWorkCheck = False,
      fTestnetToBeDeprecatedFieldRPC = False, nPoolMaxTransactions = 0, strSporkKey = [],
      strMasternodePaymentsPubKey = [], strDarksendPoolDummyAddress = [],
      nStartMasternodePayments = 0\<rparr>"

definition COIN :: int64 where
  "COIN = 100000000"

text \<open>\<open>~uint256(0) >> n\<close>\<close>

definition pow_limit :: "nat \<Rightarrow> uint256" where
  "pow_limit n = drop_bit n (NOT 0)"

subsection \<open>The genesis block (lines 119--136)\<close>

definition pszTimestamp :: string where
  "pszTimestamp = ''Examination 08/04/2018 coin for study''"

definition pubkey_hex_main :: string where
  "pubkey_hex_main = ''04dad0fe35a7c4eff69a85b35bf29a41771ec306a3feed898209ab4b6c551ff082b3f4485e9f3720287540601659cc2a84af51c51a9a84cf0f309382e9fd1bbabe''"

text \<open>\<open>txNew\<close>: one input whose script pushes the bits constant, 4 and the message; one output.\<close>

definition txNew :: CMutableTransaction where
  "txNew =
     CMutableTransaction_default
       \<lparr>vin := [CTxIn_default
                   \<lparr>scriptSig := push_vector (push_scriptnum (push_int64 [] 486604799) 4)
                                              (bytes_of_string pszTimestamp)\<rparr>],
        vout := [CTxOut_default
                   \<lparr>nValue := 120 * COIN,
                    scriptPubKey := push_opcode (push_vector [] (ParseHex pubkey_hex_main)) OP_CHECKSIG\<rparr>]\<rparr>"

text \<open>Lines 126--132 on the object's \<open>genesis\<close> member, in the source's order.\<close>

definition build_genesis :: "hash_impl \<Rightarrow> CBlock \<Rightarrow> CBlock" where
  "build_genesis H g0 =
     (let g1 = g0\<lparr>vtx := vtx g0 @ [txNew]\<rparr>;
          g2 = g1\<lparr>hashPrevBlock := 0\<rparr>;
          g3 = g2\<lparr>hashMerkleRoot := BuildMerkleTree H g2\<rparr>
      in g3\<lparr>nVersion := 1, nTime := 1523209806, nBits := 0x1e0ffff0, nNonce := 5717343\<rparr>)"

definition spork_key_hex :: string where
  "spork_key_hex = ''04fb8eae43c01b0d10a0b1ac58c4f37019c92d51ff02596966c3423fbd1d2d394917dffe0b2b1727cedf43c48a5645ae39086c43e7e05865c8b62299472e4a5a25''"

definition hashGenesis_expected :: uint256 where
  "hashGenesis_expected = 0xf820cab6fa2bf7503f0302e7fe2b41c410117f865556de7273d76eaf399d9b48"

definition merkleRoot_expected :: uint256 where
  "merkleRoot_expected = 0xf618e18ca2ab3601ad49a9824e26a0c52b6b006f7d5dde016ea58abd519599d9"

subsection \<open>Per-network constants\<close>

text \<open>The message start bytes (lines 103--106, 183--186, 244--247).\<close>

definition pchMessageStart_main :: bytes where
  "pchMessageStart_main = [0xc1, 0xf4, 0xa7, 0xd6]"

definition pchMessageStart_testnet :: bytes where
  "pchMessageStart_testnet = [0xd4, 0xc3, 0x18, 0x5e]"

definition pchMessageStart_regtest :: bytes where
  "pchMessageStart_regtest = [0xad, 0xb7, 0x31, 0xdf]"

text \<open>The four DNS seeds of the main network (lines 138--141).\<close>

definition vSeeds_main :: "CDNSSeedData list" where
  "vSeeds_main =
     [\<lparr>dns_name = ''178.57.222.93'', dns_host = ''178.57.222.93''\<rparr>,
      \<lparr>dns_name = ''185.22.232.214'', dns_host = ''185.22.232.214''\<rparr>,
      \<lparr>dns_name = ''185.87.194.191'', dns_host = ''185.87.194.191''\<rparr>,
      \<lparr>dns_name = ''185.87.194.192'', dns_host = ''185.87.194.192''\<rparr>]"

text \<open>The five assignments to \<open>base58Prefixes\<close> (lines 144--148 and 207--211).\<close>

definition base58Prefixes_main :: "(Base58Type \<Rightarrow> bytes) \<Rightarrow> Base58Type \<Rightarrow> bytes" where
  "base58Prefixes_main f =
     f(PUBKEY_ADDRESS := [33], SCRIPT_ADDRESS := [118], SECRET_KEY := [117],
       EXT_PUBLIC_KEY := [0x04, 0x88, 0xB2, 0x1E], EXT_SECRET_KEY := [0x04, 0x88, 0xAD, 0xE4])"

definition base58Prefixes_testnet :: "(Base58Type \<Rightarrow> bytes) \<Rightarrow> Base58Type \<Rightarrow> bytes" where
  "base58Prefixes_testnet f =
     f(PUBKEY_ADDRESS := [111], SCRIPT_ADDRESS := [196], SECRET_KEY := [239],
       EXT_PUBLIC_KEY := [0x04, 0x35, 0x87, 0xCF], EXT_SECRET_KEY := [0x04, 0x35, 0x83, 0x94])"

text \<open>\<open>strDarksendPoolDummyAddress\<close> (lines 164 and 226).\<close>

definition dummy_address_main :: string where
  "dummy_address_main = ''Pq19GqFvajRrEdDHYRKGYjTsQfpV5jyipF''"

definition dummy_address_testnet :: string where
  "dummy_address_testnet = ''P1EZuxhhNMAUofTBEeLqGE1bJrpC2TWRNp''"

text \<open>The changes the derived constructors make to the inherited genesis block (lines 198--199, 257--259).\<close>

definition genesis_testnet :: "CBlock \<Rightarrow> CBlock" where
  "genesis_testnet g = g\<lparr>nTime := 1523209806, nNonce := 5717343\<rparr>"

definition genesis_regtest :: "CBlock \<Rightarrow> CBlock" where
  "genesis_regtest g = g\<lparr>nTime := 1523209806, nBits := 0x1e0ffff0, nNonce := 5717343\<rparr>"

text \<open>
  The policy flags each constructor sets (lines 152--159, 215--221, 268--274,
  294--298); a flag a constructor does not set keeps its inherited value.
\<close>

definition main_flags :: "CChainParams \<Rightarrow> CChainParams" where
  "main_flags p =
     p\<lparr>fRequireRPCPassword := True, fMiningRequiresPeers := True,
       fAllowMinDifficultyBlocks := False, fDefaultConsistencyChecks := False,
       fRequireStandard := True, fMineBlocksOnDemand := False,
       fSkipProofOfWorkCheck := False, fTestnetToBeDeprecatedFieldRPC := False\<rparr>"

definition testnet_flags :: "CChainParams \<Rightarrow> CChainParams" where
  "testnet_flags p =
     p\<lparr>fRequireRPCPassword := True, fMiningRequiresPeers := True,
       fAllowMinDifficultyBlocks := True, fDefaultConsistencyChecks := False,
       fRequireStandard := False, fMineBlocksOnDemand := False,
       fTestnetToBeDeprecatedFieldRPC := True\<rparr>"

definition regtest_flags :: "CChainParams \<Rightarrow> CChainParams" where
  "regtest_flags p =
     p\<lparr>fRequireRPCPassword := False, fMiningRequiresPeers := False,
       fAllowMinDifficultyBlocks := True, fDefaultConsistencyChecks := True,
       fRequireStandard := False, fMineBlocksOnDemand := True,
       fTestnetToBeDeprecatedFieldRPC := False\<rparr>"

definition unittest_flags :: "CChainParams \<Rightarrow> CChainParams" where
  "unittest_flags p =
     p\<lparr>fRequireRPCPassword := False, fMiningRequiresPeers := False,
       fDefaultConsistencyChecks := True, fAllowMinDifficultyBlocks := False,
       fMineBlocksOnDemand := True\<rparr>"

lemmas profile_consts [simp] =
  pchMessageStart_main_def pchMessageStart_testnet_def pchMessageStart_regtest_def vSeeds_main_def
  base58Prefixes_main_def base58Prefixes_testnet_def dummy_address_main_def dummy_address_testnet_def
  genesis_testnet_def genesis_regtest_def main_flags_def testnet_flags_def regtest_flags_def
  unittest_flags_def

subsection \<open>Constructor bodies\<close>

text \<open>\<open>CMainParams()\<close>, lines 95--166.\<close>

definition CMainParams_body ::
  "hash_impl \<Rightarrow> seed_env \<Rightarrow> SeedSpec6 list \<Rightarrow> CChainParams \<Rightarrow> nat \<Rightarrow> error + (CChainParams \<times> nat)" where
  "CMainParams_body H env pnSeed6_main p k =
     (let p1 = p\<lparr>networkID := MAIN, strNetworkID := ''main'',
                 pchMessageStart := pchMessageStart_main,
                 vAlertPubKey := ParseHex pubkey_hex_main,
                 nDefaultPort := 36003, bnProofOfWorkLimit := pow_limit 20,
                 nSubsidyHalvingInterval := 94000000, nEnforceBlockUpgradeMajority := 750,
                 nRejectBlockOutdatedMajority := 950, nToCheckBlockUpgradeMajority := 1000,
                 nMinerThreads := 0, nTargetTimespan := 10 * 60, nTargetSpacing := 1 * 60\<rparr>;
          g = build_genesis H (genesis p1);
          p2 = p1\<lparr>genesis := g, hashGenesisBlock := GetHash H g\<rparr>
      in if hashGenesisBlock p2 \<noteq> hashGenesis_expected then Inl (GenesisHashMismatch MAIN)
         else if hashMerkleRoot (genesis p2) \<noteq> merkleRoot_expected then Inl (MerkleRootMismatch MAIN)
         else
           (let p3 = p2\<lparr>vSeeds := vSeeds p2 @ vSeeds_main,
                        base58Prefixes := base58Prefixes_main (base58Prefixes p2)\<rparr>;
                (fixed, k') = convertSeed6 env (vFixedSeeds p3) pnSeed6_main k
            in Inr ((main_flags (p3\<lparr>vFixedSeeds := fixed\<rparr>))\<lparr>
                       nPoolMaxTransactions := 3, strSporkKey := spork_key_hex,
                       strMasternodePaymentsPubKey := spork_key_hex,
                       strDarksendPoolDummyAddress := dummy_address_main,
                       nStartMasternodePayments := 1403728576\<rparr>, k')))"

text \<open>\<open>CTestNetParams()\<close>, lines 180--228, run on what \<open>CMainParams()\<close> left.\<close>

definition CTestNetParams_body ::
  "hash_impl \<Rightarrow> seed_env \<Rightarrow> SeedSpec6 list \<Rightarrow> CChainParams \<Rightarrow> nat \<Rightarrow> error + (CChainParams \<times> nat)" where
  "CTestNetParams_body H env pnSeed6_test p k =
     (let p1 = p\<lparr>networkID := TESTNET, strNetworkID := ''test'',
                 pchMessageStart := pchMessageStart_testnet,
                 vAlertPubKey := ParseHex pubkey_hex_main,
                 nDefaultPort := 36005, nEnforceBlockUpgradeMajority := 51,
                 nRejectBlockOutdatedMajority := 75, nToCheckBlockUpgradeMajority := 100,
                 nMinerThreads := 0, nTargetTimespan := 10 * 60, nTargetSpacing := 2 * 60\<rparr>;
          g = genesis_testnet (genesis p1);
          p2 = p1\<lparr>genesis := g, hashGenesisBlock := GetHash H g\<rparr>
      in if hashGenesisBlock p2 \<noteq> hashGenesis_expected then Inl (GenesisHashMismatch TESTNET)
         else
           (let p3 = p2\<lparr>vFixedSeeds := [], vSeeds := [],
                        base58Prefixes := base58Prefixes_testnet (base58Prefixes p2)\<rparr>;
                (fixed, k') = convertSeed6 env (vFixedSeeds p3) pnSeed6_test k
            in Inr ((testnet_flags (p3\<lparr>vFixedSeeds := fixed\<rparr>))\<lparr>
                       nPoolMaxTransactions := 2, strSporkKey := spork_key_hex,
                       strMasternodePaymentsPubKey := spork_key_hex,
                       strDarksendPoolDummyAddress := dummy_address_testnet,
                       nStartMasternodePayments := 1532947832\<rparr>, k')))"

text \<open>\<open>CRegTestParams()\<close>, lines 241--274, run on what \<open>CTestNetParams()\<close> left.\<close>

definition CRegTestParams_body :: "hash_impl \<Rightarrow> CChainParams \<Rightarrow> error + CChainParams" where
  "CRegTestParams_body H p =
     (let p1 = p\<lparr>networkID := REGTEST, strNetworkID := ''regtest'',
                 pchMessageStart := pchMessageStart_regtest,
                 nSubsidyHalvingInterval := 150, nEnforceBlockUpgradeMajority := 750,
                 nRejectBlockOutdatedMajority := 950, nToCheckBlockUpgradeMajority := 1000,
                 nMinerThreads := 1, nTargetTimespan := 10 * 60, nTargetSpacing := 1 * 60,
                 bnProofOfWorkLimit := pow_limit 1\<rparr>;
          g = genesis_regtest (genesis p1);
          p2 = p1\<lparr>genesis := g, hashGenesisBlock := GetHash H g, nDefaultPort := 37106\<rparr>
      in if hashGenesisBlock p2 \<noteq> hashGenesis_expected then Inl (GenesisHashMismatch REGTEST)
         else Inr (regtest_flags (p2\<lparr>vFixedSeeds := [], vSeeds := []\<rparr>)))"

text \<open>\<open>CUnitTestParams()\<close>, lines 287--299, run on what \<open>CMainParams()\<close> left.\<close>

definition CUnitTestParams_body :: "CChainParams \<Rightarrow> CChainParams" where
  "CUnitTestParams_body p =
     unittest_flags (p\<lparr>networkID := UNITTEST, strNetworkID := ''unittest'', nDefaultPort := 18445,
                       vFixedSeeds := [], vSeeds := []\<rparr>)"

subsection \<open>The four static objects (lines 173, 234, 280, 316)\<close>

definition mainParams_ctor ::
  "hash_impl \<Rightarrow> seed_env \<Rightarrow> SeedSpec6 list \<Rightarrow> nat \<Rightarrow> error + (CChainParams \<times> nat)" where
  "mainParams_ctor H env sm k = CMainParams_body H env sm CChainParams_zero k"

definition testNetParams_ctor ::
  "hash_impl \<Rightarrow> seed_env \<Rightarrow> SeedSpec6 list \<Rightarrow> SeedSpec6 list \<Rightarrow> nat \<Rightarrow> error + (CChainParams \<times> nat)" where
  "testNetParams_ctor H env sm st k =
     (case CMainParams_body H env sm CChainParams_zero k of
        Inl e \<Rightarrow> Inl e
      | Inr (p, k1) \<Rightarrow> CTestNetParams_body H env st p k1)"

definition regTestParams_ctor ::
  "hash_impl \<Rightarrow> seed_env \<Rightarrow> SeedSpec6 list \<Rightarrow> SeedSpec6 list \<Rightarrow> nat \<Rightarrow> error + (CChainParams \<times> nat)" where
  "regTestParams_ctor H env sm st k =
     (case testNetParams_ctor H env sm st k of
        Inl e \<Rightarrow> Inl e
      | Inr (p, k1) \<Rightarrow> (case CRegTestParams_body H p of Inl e \<Rightarrow> Inl e | Inr p' \<Rightarrow> Inr (p', k1)))"

definition unitTestParams_ctor ::
  "hash_impl \<Rightarrow> seed_env \<Rightarrow> SeedSpec6 list \<Rightarrow> nat \<Rightarrow> error + (CChainParams \<times> nat)" where
  "unitTestParams_ctor H env sm k =
     (case CMainParams_body H env sm CChainParams_zero k of
        Inl e \<Rightarrow> Inl e
      | Inr (p, k1) \<Rightarrow> Inr (CUnitTestParams_body p, k1))"

subsection \<open>\<open>Checkpoints()\<close> and the unit-test setters\<close>

text \<open>
  The virtual \<open>Checkpoints()\<close> (lines 168--171, 229--232, 275--278, 301--305),
  dispatched on the class, which each constructor records in \<open>networkID\<close>.
\<close>

definition Checkpoints :: "CChainParams \<Rightarrow> CCheckpointData" where
  "Checkpoints p =
     (case networkID p of
        MAIN \<Rightarrow> data | TESTNET \<Rightarrow> dataTestnet | REGTEST \<Rightarrow> dataRegtest
      | UNITTEST \<Rightarrow> data | MAX_NETWORK_TYPES \<Rightarrow> data)"

text \<open>The published setters of \<open>CUnitTestParams\<close> (lines 308--314), one constructor each.\<close>

datatype ModifiableOp =
    setSubsidyHalvingInterval int
  | setEnforceBlockUpgradeMajority int
  | setRejectBlockOutdatedMajority int
  | setToCheckBlockUpgradeMajority int
  | setDefaultConsistencyChecks bool
  | setAllowMinDifficultyBlocks bool
  | setSkipProofOfWorkCheck bool

fun apply_setter :: "CChainParams \<Rightarrow> ModifiableOp \<Rightarrow> CChainParams" where
  "apply_setter p (setSubsidyHalvingInterval v) = p\<lparr>nSubsidyHalvingInterval := v\<rparr>"
| "apply_setter p (setEnforceBlockUpgradeMajority v) = p\<lparr>nEnforceBlockUpgradeMajority := v\<rparr>"
| "apply_setter p (setRejectBlockOutdatedMajority v) = p\<lparr>nRejectBlockOutdatedMajority := v\<rparr>"
| "apply_setter p (setToCheckBlockUpgradeMajority v) = p\<lparr>nToCheckBlockUpgradeMajority := v\<rparr>"
| "apply_setter p (setDefaultConsistencyChecks v) = p\<lparr>fDefaultConsistencyChecks := v\<rparr>"
| "apply_setter p (setAllowMinDifficultyBlocks v) = p\<lparr>fAllowMinDifficultyBlocks := v\<rparr>"
| "apply_setter p (setSkipProofOfWorkCheck v) = p\<lparr>fSkipProofOfWorkCheck := v\<rparr>"

subsection \<open>The genesis self-check\<close>

text \<open>The block every profile's constructor builds from the null \<open>CBlock\<close> member.\<close>

definition genesis_block :: "hash_impl \<Rightarrow> CBlock" where
  "genesis_block H = build_genesis H CBlock_default"

text \<open>The two assertions of lines 135--136 hold for the hash functions \<open>H\<close>.\<close>

definition genesis_ok :: "hash_impl \<Rightarrow> bool" where
  "genesis_ok H \<longleftrightarrow> GetHash H (genesis_block H) = hashGenesis_expected
                   \<and> hashMerkleRoot (genesis_block H) = merkleRoot_expected"

text \<open>A profile whose genesis fields agree with each other and with the declared constants.\<close>

definition genesis_consistent :: "hash_impl \<Rightarrow> CChainParams \<Rightarrow> bool" where
  "genesis_consistent H p \<longleftrightarrow>
     genesis p = genesis_block H \<and> hashGenesisBlock p = hashGenesis_expected
     \<and> GetHash H (genesis p) = hashGenesisBlock p \<and> hashMerkleRoot (genesis p) = merkleRoot_expected"

text \<open>Hash functions that answer the declared constants: the model's stand-in for X11 and SHA-256d.\<close>

definition declared_hashes :: hash_impl where
  "declared_hashes = \<lparr>HashHeader = (\<lambda>_. hashGenesis_expected), Hash = (\<lambda>_. merkleRoot_expected)\<rparr>"

definition zero_hashes :: hash_impl where
  "zero_hashes = \<lparr>HashHeader = (\<lambda>_. 0), Hash = (\<lambda>_. 0)\<rparr>"

text \<open>
  A well-formed profile: a four-byte message start, the 65-byte alert key, a
  port in range, a positive proof-of-work limit, the one-transaction genesis,
  and the five base58 prefixes non-empty, the extended-key ones four bytes.
\<close>

definition prefixes_wf :: "(Base58Type \<Rightarrow> bytes) \<Rightarrow> bool" where
  "prefixes_wf f \<longleftrightarrow>
     (\<forall>t. f t \<noteq> []) \<and> length (f EXT_PUBLIC_KEY) = 4 \<and> length (f EXT_SECRET_KEY) = 4"

definition wf_params :: "CChainParams \<Rightarrow> bool" where
  "wf_params p \<longleftrightarrow>
     networkID p \<noteq> MAX_NETWORK_TYPES \<and> length (pchMessageStart p) = 4
     \<and> length (vAlertPubKey p) = 65 \<and> 0 < nDefaultPort p \<and> nDefaultPort p < 65536
     \<and> 0 < bnProofOfWorkLimit p \<and> vtx (genesis p) = [txNew]
     \<and> prefixes_wf (base58Prefixes p)"

lemmas ctor_defs = mainParams_ctor_def testNetParams_ctor_def regTestParams_ctor_def unitTestParams_ctor_def

subsection \<open>Lemmas on the constructors\<close>

lemma build_genesis_retimed [simp]:
  "(build_genesis H g)\<lparr>nTime := 1523209806, nNonce := 5717343\<rparr> = build_genesis H g"
  "(build_genesis H g)\<lparr>nTime := 1523209806, nBits := 0x1e0ffff0, nNonce := 5717343\<rparr> = build_genesis H g"
  by (simp_all add: build_genesis_def Let_def)

lemma genesis_block_retimed [simp]:
  "(genesis_block H)\<lparr>nTime := 1523209806, nNonce := 5717343\<rparr> = genesis_block H"
  "(genesis_block H)\<lparr>nTime := 1523209806, nBits := 0x1e0ffff0, nNonce := 5717343\<rparr> = genesis_block H"
  by (simp_all add: genesis_block_def)

lemma CMainParams_body_Inr:
  "CMainParams_body H env sm p k = Inr (p', k') \<Longrightarrow>
   genesis p' = build_genesis H (genesis p) \<and> hashGenesisBlock p' = hashGenesis_expected
   \<and> GetHash H (genesis p') = hashGenesis_expected \<and> hashMerkleRoot (genesis p') = merkleRoot_expected"
  by (auto simp: CMainParams_body_def Let_def split: if_splits prod.splits)

lemma CMainParams_body_Inl:
  "CMainParams_body H env sm p k = Inl e \<longleftrightarrow>
     (GetHash H (build_genesis H (genesis p)) \<noteq> hashGenesis_expected \<and> e = GenesisHashMismatch MAIN)
   \<or> (GetHash H (build_genesis H (genesis p)) = hashGenesis_expected
      \<and> hashMerkleRoot (build_genesis H (genesis p)) \<noteq> merkleRoot_expected \<and> e = MerkleRootMismatch MAIN)"
  by (auto simp: CMainParams_body_def Let_def split: prod.splits)

lemma CMainParams_body_ok:
  "genesis_ok H \<Longrightarrow> \<exists>p' k'. CMainParams_body H env sm CChainParams_zero k = Inr (p', k')"
  by (auto simp: CMainParams_body_def Let_def genesis_ok_def genesis_block_def CChainParams_zero_def
           split: prod.splits)

lemma genesis_consistentI:
  "genesis p = genesis_block H \<Longrightarrow> hashGenesisBlock p = hashGenesis_expected \<Longrightarrow>
   GetHash H (genesis_block H) = hashGenesis_expected \<Longrightarrow>
   hashMerkleRoot (genesis_block H) = merkleRoot_expected \<Longrightarrow> genesis_consistent H p"
  by (simp add: genesis_consistent_def)

lemma genesis_consistentD:
  "genesis_consistent H p \<Longrightarrow>
   genesis p = genesis_block H \<and> hashGenesisBlock p = hashGenesis_expected
   \<and> GetHash H (genesis_block H) = hashGenesis_expected \<and> hashMerkleRoot (genesis_block H) = merkleRoot_expected"
  unfolding genesis_consistent_def by (elim conjE) simp

lemma main_ctor_consistent:
  "CMainParams_body H env sm CChainParams_zero k = Inr (p, k') \<Longrightarrow> genesis_consistent H p"
proof -
  assume "CMainParams_body H env sm CChainParams_zero k = Inr (p, k')"
  then have "genesis p = genesis_block H" "hashGenesisBlock p = hashGenesis_expected"
    "GetHash H (genesis p) = hashGenesis_expected" "hashMerkleRoot (genesis p) = merkleRoot_expected"
    by (auto dest!: CMainParams_body_Inr simp: genesis_block_def CChainParams_zero_def)
  then show ?thesis by (intro genesis_consistentI) simp_all
qed

lemma CTestNetParams_body_consistent:
  assumes "genesis_consistent H p"
  shows "\<exists>p' k'. CTestNetParams_body H env st p k = Inr (p', k') \<and> genesis_consistent H p'"
proof -
  from genesis_consistentD [OF assms] have g: "genesis p = genesis_block H"
    and gh: "GetHash H (genesis_block H) = hashGenesis_expected"
    and m: "hashMerkleRoot (genesis_block H) = merkleRoot_expected"
    by simp_all
  show ?thesis using g gh m
    by (auto simp: CTestNetParams_body_def Let_def genesis_consistent_def split: prod.splits)
qed

lemma CRegTestParams_body_consistent:
  assumes "genesis_consistent H p"
  shows "\<exists>p'. CRegTestParams_body H p = Inr p' \<and> genesis_consistent H p'"
proof -
  from genesis_consistentD [OF assms] have g: "genesis p = genesis_block H"
    and gh: "GetHash H (genesis_block H) = hashGenesis_expected"
    and m: "hashMerkleRoot (genesis_block H) = merkleRoot_expected"
    by simp_all
  show ?thesis using g gh m
    by (auto simp: CRegTestParams_body_def Let_def genesis_consistent_def)
qed

lemma CUnitTestParams_body_consistent:
  "genesis_consistent H p \<Longrightarrow> genesis_consistent H (CUnitTestParams_body p)"
  by (drule genesis_consistentD) (intro genesis_consistentI, simp_all add: CUnitTestParams_body_def)

lemma main_ctor_Inl:
  "CMainParams_body H env sm CChainParams_zero k = Inl e \<Longrightarrow>
   \<not> genesis_ok H \<and> (e = GenesisHashMismatch MAIN \<or> e = MerkleRootMismatch MAIN)"
  by (auto simp: CMainParams_body_Inl genesis_ok_def genesis_block_def CChainParams_zero_def)

lemma unat_pow_limit: "n \<le> 256 \<Longrightarrow> unat (pow_limit n) = 2 ^ (256 - n) - 1"
proof -
  assume n: "n \<le> 256"
  have "unat (pow_limit n) = drop_bit n (unat (NOT 0 :: uint256))"
    unfolding pow_limit_def by (rule unat_drop_bit_eq)
  also have "unat (NOT 0 :: uint256) = 2 ^ 256 - 1" by (simp add: unsigned_minus_1_eq_mask mask_eq_exp_minus_1)
  also have "drop_bit n (2 ^ 256 - 1 :: nat) = (2 ^ 256 - 1) div 2 ^ n" by (rule drop_bit_eq_div)
  also have "(2 ^ 256 - 1 :: nat) div 2 ^ n = 2 ^ (256 - n) - 1"
  proof -
    obtain a b where a: "(2::nat) ^ (256 - n) = Suc a" and b: "(2::nat) ^ n = Suc b"
      using not0_implies_Suc [of "(2::nat) ^ (256 - n)"] not0_implies_Suc [of "(2::nat) ^ n"] by auto
    have "(2 ^ 256 :: nat) = 2 ^ (256 - n) * 2 ^ n" using n by (simp add: power_add [symmetric])
    then have "(2 ^ 256 :: nat) = Suc a * Suc b" by (simp only: a b)
    then show ?thesis by (simp only: a b pred_mult_div)
  qed
  finally show ?thesis .
qed

lemma length_alert_key: "length (ParseHex pubkey_hex_main) = 65"
  by (simp add: pubkey_hex_main_def HexDigit_def isspace_def)

lemma pow_limit_pos: "n < 256 \<Longrightarrow> 0 < pow_limit n"
proof -
  assume "n < 256"
  then have "(1::nat) < 2 ^ (256 - n)" by (intro one_less_power) auto
  then have "0 < unat (pow_limit n)" using \<open>n < 256\<close> by (simp add: unat_pow_limit)
  then show ?thesis by (simp add: word_less_nat_alt)
qed

lemma vtx_build_genesis: "vtx (build_genesis H g) = vtx g @ [txNew]"
  by (simp add: build_genesis_def Let_def)

lemma all_Base58Type:
  "(\<forall>t. P t) \<longleftrightarrow> P PUBKEY_ADDRESS \<and> P SCRIPT_ADDRESS \<and> P SECRET_KEY \<and> P EXT_PUBLIC_KEY \<and> P EXT_SECRET_KEY"
proof -
  have "(\<forall>t. P t) \<longleftrightarrow> (\<forall>t \<in> UNIV. P t)" by simp
  then show ?thesis by (simp add: UNIV_Base58Type)
qed

lemma prefixes_wf_upd [simp]:
  "prefixes_wf (f(PUBKEY_ADDRESS := a, SCRIPT_ADDRESS := b, SECRET_KEY := c, EXT_PUBLIC_KEY := d,
                  EXT_SECRET_KEY := e))
   \<longleftrightarrow> a \<noteq> [] \<and> b \<noteq> [] \<and> c \<noteq> [] \<and> length d = 4 \<and> length e = 4"
proof -
  have "(\<forall>t. (f(PUBKEY_ADDRESS := a, SCRIPT_ADDRESS := b, SECRET_KEY := c, EXT_PUBLIC_KEY := d,
                  EXT_SECRET_KEY := e)) t \<noteq> [])
        \<longleftrightarrow> a \<noteq> [] \<and> b \<noteq> [] \<and> c \<noteq> [] \<and> d \<noteq> [] \<and> e \<noteq> []"
    by (simp add: all_Base58Type)
  then show ?thesis unfolding prefixes_wf_def by auto
qed

lemma main_body_wf:
  "CMainParams_body H env sm CChainParams_zero k = Inr (p, k') \<Longrightarrow> wf_params p"
  unfolding wf_params_def
  by (auto simp: CMainParams_body_def Let_def CChainParams_zero_def length_alert_key pow_limit_pos
                 vtx_build_genesis CBlock_default_def
           split: if_splits prod.splits)

lemma testnet_body_wf:
  "wf_params p \<Longrightarrow> CTestNetParams_body H env st p k = Inr (p', k') \<Longrightarrow> wf_params p'"
  unfolding wf_params_def
  by (auto simp: CTestNetParams_body_def Let_def length_alert_key split: if_splits prod.splits)

lemma regtest_body_wf: "wf_params p \<Longrightarrow> CRegTestParams_body H p = Inr p' \<Longrightarrow> wf_params p'"
  unfolding wf_params_def
  by (auto simp: CRegTestParams_body_def Let_def pow_limit_pos split: if_splits)

lemma unittest_body_wf: "wf_params p \<Longrightarrow> wf_params (CUnitTestParams_body p)"
  by (simp add: wf_params_def CUnitTestParams_body_def)

text \<open>After a sequence of setter calls, each field holds the value of the last call of its setter.\<close>

lemma foldl_apply_setter_fields:
  "nSubsidyHalvingInterval (foldl apply_setter p ops)
     = last (nSubsidyHalvingInterval p # [v. setSubsidyHalvingInterval v \<leftarrow> ops])
   \<and> nEnforceBlockUpgradeMajority (foldl apply_setter p ops)
     = last (nEnforceBlockUpgradeMajority p # [v. setEnforceBlockUpgradeMajority v \<leftarrow> ops])
   \<and> nRejectBlockOutdatedMajority (foldl apply_setter p ops)
     = last (nRejectBlockOutdatedMajority p # [v. setRejectBlockOutdatedMajority v \<leftarrow> ops])
   \<and> nToCheckBlockUpgradeMajority (foldl apply_setter p ops)
     = last (nToCheckBlockUpgradeMajority p # [v. setToCheckBlockUpgradeMajority v \<leftarrow> ops])
   \<and> fDefaultConsistencyChecks (foldl apply_setter p ops)
     = last (fDefaultConsistencyChecks p # [v. setDefaultConsistencyChecks v \<leftarrow> ops])
   \<and> fAllowMinDifficultyBlocks (foldl apply_setter p ops)
     = last (fAllowMinDifficultyBlocks p # [v. setAllowMinDifficultyBlocks v \<leftarrow> ops])
   \<and> fSkipProofOfWorkCheck (foldl apply_setter p ops)
     = last (fSkipProofOfWorkCheck p # [v. setSkipProofOfWorkCheck v \<leftarrow> ops])"
proof (induction ops arbitrary: p)
  case (Cons op ops)
  show ?case using Cons [of "apply_setter p op"] by (cases op) simp_all
qed simp

lemma apply_setter_wf [simp]: "wf_params (apply_setter p op) = wf_params p"
  by (cases op) (simp_all add: wf_params_def)

lemma length_ser_txNew: "length (ser_tx txNew) = 172"
  using length_alert_key
  by (simp add: ser_tx_def txNew_def ser_txin_def ser_txout_def ser_outpoint_def ser_script_def
      WriteCompactSize_def script_defs opcode_defs CScriptNum_serialize_def scriptnum_bytes.simps
      pszTimestamp_def CTxIn_default_def CTxOut_default_def CMutableTransaction_default_def)

lemma genesis_block_fields:
  "vtx (genesis_block H) = [txNew] \<and> nVersion (genesis_block H) = 1 \<and> hashPrevBlock (genesis_block H) = 0
   \<and> nTime (genesis_block H) = 1523209806 \<and> nBits (genesis_block H) = 0x1e0ffff0
   \<and> nNonce (genesis_block H) = 5717343"
  by (simp add: genesis_block_def build_genesis_def Let_def CBlock_default_def)

lemma main_body_prefixes:
  "CMainParams_body H env sm p k = Inr (p', k') \<Longrightarrow> base58Prefixes p' = base58Prefixes_main (base58Prefixes p)"
  by (auto simp del: base58Prefixes_main_def simp: CMainParams_body_def Let_def split: if_splits prod.splits)

lemma testnet_body_prefixes:
  "CTestNetParams_body H env st p k = Inr (p', k') \<Longrightarrow> base58Prefixes p' = base58Prefixes_testnet (base58Prefixes p)"
  by (auto simp del: base58Prefixes_testnet_def simp: CTestNetParams_body_def Let_def split: if_splits prod.splits)

lemma regtest_body_prefixes: "CRegTestParams_body H p = Inr p' \<Longrightarrow> base58Prefixes p' = base58Prefixes p"
  by (auto simp: CRegTestParams_body_def Let_def split: if_splits)

lemma unittest_body_prefixes: "base58Prefixes (CUnitTestParams_body p) = base58Prefixes p"
  by (simp add: CUnitTestParams_body_def)

text \<open>The fields each constructor leaves, read off its chain of bodies.\<close>

lemma mainParams_ctor_fields:
  "mainParams_ctor H env sm k = Inr (p, k') \<Longrightarrow>
   networkID p = MAIN \<and> pchMessageStart p = [0xc1, 0xf4, 0xa7, 0xd6] \<and> nDefaultPort p = 36003
   \<and> bnProofOfWorkLimit p = pow_limit 20 \<and> nSubsidyHalvingInterval p = 94000000
   \<and> nEnforceBlockUpgradeMajority p = 750 \<and> nRejectBlockOutdatedMajority p = 950
   \<and> nToCheckBlockUpgradeMajority p = 1000 \<and> nTargetSpacing p = 60
   \<and> fRequireRPCPassword p \<and> fMiningRequiresPeers p \<and> \<not> fAllowMinDifficultyBlocks p
   \<and> \<not> fDefaultConsistencyChecks p \<and> fRequireStandard p \<and> \<not> fMineBlocksOnDemand p
   \<and> \<not> fSkipProofOfWorkCheck p \<and> \<not> fTestnetToBeDeprecatedFieldRPC p
   \<and> length (vSeeds p) = 4 \<and> nPoolMaxTransactions p = 3
   \<and> strDarksendPoolDummyAddress p = dummy_address_main"
  by (auto simp: mainParams_ctor_def CMainParams_body_def Let_def CChainParams_zero_def
           split: if_splits prod.splits)

lemma testNetParams_ctor_fields:
  "testNetParams_ctor H env sm st k = Inr (p, k') \<Longrightarrow>
   networkID p = TESTNET \<and> pchMessageStart p = [0xd4, 0xc3, 0x18, 0x5e] \<and> nDefaultPort p = 36005
   \<and> bnProofOfWorkLimit p = pow_limit 20 \<and> nSubsidyHalvingInterval p = 94000000
   \<and> nEnforceBlockUpgradeMajority p = 51 \<and> nRejectBlockOutdatedMajority p = 75
   \<and> nToCheckBlockUpgradeMajority p = 100 \<and> nTargetSpacing p = 120
   \<and> fRequireRPCPassword p \<and> fMiningRequiresPeers p \<and> fAllowMinDifficultyBlocks p
   \<and> \<not> fDefaultConsistencyChecks p \<and> \<not> fRequireStandard p \<and> \<not> fMineBlocksOnDemand p
   \<and> \<not> fSkipProofOfWorkCheck p \<and> fTestnetToBeDeprecatedFieldRPC p
   \<and> vSeeds p = [] \<and> nPoolMaxTransactions p = 2
   \<and> strDarksendPoolDummyAddress p = dummy_address_testnet"
  by (auto simp: testNetParams_ctor_def CMainParams_body_def CTestNetParams_body_def Let_def
           split: if_splits prod.splits sum.splits)

lemma regTestParams_ctor_fields:
  "regTestParams_ctor H env sm st k = Inr (p, k') \<Longrightarrow>
   networkID p = REGTEST \<and> pchMessageStart p = [0xad, 0xb7, 0x31, 0xdf] \<and> nDefaultPort p = 37106
   \<and> bnProofOfWorkLimit p = pow_limit 1 \<and> nSubsidyHalvingInterval p = 150
   \<and> nEnforceBlockUpgradeMajority p = 750 \<and> nRejectBlockOutdatedMajority p = 950
   \<and> nToCheckBlockUpgradeMajority p = 1000 \<and> nTargetSpacing p = 60
   \<and> \<not> fRequireRPCPassword p \<and> \<not> fMiningRequiresPeers p \<and> fAllowMinDifficultyBlocks p
   \<and> fDefaultConsistencyChecks p \<and> \<not> fRequireStandard p \<and> fMineBlocksOnDemand p
   \<and> \<not> fSkipProofOfWorkCheck p \<and> \<not> fTestnetToBeDeprecatedFieldRPC p
   \<and> vSeeds p = [] \<and> vFixedSeeds p = [] \<and> nPoolMaxTransactions p = 2
   \<and> strDarksendPoolDummyAddress p = dummy_address_testnet"
  by (auto simp: regTestParams_ctor_def testNetParams_ctor_def CMainParams_body_def
                 CTestNetParams_body_def CRegTestParams_body_def Let_def
           split: if_splits prod.splits sum.splits)

lemma unitTestParams_ctor_fields:
  "unitTestParams_ctor H env sm k = Inr (p, k') \<Longrightarrow>
   networkID p = UNITTEST \<and> pchMessageStart p = [0xc1, 0xf4, 0xa7, 0xd6] \<and> nDefaultPort p = 18445
   \<and> bnProofOfWorkLimit p = pow_limit 20 \<and> nSubsidyHalvingInterval p = 94000000
   \<and> nEnforceBlockUpgradeMajority p = 750 \<and> nRejectBlockOutdatedMajority p = 950
   \<and> nToCheckBlockUpgradeMajority p = 1000 \<and> nTargetSpacing p = 60
   \<and> \<not> fRequireRPCPassword p \<and> \<not> fMiningRequiresPeers p \<and> \<not> fAllowMinDifficultyBlocks p
   \<and> fDefaultConsistencyChecks p \<and> fRequireStandard p \<and> fMineBlocksOnDemand p
   \<and> \<not> fSkipProofOfWorkCheck p \<and> \<not> fTestnetToBeDeprecatedFieldRPC p
   \<and> vSeeds p = [] \<and> vFixedSeeds p = [] \<and> nPoolMaxTransactions p = 3
   \<and> strDarksendPoolDummyAddress p = dummy_address_main"
  by (auto simp: unitTestParams_ctor_def CMainParams_body_def CUnitTestParams_body_def Let_def
                 CChainParams_zero_def split: if_splits prod.splits sum.splits)

text \<open>The fixed seeds each constructor leaves: the main list converted, then cleared and replaced on testnet.\<close>

lemma mainParams_ctor_seeds:
  "mainParams_ctor H env sm k = Inr (p, k') \<Longrightarrow> \<exists>k0. vFixedSeeds p = fst (convertSeed6 env [] sm k0)"
  by (auto simp: mainParams_ctor_def CMainParams_body_def Let_def CChainParams_zero_def
           split: if_splits prod.splits) (metis fst_conv)

lemma testNetParams_ctor_seeds:
  "testNetParams_ctor H env sm st k = Inr (p, k') \<Longrightarrow> \<exists>k0. vFixedSeeds p = fst (convertSeed6 env [] st k0)"
  by (auto simp: testNetParams_ctor_def CTestNetParams_body_def Let_def
           split: if_splits prod.splits sum.splits) (metis fst_conv)

subsection \<open>Properties of the constructors\<close>

text \<open>
  C9: the main constructor fails exactly when a genesis assertion fails: first the
  block-hash assertion (line 135), then the merkle-root assertion (line 136).
\<close>

theorem mainParams_ctor_fails:
  "mainParams_ctor H env sm k = Inl e \<longleftrightarrow>
     (GetHash H (genesis_block H) \<noteq> hashGenesis_expected \<and> e = GenesisHashMismatch MAIN)
   \<or> (GetHash H (genesis_block H) = hashGenesis_expected
      \<and> hashMerkleRoot (genesis_block H) \<noteq> merkleRoot_expected \<and> e = MerkleRootMismatch MAIN)"
  by (simp add: mainParams_ctor_def CMainParams_body_Inl genesis_block_def CChainParams_zero_def)

theorem mainParams_ctor_fails_witness:
  "mainParams_ctor zero_hashes seed_env_zero [] 0 = Inl (GenesisHashMismatch MAIN)"
  using mainParams_ctor_fails [of zero_hashes seed_env_zero "[]" 0 "GenesisHashMismatch MAIN"]
  by (simp add: zero_hashes_def GetHash_def hashGenesis_expected_def)

text \<open>
  C10: the genesis assertions of the testnet (line 201) and regression-test
  (line 262) constructors never fail: those constructors fail only with the main
  constructor's assertions, which their base-class constructor runs first.
\<close>

theorem derived_genesis_asserts_unreachable:
  "(testNetParams_ctor H env sm st k = Inl e \<longrightarrow> e = GenesisHashMismatch MAIN \<or> e = MerkleRootMismatch MAIN)
   \<and> (regTestParams_ctor H env sm st k = Inl e \<longrightarrow> e = GenesisHashMismatch MAIN \<or> e = MerkleRootMismatch MAIN)"
proof (cases "CMainParams_body H env sm CChainParams_zero k")
  case (Inl e')
  then show ?thesis using main_ctor_Inl [OF Inl] by (auto simp: testNetParams_ctor_def regTestParams_ctor_def)
next
  case (Inr r)
  obtain p k1 where r: "r = (p, k1)" by fastforce
  with Inr have c: "genesis_consistent H p" by (simp add: main_ctor_consistent)
  obtain p' k' where t: "CTestNetParams_body H env st p k1 = Inr (p', k')" and c': "genesis_consistent H p'"
    using CTestNetParams_body_consistent [OF c] by blast
  obtain p'' where "CRegTestParams_body H p' = Inr p''"
    using CRegTestParams_body_consistent [OF c'] by blast
  then show ?thesis using Inr r t by (simp add: testNetParams_ctor_def regTestParams_ctor_def)
qed

theorem derived_genesis_asserts_unreachable_witness:
  "\<exists>e. testNetParams_ctor zero_hashes \<lparr>GetTime_at = (\<lambda>_. 0), GetRand_at = (\<lambda>_ _. 0)\<rparr> [] [] 0 = Inl e
       \<and> (e = GenesisHashMismatch MAIN \<or> e = MerkleRootMismatch MAIN)"
proof -
  have "CMainParams_body zero_hashes \<lparr>GetTime_at = (\<lambda>_. 0), GetRand_at = (\<lambda>_ _. 0)\<rparr> [] CChainParams_zero 0
          = Inl (GenesisHashMismatch MAIN)"
    by (simp add: CMainParams_body_Inl zero_hashes_def GetHash_def hashGenesis_expected_def)
  then have t: "testNetParams_ctor zero_hashes \<lparr>GetTime_at = (\<lambda>_. 0), GetRand_at = (\<lambda>_ _. 0)\<rparr> [] [] 0 = Inl (GenesisHashMismatch MAIN)"
    by (simp add: testNetParams_ctor_def)
  have "GenesisHashMismatch MAIN = GenesisHashMismatch MAIN \<or> GenesisHashMismatch MAIN = MerkleRootMismatch MAIN"
    using derived_genesis_asserts_unreachable [of zero_hashes "\<lparr>GetTime_at = (\<lambda>_. 0), GetRand_at = (\<lambda>_ _. 0)\<rparr>" "[]" "[]" 0 "GenesisHashMismatch MAIN"] t
    by simp
  then show ?thesis using t by blast
qed

end
