(* ===== verification/Registry.thy ===== *)
theory Registry
  imports ChainParams
begin

text \<open>
  The process-wide selection of \<open>chainparams.cpp\<close> (lines 173--362).  The
  state \<open>Registry\<close> holds the four static profile objects and the two global
  pointers: \<open>pCurrentParams\<close> of this file and \<open>pCurrentBaseParams\<close> of
  \<open>chainparamsbase.cpp\<close>, which \<open>SelectParams\<close> sets first.  A pointer is the
  network of the static it designates, \<open>None\<close> for the null pointer, so the
  pointer comparison \<open>pCurrentParams == &unitTestParams\<close> is
  \<open>pCurrentParams = Some UNITTEST\<close>.  Every operation returns the new state or
  the error of the \<open>assert\<close> that stops the process.  The unit-test setters
  are reached through \<open>ModifiableParams()\<close>, so an override is one operation
  \<open>modify\<close>: the guard, then the setter.  The lemmas show what each operation
  does on every branch, that only the unit-test object ever changes and only in
  its seven published fields, and that the selection behaves as the two-state
  machine \<open>Uninitialized -> Active(kind)\<close> of the specification, that every
  reachable profile is well formed, and that every network can always be
  activated.
\<close>

record Registry =
  mainParams :: CChainParams
  testNetParams :: CChainParams
  regTestParams :: CChainParams
  unitTestParams :: CChainParams
  pCurrentParams :: "Network option"
  pCurrentBaseParams :: "Network option"

text \<open>Static initialization, in the order of definition in the file; the call counter runs through all four.\<close>

definition init_statics ::
  "hash_impl \<Rightarrow> seed_env \<Rightarrow> SeedSpec6 list \<Rightarrow> SeedSpec6 list \<Rightarrow> error + Registry" where
  "init_statics H env sm st =
     (case mainParams_ctor H env sm 0 of Inl e \<Rightarrow> Inl e | Inr (pm, k1) \<Rightarrow>
      (case testNetParams_ctor H env sm st k1 of Inl e \<Rightarrow> Inl e | Inr (pt, k2) \<Rightarrow>
       (case regTestParams_ctor H env sm st k2 of Inl e \<Rightarrow> Inl e | Inr (pr, k3) \<Rightarrow>
        (case unitTestParams_ctor H env sm k3 of Inl e \<Rightarrow> Inl e | Inr (pu, k4) \<Rightarrow>
         Inr \<lparr>mainParams = pm, testNetParams = pt, regTestParams = pr, unitTestParams = pu,
              pCurrentParams = None, pCurrentBaseParams = None\<rparr>))))"

text \<open>\<open>Params(network)\<close>, lines 333--347: the \<open>default\<close> branch asserts.\<close>

fun Params_net :: "Registry \<Rightarrow> Network \<Rightarrow> error + CChainParams" where
  "Params_net r MAIN = Inr (mainParams r)"
| "Params_net r TESTNET = Inr (testNetParams r)"
| "Params_net r REGTEST = Inr (regTestParams r)"
| "Params_net r UNITTEST = Inr (unitTestParams r)"
| "Params_net r MAX_NETWORK_TYPES = Inl UnimplementedNetwork"

text \<open>\<open>Params()\<close>, lines 328--331.\<close>

definition Params :: "Registry \<Rightarrow> error + CChainParams" where
  "Params r = (case pCurrentParams r of None \<Rightarrow> Inl NoCurrentParams | Some n \<Rightarrow> Params_net r n)"

text \<open>\<open>SelectBaseParams\<close> of \<open>chainparamsbase.cpp\<close>: the same switch over the base profiles.\<close>

definition SelectBaseParams :: "Registry \<Rightarrow> Network \<Rightarrow> error + Registry" where
  "SelectBaseParams r n =
     (if n = MAX_NETWORK_TYPES then Inl UnimplementedNetwork else Inr (r\<lparr>pCurrentBaseParams := Some n\<rparr>))"

text \<open>\<open>SelectParams\<close>, lines 349--352.\<close>

definition SelectParams :: "Registry \<Rightarrow> Network \<Rightarrow> error + Registry" where
  "SelectParams r n =
     (case SelectBaseParams r n of Inl e \<Rightarrow> Inl e | Inr r1 \<Rightarrow>
      (case Params_net r1 n of Inl e \<Rightarrow> Inl e | Inr _ \<Rightarrow> Inr (r1\<lparr>pCurrentParams := Some n\<rparr>)))"

text \<open>\<open>SelectParamsFromCommandLine\<close>, lines 354--362; the flag parsing is its argument.\<close>

definition SelectParamsFromCommandLine :: "Registry \<Rightarrow> Network \<Rightarrow> error + (bool \<times> Registry)" where
  "SelectParamsFromCommandLine r network =
     (if network = MAX_NETWORK_TYPES then Inr (False, r)
      else (case SelectParams r network of Inl e \<Rightarrow> Inl e | Inr r' \<Rightarrow> Inr (True, r')))"

text \<open>\<open>ModifiableParams()\<close>, lines 321--326: the two assertions, then the unit-test object.\<close>

definition ModifiableParams :: "Registry \<Rightarrow> error + CChainParams" where
  "ModifiableParams r =
     (case pCurrentParams r of
        None \<Rightarrow> Inl NoCurrentParams
      | Some n \<Rightarrow> if n = UNITTEST then Inr (unitTestParams r) else Inl NotUnitTestParams)"

text \<open>\<open>ModifiableParams()->setX(v)\<close>: the setter runs on \<open>unitTestParams\<close>.\<close>

definition modify :: "Registry \<Rightarrow> ModifiableOp \<Rightarrow> error + Registry" where
  "modify r op =
     (case ModifiableParams r of
        Inl e \<Rightarrow> Inl e
      | Inr _ \<Rightarrow> Inr (r\<lparr>unitTestParams := apply_setter (unitTestParams r) op\<rparr>))"

subsection \<open>Runs of the registry\<close>

datatype RegOp = Select Network | SelectFromCommandLine Network | Modify ModifiableOp | Read

fun reg_step :: "Registry \<Rightarrow> RegOp \<Rightarrow> error + Registry" where
  "reg_step r (Select n) = SelectParams r n"
| "reg_step r (SelectFromCommandLine n) =
     (case SelectParamsFromCommandLine r n of Inl e \<Rightarrow> Inl e | Inr (_, r') \<Rightarrow> Inr r')"
| "reg_step r (Modify op) = modify r op"
| "reg_step r Read = (case Params r of Inl e \<Rightarrow> Inl e | Inr _ \<Rightarrow> Inr r)"

text \<open>A run stops at the first failed assertion, as the process does.\<close>

fun reg_run :: "Registry \<Rightarrow> RegOp list \<Rightarrow> error + Registry" where
  "reg_run r [] = Inr r"
| "reg_run r (op # ops) = (case reg_step r op of Inl e \<Rightarrow> Inl e | Inr r' \<Rightarrow> reg_run r' ops)"

inductive reachable :: "hash_impl \<Rightarrow> seed_env \<Rightarrow> SeedSpec6 list \<Rightarrow> SeedSpec6 list \<Rightarrow> Registry \<Rightarrow> bool"
  for H env sm st where
  init: "init_statics H env sm st = Inr r \<Longrightarrow> reachable H env sm st r"
| step: "reachable H env sm st r \<Longrightarrow> reg_step r op = Inr r' \<Longrightarrow> reachable H env sm st r'"

text \<open>The fields the published setters may change are blanked; the rest is the frozen part.\<close>

definition frozen_part :: "CChainParams \<Rightarrow> CChainParams" where
  "frozen_part p =
     p\<lparr>nSubsidyHalvingInterval := 0, nEnforceBlockUpgradeMajority := 0,
       nRejectBlockOutdatedMajority := 0, nToCheckBlockUpgradeMajority := 0,
       fDefaultConsistencyChecks := False, fAllowMinDifficultyBlocks := False,
       fSkipProofOfWorkCheck := False\<rparr>"

text \<open>A property of each of the four static profiles.\<close>

abbreviation statics_all :: "(CChainParams \<Rightarrow> bool) \<Rightarrow> Registry \<Rightarrow> bool" where
  "statics_all P r \<equiv> P (mainParams r) \<and> P (testNetParams r) \<and> P (regTestParams r) \<and> P (unitTestParams r)"

text \<open>The specification's state machine: no network, or the active one.\<close>

fun abs_step :: "Network option \<Rightarrow> RegOp \<Rightarrow> Network option" where
  "abs_step a (Select n) = Some n"
| "abs_step a (SelectFromCommandLine n) = (if n = MAX_NETWORK_TYPES then a else Some n)"
| "abs_step a (Modify op) = a"
| "abs_step a Read = a"

text \<open>A registry with every object zero-initialized and the main network selected.\<close>

definition reg_example :: Registry where
  "reg_example =
     \<lparr>mainParams = CChainParams_zero, testNetParams = CChainParams_zero, regTestParams = CChainParams_zero,
      unitTestParams = CChainParams_zero, pCurrentParams = Some MAIN, pCurrentBaseParams = Some MAIN\<rparr>"

subsection \<open>Lemmas\<close>

lemma frozen_part_apply_setter [simp]: "frozen_part (apply_setter p op) = frozen_part p"
  by (cases op) (simp_all add: frozen_part_def)

lemma genesis_consistent_apply_setter [simp]:
  "genesis_consistent H (apply_setter p op) = genesis_consistent H p"
  by (cases op) (simp_all add: genesis_consistent_def)

lemma networkID_apply_setter [simp]: "networkID (apply_setter p op) = networkID p"
  by (cases op) simp_all

lemma SelectParams_eq:
  "SelectParams r n =
     (if n = MAX_NETWORK_TYPES then Inl UnimplementedNetwork
      else Inr (r\<lparr>pCurrentBaseParams := Some n, pCurrentParams := Some n\<rparr>))"
  by (cases n) (simp_all add: SelectParams_def SelectBaseParams_def)

lemma modify_eq:
  "modify r op =
     (case pCurrentParams r of
        None \<Rightarrow> Inl NoCurrentParams
      | Some n \<Rightarrow> if n = UNITTEST then Inr (r\<lparr>unitTestParams := apply_setter (unitTestParams r) op\<rparr>)
                  else Inl NotUnitTestParams)"
  by (simp add: modify_def ModifiableParams_def split: option.splits)

lemma reg_step_cases:
  "reg_step r op = Inr r' \<Longrightarrow>
     (\<exists>n. n \<noteq> MAX_NETWORK_TYPES \<and> r' = r\<lparr>pCurrentBaseParams := Some n, pCurrentParams := Some n\<rparr>
          \<and> (op = Select n \<or> op = SelectFromCommandLine n))
   \<or> (\<exists>o'. op = Modify o' \<and> pCurrentParams r = Some UNITTEST
          \<and> r' = r\<lparr>unitTestParams := apply_setter (unitTestParams r) o'\<rparr>)
   \<or> (r' = r \<and> (op = Read \<or> op = SelectFromCommandLine MAX_NETWORK_TYPES))"
  by (cases op)
     (auto simp: SelectParams_eq SelectParamsFromCommandLine_def modify_eq
           split: if_splits option.splits sum.splits prod.splits)

text \<open>A run of setter calls under the unit-test network: each succeeds, and they compose.\<close>

lemma modify_run:
  "pCurrentParams r = Some UNITTEST \<Longrightarrow>
   \<exists>r'. reg_run r (map Modify ops) = Inr r' \<and> unitTestParams r' = foldl apply_setter (unitTestParams r) ops
      \<and> pCurrentParams r' = Some UNITTEST"
proof (induction ops arbitrary: r)
  case (Cons op ops)
  show ?case
    using Cons.IH [of "r\<lparr>unitTestParams := apply_setter (unitTestParams r) op\<rparr>"] Cons.prems
    by (simp add: modify_eq)
qed simp

lemma reg_step_frame:
  "reg_step r op = Inr r' \<Longrightarrow>
     mainParams r' = mainParams r \<and> testNetParams r' = testNetParams r \<and> regTestParams r' = regTestParams r
   \<and> frozen_part (unitTestParams r') = frozen_part (unitTestParams r)
   \<and> genesis_consistent H (unitTestParams r') = genesis_consistent H (unitTestParams r)"
  by (drule reg_step_cases) auto

lemma init_statics_Inr:
  "init_statics H env sm st = Inr r \<Longrightarrow>
   \<exists>k1 k2 k3 k4. mainParams_ctor H env sm 0 = Inr (mainParams r, k1)
     \<and> testNetParams_ctor H env sm st k1 = Inr (testNetParams r, k2)
     \<and> regTestParams_ctor H env sm st k2 = Inr (regTestParams r, k3)
     \<and> unitTestParams_ctor H env sm k3 = Inr (unitTestParams r, k4)
     \<and> pCurrentParams r = None \<and> pCurrentBaseParams r = None"
  by (auto simp: init_statics_def split: sum.splits prod.splits)

lemma init_statics_bodies:
  assumes "init_statics H env sm st = Inr r"
  shows "(\<exists>k. CMainParams_body H env sm CChainParams_zero 0 = Inr (mainParams r, k))
   \<and> (\<exists>p k k'. CMainParams_body H env sm CChainParams_zero k = Inr (p, k')
        \<and> (\<exists>k''. CTestNetParams_body H env st p k' = Inr (testNetParams r, k'')))
   \<and> (\<exists>p k k' pt k''. CMainParams_body H env sm CChainParams_zero k = Inr (p, k')
        \<and> CTestNetParams_body H env st p k' = Inr (pt, k'') \<and> CRegTestParams_body H pt = Inr (regTestParams r))
   \<and> (\<exists>p k k'. CMainParams_body H env sm CChainParams_zero k = Inr (p, k')
        \<and> unitTestParams r = CUnitTestParams_body p)"
proof -
  obtain k1 k2 k3 k4 where
    m: "mainParams_ctor H env sm 0 = Inr (mainParams r, k1)" and
    t: "testNetParams_ctor H env sm st k1 = Inr (testNetParams r, k2)" and
    g: "regTestParams_ctor H env sm st k2 = Inr (regTestParams r, k3)" and
    u: "unitTestParams_ctor H env sm k3 = Inr (unitTestParams r, k4)"
    using init_statics_Inr [OF assms] by blast
  show ?thesis using m t g u
    by (auto simp: ctor_defs split: sum.splits prod.splits) (metis sym)+
qed

lemma genesis_consistent_ok: "genesis_consistent H p \<Longrightarrow> genesis_ok H"
  by (drule genesis_consistentD) (simp add: genesis_ok_def)

lemma genesis_ok_declared: "genesis_ok declared_hashes"
  by (simp add: genesis_ok_def declared_hashes_def GetHash_def genesis_block_def build_genesis_def
                BuildMerkleTree_def CBlock_default_def GetHash_tx_def merkle_levels.simps)

lemma ctors_ok:
  assumes "genesis_ok H"
  shows "\<exists>pm k1. mainParams_ctor H env sm k = Inr (pm, k1) \<and> genesis_consistent H pm
           \<and> (\<exists>pt k2. testNetParams_ctor H env sm st k = Inr (pt, k2) \<and> genesis_consistent H pt
           \<and> (\<exists>pr. regTestParams_ctor H env sm st k = Inr (pr, k2) \<and> genesis_consistent H pr))
           \<and> (\<exists>pu. unitTestParams_ctor H env sm k = Inr (pu, k1) \<and> genesis_consistent H pu)"
proof -
  obtain pm k1 where m: "CMainParams_body H env sm CChainParams_zero k = Inr (pm, k1)"
    using CMainParams_body_ok [OF assms] by blast
  then have cm: "genesis_consistent H pm" by (rule main_ctor_consistent)
  obtain pt k2 where t: "CTestNetParams_body H env st pm k1 = Inr (pt, k2)" and ct: "genesis_consistent H pt"
    using CTestNetParams_body_consistent [OF cm] by blast
  obtain pr where r: "CRegTestParams_body H pt = Inr pr" and cr: "genesis_consistent H pr"
    using CRegTestParams_body_consistent [OF ct] by blast
  show ?thesis using m t r cm ct cr CUnitTestParams_body_consistent [OF cm]
    by (simp add: ctor_defs)
qed

lemma init_statics_ok:
  "genesis_ok H \<Longrightarrow> \<exists>r. init_statics H env sm st = Inr r"
proof -
  assume g: "genesis_ok H"
  obtain pm k1 where m: "mainParams_ctor H env sm 0 = Inr (pm, k1)" using ctors_ok [OF g] by blast
  obtain pt k2 where t: "testNetParams_ctor H env sm st k1 = Inr (pt, k2)" using ctors_ok [OF g] by blast
  obtain pr k3 where r: "regTestParams_ctor H env sm st k2 = Inr (pr, k3)" using ctors_ok [OF g] by blast
  obtain pu k4 where u: "unitTestParams_ctor H env sm k3 = Inr (pu, k4)" using ctors_ok [OF g] by blast
  show ?thesis using m t r u by (simp add: init_statics_def)
qed

lemma init_statics_consistent:
  "init_statics H env sm st = Inr r \<Longrightarrow>
   genesis_consistent H (mainParams r) \<and> genesis_consistent H (testNetParams r)
   \<and> genesis_consistent H (regTestParams r) \<and> genesis_consistent H (unitTestParams r)"
proof -
  assume i: "init_statics H env sm st = Inr r"
  then obtain k1 k2 k3 k4 where
    m: "mainParams_ctor H env sm 0 = Inr (mainParams r, k1)" and
    t: "testNetParams_ctor H env sm st k1 = Inr (testNetParams r, k2)" and
    g: "regTestParams_ctor H env sm st k2 = Inr (regTestParams r, k3)" and
    u: "unitTestParams_ctor H env sm k3 = Inr (unitTestParams r, k4)"
    using init_statics_Inr by blast
  have "genesis_consistent H (mainParams r)" using m by (simp add: mainParams_ctor_def main_ctor_consistent)
  then have ok: "genesis_ok H" by (rule genesis_consistent_ok)
  show ?thesis using ctors_ok [OF ok, of env sm 0 st] ctors_ok [OF ok, of env sm k1 st]
      ctors_ok [OF ok, of env sm k2 st] ctors_ok [OF ok, of env sm k3 st] m t g u
    by auto
qed

lemma reachable_run:
  "reachable H env sm st r \<Longrightarrow> reg_run r ops = Inr r' \<Longrightarrow> reachable H env sm st r'"
proof (induction ops arbitrary: r)
  case Nil
  then show ?case by simp
next
  case (Cons op ops)
  then obtain r1 where s: "reg_step r op = Inr r1" and "reg_run r1 ops = Inr r'"
    by (auto split: sum.splits)
  then show ?case using Cons.prems(1) Cons.IH reachable.step by blast
qed

lemma init_declared: "\<exists>r. init_statics declared_hashes seed_env_zero [] [] = Inr r"
  using genesis_ok_declared by (rule init_statics_ok)

lemma reg_step_abs: "reg_step r op = Inr r' \<Longrightarrow> pCurrentParams r' = abs_step (pCurrentParams r) op"
  by (drule reg_step_cases) auto

lemma reachable_from_init:
  "reachable H env sm st r \<Longrightarrow>
   \<exists>r0. init_statics H env sm st = Inr r0 \<and> mainParams r = mainParams r0 \<and> testNetParams r = testNetParams r0
      \<and> regTestParams r = regTestParams r0 \<and> frozen_part (unitTestParams r) = frozen_part (unitTestParams r0)"
proof (induction rule: reachable.induct)
  case (init r)
  then show ?case by blast
next
  case (step r op r')
  then show ?case using reg_step_frame [OF step.hyps(2), of H] by simp
qed

lemma frozen_part_fields:
  "frozen_part p = frozen_part q \<Longrightarrow>
   networkID p = networkID q \<and> pchMessageStart p = pchMessageStart q \<and> nDefaultPort p = nDefaultPort q
   \<and> bnProofOfWorkLimit p = bnProofOfWorkLimit q \<and> hashGenesisBlock p = hashGenesisBlock q
   \<and> strDarksendPoolDummyAddress p = strDarksendPoolDummyAddress q
   \<and> vFixedSeeds p = vFixedSeeds q \<and> vSeeds p = vSeeds q"
proof -
  assume e: "frozen_part p = frozen_part q"
  have s: "networkID (frozen_part x) = networkID x" "pchMessageStart (frozen_part x) = pchMessageStart x"
    "nDefaultPort (frozen_part x) = nDefaultPort x" "bnProofOfWorkLimit (frozen_part x) = bnProofOfWorkLimit x"
    "hashGenesisBlock (frozen_part x) = hashGenesisBlock x"
    "strDarksendPoolDummyAddress (frozen_part x) = strDarksendPoolDummyAddress x"
    "vFixedSeeds (frozen_part x) = vFixedSeeds x" "vSeeds (frozen_part x) = vSeeds x" for x
    by (simp_all add: frozen_part_def)
  show ?thesis using s [of p] s [of q] e by metis
qed

lemma frozen_part_prefixes: "frozen_part p = frozen_part q \<Longrightarrow> base58Prefixes p = base58Prefixes q"
proof -
  assume "frozen_part p = frozen_part q"
  then have "base58Prefixes (frozen_part p) = base58Prefixes (frozen_part q)" by simp
  then show ?thesis by (simp add: frozen_part_def)
qed

lemma reachable_profile:
  assumes "reachable H env sm st r" and "Params_net r n = Inr p"
  shows "networkID p = n
     \<and> pchMessageStart p = (case n of TESTNET \<Rightarrow> [0xd4, 0xc3, 0x18, 0x5e] | REGTEST \<Rightarrow> [0xad, 0xb7, 0x31, 0xdf]
                              | _ \<Rightarrow> [0xc1, 0xf4, 0xa7, 0xd6])
     \<and> nDefaultPort p = (case n of MAIN \<Rightarrow> 36003 | TESTNET \<Rightarrow> 36005 | REGTEST \<Rightarrow> 37106 | _ \<Rightarrow> 18445)
     \<and> bnProofOfWorkLimit p = (if n = REGTEST then pow_limit 1 else pow_limit 20)"
proof -
  obtain r0 where i: "init_statics H env sm st = Inr r0" and f: "mainParams r = mainParams r0"
    "testNetParams r = testNetParams r0" "regTestParams r = regTestParams r0"
    "frozen_part (unitTestParams r) = frozen_part (unitTestParams r0)"
    using reachable_from_init [OF assms(1)] by blast
  obtain k1 k2 k3 k4 where
    m: "mainParams_ctor H env sm 0 = Inr (mainParams r0, k1)" and
    t: "testNetParams_ctor H env sm st k1 = Inr (testNetParams r0, k2)" and
    g: "regTestParams_ctor H env sm st k2 = Inr (regTestParams r0, k3)" and
    u: "unitTestParams_ctor H env sm k3 = Inr (unitTestParams r0, k4)"
    using init_statics_Inr [OF i] by blast
  note fields = mainParams_ctor_fields [OF m] testNetParams_ctor_fields [OF t]
    regTestParams_ctor_fields [OF g] unitTestParams_ctor_fields [OF u] frozen_part_fields [OF f(4)]
  show ?thesis using assms(2) f fields by (cases n) auto
qed

text \<open>The address data of the active profile: its base58 prefixes and its dummy pool address.\<close>

lemma reachable_address_fields:
  assumes "reachable H env sm st r" and "Params_net r n = Inr p"
  shows "base58Prefixes p = (if n = TESTNET \<or> n = REGTEST then base58Prefixes_testnet (\<lambda>_. [])
                             else base58Prefixes_main (\<lambda>_. []))
     \<and> strDarksendPoolDummyAddress p = (if n = TESTNET \<or> n = REGTEST then dummy_address_testnet
                                        else dummy_address_main)"
proof -
  obtain r0 where i: "init_statics H env sm st = Inr r0" and f: "mainParams r = mainParams r0"
    "testNetParams r = testNetParams r0" "regTestParams r = regTestParams r0"
    "frozen_part (unitTestParams r) = frozen_part (unitTestParams r0)"
    using reachable_from_init [OF assms(1)] by blast
  obtain k1 k2 k3 k4 where
    m: "mainParams_ctor H env sm 0 = Inr (mainParams r0, k1)" and
    t: "testNetParams_ctor H env sm st k1 = Inr (testNetParams r0, k2)" and
    g: "regTestParams_ctor H env sm st k2 = Inr (regTestParams r0, k3)" and
    u: "unitTestParams_ctor H env sm k3 = Inr (unitTestParams r0, k4)"
    using init_statics_Inr [OF i] by blast
  note fields = mainParams_ctor_fields [OF m] testNetParams_ctor_fields [OF t]
    regTestParams_ctor_fields [OF g] unitTestParams_ctor_fields [OF u] frozen_part_fields [OF f(4)]
  have "base58Prefixes (mainParams r) = base58Prefixes_main (\<lambda>_. [])"
    and "base58Prefixes (unitTestParams r) = base58Prefixes (mainParams r)"
    and "base58Prefixes (testNetParams r) = base58Prefixes_testnet (\<lambda>_. [])"
    and "base58Prefixes (regTestParams r) = base58Prefixes (testNetParams r)"
    using init_statics_bodies [OF i] f frozen_part_prefixes [OF f(4)]
    by (auto dest!: main_body_prefixes testnet_body_prefixes regtest_body_prefixes
             simp: unittest_body_prefixes CChainParams_zero_def split: Base58Type.split intro!: ext)
  then show ?thesis using assms(2) f fields by (cases n) auto
qed

text \<open>
  The induction every invariant of the profiles shares: what holds of the four
  objects after initialization and survives the unit-test setters holds in
  every reachable state.
\<close>

lemma reachable_statics_inv:
  assumes "reachable H env sm st r"
    and "\<And>r0. init_statics H env sm st = Inr r0 \<Longrightarrow> statics_all P r0"
    and "\<And>p op. P p \<Longrightarrow> P (apply_setter p op)"
  shows "statics_all P r"
  using assms(1)
proof (induction rule: reachable.induct)
  case (init r)
  then show ?case by (rule assms(2))
next
  case (step r op r')
  then show ?case using assms(3) by (auto dest!: reg_step_cases)
qed

lemma statics_all_Params_net: "statics_all P r \<Longrightarrow> Params_net r n = Inr p \<Longrightarrow> P p"
  by (cases n) auto

lemma reachable_consistent:
  "reachable H env sm st r \<Longrightarrow> statics_all (genesis_consistent H) r"
  by (erule reachable_statics_inv) (simp_all add: init_statics_consistent)

lemma init_statics_wf:
  assumes "init_statics H env sm st = Inr r"
  shows "statics_all wf_params r"
  using init_statics_bodies [OF assms]
  by (metis main_body_wf testnet_body_wf regtest_body_wf unittest_body_wf)

subsection \<open>Properties\<close>

text \<open>
  C1: static initialization of the four profile objects succeeds exactly when
  the hash functions reproduce the declared genesis hash and merkle root
  (the asserts of lines 135--136); otherwise the process stops at the first
  of them.
\<close>

theorem init_statics_succeeds: "(\<exists>r. init_statics H env sm st = Inr r) \<longleftrightarrow> genesis_ok H"
proof
  assume "\<exists>r. init_statics H env sm st = Inr r"
  then obtain r where "init_statics H env sm st = Inr r" by blast
  then have "genesis_consistent H (mainParams r)" using init_statics_consistent by blast
  then show "genesis_ok H" by (rule genesis_consistent_ok)
next
  assume "genesis_ok H"
  then show "\<exists>r. init_statics H env sm st = Inr r" by (rule init_statics_ok)
qed

text \<open>
  C3: after initialization, every run of selections, reads and unit-test
  overrides leaves the main, testnet and regtest objects unchanged, and changes
  the unit-test object only in the seven fields its setters publish.
\<close>

theorem statics_frozen:
  assumes "reachable H env sm st r" and "init_statics H env sm st = Inr r0"
  shows "mainParams r = mainParams r0 \<and> testNetParams r = testNetParams r0
         \<and> regTestParams r = regTestParams r0 \<and> frozen_part (unitTestParams r) = frozen_part (unitTestParams r0)"
  using assms(1)
proof (induction rule: reachable.induct)
  case (init r)
  then show ?case using assms(2) by simp
next
  case (step r op r')
  then show ?case using reg_step_frame [OF step.hyps(2)] by simp
qed

theorem statics_frozen_witness:
  "\<exists>r0 r. init_statics declared_hashes seed_env_zero [] [] = Inr r0
     \<and> reg_run r0 [Select UNITTEST, Modify (setSubsidyHalvingInterval 150)] = Inr r
     \<and> mainParams r = mainParams r0 \<and> testNetParams r = testNetParams r0
     \<and> regTestParams r = regTestParams r0 \<and> frozen_part (unitTestParams r) = frozen_part (unitTestParams r0)"
proof -
  obtain r0 where i: "init_statics declared_hashes seed_env_zero [] [] = Inr r0" using init_declared by blast
  have "pCurrentParams r0 = None" using init_statics_Inr [OF i] by blast
  then have run: "reg_run r0 [Select UNITTEST, Modify (setSubsidyHalvingInterval 150)] =
      Inr (r0\<lparr>pCurrentBaseParams := Some UNITTEST, pCurrentParams := Some UNITTEST,
              unitTestParams := (unitTestParams r0)\<lparr>nSubsidyHalvingInterval := 150\<rparr>\<rparr>)"
    by (simp add: SelectParams_eq modify_eq)
  have "reachable declared_hashes seed_env_zero [] []
      (r0\<lparr>pCurrentBaseParams := Some UNITTEST, pCurrentParams := Some UNITTEST,
              unitTestParams := (unitTestParams r0)\<lparr>nSubsidyHalvingInterval := 150\<rparr>\<rparr>)"
    using reachable_run [OF reachable.init [OF i] run] .
  then show ?thesis using statics_frozen [OF _ i] i run by blast
qed

text \<open>
  C2: in every reachable state, the profile that \<open>Params(n)\<close> returns carries
  the genesis block built by lines 119--132, its hash is the declared one and
  is the hash of that block, and its merkle root is the declared one.
\<close>

theorem reachable_genesis_consistent:
  assumes "reachable H env sm st r" and "Params_net r n = Inr p"
  shows "GetHash H (genesis p) = hashGenesisBlock p \<and> hashGenesisBlock p = hashGenesis_expected
         \<and> hashMerkleRoot (genesis p) = merkleRoot_expected \<and> genesis p = genesis_block H"
proof -
  have "genesis_consistent H p"
    using statics_all_Params_net [OF reachable_consistent [OF assms(1)] assms(2)] .
  then show ?thesis unfolding genesis_consistent_def by blast
qed

theorem reachable_genesis_consistent_witness:
  "\<exists>r p. reachable declared_hashes seed_env_zero [] [] r \<and> Params_net r TESTNET = Inr p
     \<and> GetHash declared_hashes (genesis p) = hashGenesisBlock p \<and> hashGenesisBlock p = hashGenesis_expected
     \<and> hashMerkleRoot (genesis p) = merkleRoot_expected \<and> genesis p = genesis_block declared_hashes"
proof -
  obtain r0 where i: "init_statics declared_hashes seed_env_zero [] [] = Inr r0" using init_declared by blast
  have r: "reachable declared_hashes seed_env_zero [] [] r0" using i by (rule reachable.init)
  have p: "Params_net r0 TESTNET = Inr (testNetParams r0)" by simp
  show ?thesis using reachable_genesis_consistent [OF r p] r p by blast
qed

text \<open>
  C6: selecting an implemented network makes \<open>Params()\<close> return that
  network's profile, the one \<open>Params(n)\<close> returns, and reads do not change
  the state.
\<close>

theorem select_then_read:
  assumes "n \<noteq> MAX_NETWORK_TYPES"
  shows "\<exists>r' p. SelectParams r n = Inr r' \<and> Params_net r n = Inr p \<and> Params r' = Inr p
               \<and> reg_run r' [Read, Read] = Inr r'"
  using assms by (cases n) (auto simp: SelectParams_eq Params_def)

theorem select_then_read_witness:
  "TESTNET \<noteq> MAX_NETWORK_TYPES \<and>
   (\<exists>r' p. SelectParams reg_example TESTNET = Inr r' \<and> Params_net reg_example TESTNET = Inr p
           \<and> Params r' = Inr p \<and> reg_run r' [Read, Read] = Inr r')"
  using select_then_read [of TESTNET reg_example] by simp

text \<open>
  C7: right after initialization, before any selection, \<open>Params()\<close> and
  \<open>ModifiableParams()\<close> fail their non-null assertion, \<open>SelectParams\<close> of
  the sentinel network fails its switch's default, and the command-line
  selection of the sentinel returns false and changes nothing.
\<close>

theorem registry_errors_before_select:
  "init_statics H env sm st = Inr r \<Longrightarrow>
   Params r = Inl NoCurrentParams \<and> ModifiableParams r = Inl NoCurrentParams
   \<and> SelectParams r MAX_NETWORK_TYPES = Inl UnimplementedNetwork
   \<and> SelectParamsFromCommandLine r MAX_NETWORK_TYPES = Inr (False, r)"
  by (auto dest!: init_statics_Inr simp: Params_def ModifiableParams_def SelectParams_eq
           SelectParamsFromCommandLine_def)

theorem registry_errors_before_select_witness:
  "\<exists>r. init_statics declared_hashes seed_env_zero [] [] = Inr r
     \<and> Params r = Inl NoCurrentParams \<and> ModifiableParams r = Inl NoCurrentParams
     \<and> SelectParams r MAX_NETWORK_TYPES = Inl UnimplementedNetwork
     \<and> SelectParamsFromCommandLine r MAX_NETWORK_TYPES = Inr (False, r)"
proof -
  obtain r where i: "init_statics declared_hashes seed_env_zero [] [] = Inr r" using init_declared by blast
  show ?thesis using registry_errors_before_select [OF i] i by blast
qed

text \<open>
  C5: a unit-test override through \<open>ModifiableParams()\<close> fails with the
  unit-test assertion exactly when another network is selected, and succeeds
  exactly when the unit-test network is selected.
\<close>

theorem modify_guard:
  assumes "pCurrentParams r = Some n"
  shows "(modify r op = Inl NotUnitTestParams \<longleftrightarrow> n \<noteq> UNITTEST)
         \<and> ((\<exists>r'. modify r op = Inr r') \<longleftrightarrow> n = UNITTEST)"
  using assms by (simp add: modify_eq)

theorem modify_guard_witness:
  "pCurrentParams reg_example = Some MAIN
   \<and> (modify reg_example (setDefaultConsistencyChecks False) = Inl NotUnitTestParams \<longleftrightarrow> MAIN \<noteq> UNITTEST)
   \<and> ((\<exists>r'. modify reg_example (setDefaultConsistencyChecks False) = Inr r') \<longleftrightarrow> MAIN = UNITTEST)"
  using modify_guard [of reg_example MAIN "setDefaultConsistencyChecks False"] by (simp add: reg_example_def)

text \<open>
  C4: the selection pointer of the registry follows the specification's state
  machine: after any successful run it is the abstract state reached by the
  same operations from the abstract state it started in.
\<close>

theorem reg_run_refines:
  "reg_run r ops = Inr r' \<Longrightarrow> pCurrentParams r' = foldl abs_step (pCurrentParams r) ops"
proof (induction ops arbitrary: r)
  case Nil
  then show ?case by simp
next
  case (Cons op ops)
  then obtain r1 where s: "reg_step r op = Inr r1" and "reg_run r1 ops = Inr r'"
    by (auto split: sum.splits)
  then show ?case using Cons.IH reg_step_abs [OF s] by simp
qed

theorem reg_run_refines_witness:
  "reg_run reg_example [Select TESTNET, Read, SelectFromCommandLine MAX_NETWORK_TYPES]
     = Inr (reg_example\<lparr>pCurrentBaseParams := Some TESTNET, pCurrentParams := Some TESTNET\<rparr>)
   \<and> pCurrentParams (reg_example\<lparr>pCurrentBaseParams := Some TESTNET, pCurrentParams := Some TESTNET\<rparr>)
     = foldl abs_step (pCurrentParams reg_example) [Select TESTNET, Read, SelectFromCommandLine MAX_NETWORK_TYPES]"
proof -
  have run: "reg_run reg_example [Select TESTNET, Read, SelectFromCommandLine MAX_NETWORK_TYPES]
     = Inr (reg_example\<lparr>pCurrentBaseParams := Some TESTNET, pCurrentParams := Some TESTNET\<rparr>)"
    by (simp add: SelectParams_eq Params_def SelectParamsFromCommandLine_def)
  show ?thesis using reg_run_refines [OF run] run by blast
qed

text \<open>
  C8: in every reachable state the selection pointer never designates the
  sentinel network, and the base-parameter pointer always agrees with it.
\<close>

theorem reachable_pointers:
  "reachable H env sm st r \<Longrightarrow>
   pCurrentParams r \<noteq> Some MAX_NETWORK_TYPES \<and> pCurrentBaseParams r = pCurrentParams r"
proof (induction rule: reachable.induct)
  case (init r)
  then show ?case by (auto dest: init_statics_Inr)
next
  case (step r op r')
  then show ?case by (auto dest: reg_step_cases)
qed

theorem reachable_pointers_witness:
  "\<exists>r. reachable declared_hashes seed_env_zero [] [] r
     \<and> pCurrentParams r \<noteq> Some MAX_NETWORK_TYPES \<and> pCurrentBaseParams r = pCurrentParams r"
proof -
  obtain r0 where i: "init_statics declared_hashes seed_env_zero [] [] = Inr r0" using init_declared by blast
  have r: "reachable declared_hashes seed_env_zero [] [] r0" using i by (rule reachable.init)
  show ?thesis using reachable_pointers [OF r] r by blast
qed

text \<open>
  C22: every profile of every reachable state is well formed
  (\<open>wf_params\<close>): a four-byte message start, the 65-byte alert key, a port in
  range, a positive proof-of-work limit, the one-transaction genesis block, and
  non-empty base58 prefixes, four bytes for the extended keys.
\<close>

theorem reachable_wf:
  assumes "reachable H env sm st r" and "Params_net r n = Inr p"
  shows "wf_params p"
proof -
  have "statics_all wf_params r"
    using assms(1) by (rule reachable_statics_inv) (simp_all add: init_statics_wf)
  then show ?thesis using assms(2) by (rule statics_all_Params_net)
qed

theorem reachable_wf_witness:
  "\<exists>r p. reachable declared_hashes seed_env_zero [] [] r \<and> Params_net r UNITTEST = Inr p \<and> wf_params p"
proof -
  obtain r0 where i: "init_statics declared_hashes seed_env_zero [] [] = Inr r0" using init_declared by blast
  have r: "reachable declared_hashes seed_env_zero [] [] r0" using i by (rule reachable.init)
  have p: "Params_net r0 UNITTEST = Inr (unitTestParams r0)" by simp
  show ?thesis using reachable_wf [OF r p] r p by blast
qed

end
