(* ===== verification/Base58.thy ===== *)
theory Base58
  imports Primitives
begin

text \<open>
  The base58 encoder and decoder of \<open>base58.cpp\<close>, which turn the version
  prefixes of a profile and a payload into an address string and back.
\<close>

subsection \<open>The source's routines\<close>

definition pszBase58 :: string where
  "pszBase58 = ''123456789ABCDEFGHJKLMNPQRSTUVWXYZabcdefghijkmnopqrstuvwxyz''"

datatype b58_error = CarryNotZero

text \<open>
  One pass of the inner \<open>for\<close> loop over a digit vector, from \<open>rbegin\<close> to
  \<open>rend\<close>: \<open>carry += M * (*it); *it = carry % B; carry /= B\<close>.  The vector is
  kept in the list reversed, last element first.
\<close>

fun muladd :: "nat \<Rightarrow> nat \<Rightarrow> nat \<Rightarrow> nat list \<Rightarrow> nat list \<times> nat" where
  "muladd M B carry [] = ([], carry)"
| "muladd M B carry (d # ds) =
     (let c = carry + M * d; (ds', c') = muladd M B (c div B) ds in (c mod B # ds', c'))"

text \<open>\<open>EncodeBase58\<close>: the loop over the bytes, \<open>b58 = b58 * 256 + ch\<close>, with its \<open>assert(carry == 0)\<close>.\<close>

fun b58_bytes :: "bytes \<Rightarrow> nat list \<Rightarrow> b58_error + nat list" where
  "b58_bytes [] b58 = Inr b58"
| "b58_bytes (ch # chs) b58 =
     (let (b58', carry) = muladd 256 58 (unat ch) b58 in
      if carry \<noteq> 0 then Inl CarryNotZero else b58_bytes chs b58')"

definition EncodeBase58 :: "bytes \<Rightarrow> b58_error + string" where
  "EncodeBase58 vch =
     (let zeroes = length (takeWhile (\<lambda>b. b = 0) vch);
          rest = dropWhile (\<lambda>b. b = 0) vch
      in case b58_bytes rest (replicate (length rest * 138 div 100 + 1) 0) of
           Inl e \<Rightarrow> Inl e
         | Inr b58 \<Rightarrow> Inr (replicate zeroes (CHR ''1'')
                          @ map (\<lambda>d. pszBase58 ! d) (dropWhile (\<lambda>d. d = 0) (rev b58))))"

text \<open>\<open>EncodeBase58Check\<close>: the payload and the first four bytes of its double SHA-256.\<close>

definition EncodeBase58Check :: "hash_impl \<Rightarrow> bytes \<Rightarrow> b58_error + string" where
  "EncodeBase58Check H vchIn = EncodeBase58 (vchIn @ le_bytes 4 (Hash H vchIn))"

text \<open>\<open>strchr\<close>: the index of the first occurrence.\<close>

fun strchr :: "string \<Rightarrow> char \<Rightarrow> nat option" where
  "strchr [] c = None"
| "strchr (x # xs) c = (if x = c then Some 0 else map_option Suc (strchr xs c))"

text \<open>
  \<open>DecodeBase58\<close>: the loop over the characters up to the first space,
  \<open>b256 = b256 * 58 + ch\<close>; a character outside the alphabet returns
  \<open>false\<close> (\<open>None\<close>).  The rest of the string is returned to the caller.
\<close>

fun b256_chars :: "string \<Rightarrow> nat list \<Rightarrow> b58_error + (nat list \<times> string) option" where
  "b256_chars [] b256 = Inr (Some (b256, []))"
| "b256_chars (c # cs) b256 =
     (if isspace c then Inr (Some (b256, c # cs))
      else case strchr pszBase58 c of
             None \<Rightarrow> Inr None
           | Some i \<Rightarrow>
               (let (b256', carry) = muladd 58 256 i b256 in
                if carry \<noteq> 0 then Inl CarryNotZero else b256_chars cs b256'))"

definition DecodeBase58 :: "string \<Rightarrow> b58_error + bytes option" where
  "DecodeBase58 psz =
     (let psz1 = dropWhile isspace psz;
          zeroes = length (takeWhile (\<lambda>c. c = CHR ''1'') psz1);
          psz2 = dropWhile (\<lambda>c. c = CHR ''1'') psz1
      in case b256_chars psz2 (replicate (length psz2 * 733 div 1000 + 1) 0) of
           Inl e \<Rightarrow> Inl e
         | Inr None \<Rightarrow> Inr None
         | Inr (Some (b256, psz3)) \<Rightarrow>
             if dropWhile isspace psz3 \<noteq> [] then Inr None
             else Inr (Some (replicate zeroes 0 @ map of_nat (dropWhile (\<lambda>d. d = 0) (rev b256)))))"

text \<open>
  \<open>DecodeBase58Check\<close>: decode, reject fewer than four bytes, recompute the
  double SHA-256 of all but the last four bytes and compare its first four
  bytes with them (\<open>memcmp\<close>), then drop the checksum.
\<close>

definition DecodeBase58Check :: "hash_impl \<Rightarrow> string \<Rightarrow> b58_error + bytes option" where
  "DecodeBase58Check H psz =
     (case DecodeBase58 psz of
        Inl e \<Rightarrow> Inl e
      | Inr None \<Rightarrow> Inr None
      | Inr (Some vchRet) \<Rightarrow>
          if length vchRet < 4 then Inr None
          else (let payload = take (length vchRet - 4) vchRet in
                if le_bytes 4 (Hash H payload) \<noteq> drop (length vchRet - 4) vchRet then Inr None
                else Inr (Some payload)))"

subsection \<open>Positional notation, the reference\<close>

text \<open>
  \<open>be_val M ds n\<close> reads the digits \<open>ds\<close>, most significant first, in base
  \<open>M\<close> after the value \<open>n\<close>; \<open>le_val B ds\<close> reads them least significant
  first; \<open>nat_digits B n\<close> writes \<open>n\<close> in base \<open>B\<close> without leading zeros.
\<close>

fun be_val :: "nat \<Rightarrow> nat list \<Rightarrow> nat \<Rightarrow> nat" where
  "be_val M [] n = n"
| "be_val M (d # ds) n = be_val M ds (M * n + d)"

fun le_val :: "nat \<Rightarrow> nat list \<Rightarrow> nat" where
  "le_val B [] = 0"
| "le_val B (d # ds) = d + B * le_val B ds"

function nat_digits :: "nat \<Rightarrow> nat \<Rightarrow> nat list" where
  "nat_digits B n = (if n = 0 \<or> B < 2 then [] else nat_digits B (n div B) @ [n mod B])"
  by auto
termination
  by (relation "measure snd") auto

declare nat_digits.simps [simp del]

subsection \<open>The digit loops\<close>

lemma muladd_spec:
  "0 < B \<Longrightarrow> muladd M B c ds = (ds', c') \<Longrightarrow>
   length ds' = length ds \<and> (\<forall>d \<in> set ds'. d < B) \<and> le_val B ds' + B ^ length ds * c' = c + M * le_val B ds"
proof (induction M B c ds arbitrary: ds' c' rule: muladd.induct)
  case (1 M B carry)
  then show ?case by simp
next
  case (2 M B carry d ds)
  let ?x = "carry + M * d"
  obtain ds1 c1 where r: "muladd M B (?x div B) ds = (ds1, c1)" by fastforce
  then have ih: "length ds1 = length ds \<and> (\<forall>d \<in> set ds1. d < B)
      \<and> le_val B ds1 + B ^ length ds * c1 = ?x div B + M * le_val B ds"
    using "2.IH" [OF refl "2.prems"(1) r] by simp
  have e: "ds' = ?x mod B # ds1" "c' = c1" using "2.prems"(2) r by (simp_all add: Let_def)
  have "le_val B ds' + B ^ length (d # ds) * c' = ?x mod B + B * (le_val B ds1 + B ^ length ds * c1)"
    using e by (simp add: algebra_simps)
  also have "\<dots> = ?x mod B + B * (?x div B) + B * M * le_val B ds" using ih by (simp add: algebra_simps)
  also have "\<dots> = carry + M * le_val B (d # ds)" by (simp add: algebra_simps)
  finally show ?case using ih e "2.prems"(1) by simp
qed

lemma le_val_bound: "\<forall>d \<in> set ds. d < B \<Longrightarrow> le_val B ds < B ^ length ds"
proof (induction ds)
  case Nil
  then show ?case by simp
next
  case (Cons d ds)
  then have "d + 1 \<le> B" "le_val B ds + 1 \<le> B ^ length ds" by simp_all
  then have "d + B * le_val B ds + 1 \<le> B + B * le_val B ds" "B + B * le_val B ds \<le> B * B ^ length ds"
    using mult_le_mono2 [of "le_val B ds + 1" "B ^ length ds" B] by (simp_all add: algebra_simps)
  then show ?case by simp
qed

text \<open>A pass of \<open>muladd\<close> that the vector has room for leaves no carry.\<close>

lemma muladd_step:
  assumes "0 < B" "\<forall>d \<in> set b. d < B" "M * le_val B b + x < B ^ length b"
      and "muladd M B x b = (b', c)"
  shows "c = 0 \<and> length b' = length b \<and> (\<forall>d \<in> set b'. d < B) \<and> le_val B b' = M * le_val B b + x"
proof -
  have s: "length b' = length b" "\<forall>d \<in> set b'. d < B" "le_val B b' + B ^ length b * c = x + M * le_val B b"
    using muladd_spec [OF assms(1) assms(4)] by simp_all
  have "c = 0" using s(3) assms(3) by (cases c) auto
  then show ?thesis using s by simp
qed

lemma be_val_shift: "be_val M ds n = n * M ^ length ds + be_val M ds 0"
proof (induction ds arbitrary: n)
  case Nil
  then show ?case by simp
next
  case (Cons d ds)
  have "be_val M (d # ds) n = (M * n + d) * M ^ length ds + be_val M ds 0"
    using Cons.IH [of "M * n + d"] by simp
  moreover have "be_val M (d # ds) 0 = d * M ^ length ds + be_val M ds 0"
    using Cons.IH [of d] by simp
  ultimately show ?case by (simp add: algebra_simps)
qed

lemma be_val_snoc: "be_val M (ds @ [d]) n = M * be_val M ds n + d"
  by (induction ds arbitrary: n) simp_all

lemma be_val_ge: "0 < M \<Longrightarrow> n \<le> be_val M ds n"
proof -
  assume "0 < M"
  then have "n \<le> n * M ^ length ds" by simp
  then show ?thesis using be_val_shift [of M ds n] by linarith
qed

lemma be_val_bound: "\<forall>d \<in> set ds. d < M \<Longrightarrow> be_val M ds 0 < M ^ length ds"
proof (induction ds rule: rev_induct)
  case Nil
  then show ?case by simp
next
  case (snoc d ds)
  then have "d + 1 \<le> M" "be_val M ds 0 + 1 \<le> M ^ length ds" by simp_all
  then have "M * be_val M ds 0 + d + 1 \<le> M * (be_val M ds 0 + 1)" "M * (be_val M ds 0 + 1) \<le> M * M ^ length ds"
    using mult_le_mono2 [of "be_val M ds 0 + 1" "M ^ length ds" M] by (simp_all add: algebra_simps)
  then show ?case by (simp add: be_val_snoc)
qed

lemma be_val_dropWhile_zero: "be_val M (dropWhile (\<lambda>d. d = 0) ds) 0 = be_val M ds 0"
  by (induction ds) simp_all

lemma le_val_replicate_zero: "le_val B (replicate n 0) = 0"
  by (induction n) simp_all

subsection \<open>Digits of a number\<close>

lemma le_val_eq_zero: "0 < B \<Longrightarrow> le_val B ds = 0 \<longleftrightarrow> (\<forall>d \<in> set ds. d = 0)"
  by (induction ds) auto

lemma nat_digits_zero [simp]: "nat_digits B 0 = []"
  by (simp add: nat_digits.simps)

lemma nat_digits_step:
  assumes "1 < B" "d < B" "B * m + d \<noteq> 0"
  shows "nat_digits B (B * m + d) = nat_digits B m @ [d]"
  using assms by (subst nat_digits.simps) simp

lemma nat_digits_le_val:
  "1 < B \<Longrightarrow> \<forall>d \<in> set ds. d < B \<Longrightarrow> dropWhile (\<lambda>d. d = 0) (rev ds) = nat_digits B (le_val B ds)"
proof (induction ds)
  case Nil
  then show ?case by simp
next
  case (Cons d ds)
  show ?case
  proof (cases "le_val B ds = 0")
    case True
    then have "dropWhile (\<lambda>d. d = 0) (rev ds @ [d]) = dropWhile (\<lambda>d. d = 0) [d]"
      using Cons.prems(1) by (intro dropWhile_append2) (simp add: le_val_eq_zero)
    moreover have "nat_digits B d = (if d = 0 then [] else [d])"
      using Cons.prems nat_digits_step [of B d 0] by simp
    ultimately show ?thesis using True by simp
  next
    case False
    then obtain x where "x \<in> set (rev ds)" "x \<noteq> 0" using Cons.prems(1) by (auto simp: le_val_eq_zero)
    then have "dropWhile (\<lambda>d. d = 0) (rev ds @ [d]) = dropWhile (\<lambda>d. d = 0) (rev ds) @ [d]"
      by (rule dropWhile_append1)
    then show ?thesis using Cons False nat_digits_step [of B d "le_val B ds"] by (simp add: add.commute)
  qed
qed

lemma nat_digits_be_val:
  "1 < B \<Longrightarrow> \<forall>d \<in> set ds. d < B \<Longrightarrow> ds = [] \<or> hd ds \<noteq> 0 \<Longrightarrow> nat_digits B (be_val B ds 0) = ds"
proof (induction ds rule: rev_induct)
  case Nil
  then show ?case by simp
next
  case (snoc d ds)
  show ?case
  proof (cases "ds = []")
    case True
    then show ?thesis using snoc.prems nat_digits_step [of B d 0] by simp
  next
    case False
    then have "nat_digits B (be_val B ds 0) = ds" using snoc by simp
    moreover have "be_val B ds 0 \<noteq> 0"
    proof
      assume "be_val B ds 0 = 0"
      with calculation False show False by simp
    qed
    ultimately show ?thesis using snoc.prems nat_digits_step [of B d "be_val B ds 0"] by (simp add: be_val_snoc)
  qed
qed

lemma nat_digits_induct_step:
  "1 < B \<Longrightarrow> n \<noteq> 0 \<Longrightarrow> nat_digits B n = nat_digits B (n div B) @ [n mod B]"
  by (subst nat_digits.simps) simp

lemma nat_digits_props:
  assumes "1 < B"
  shows "(\<forall>d \<in> set (nat_digits B n). d < B) \<and> be_val B (nat_digits B n) 0 = n
     \<and> (nat_digits B n = [] \<or> hd (nat_digits B n) \<noteq> 0)"
proof (induction n rule: less_induct)
  case (less n)
  show ?case
  proof (cases "n = 0")
    case True
    then show ?thesis by simp
  next
    case False
    let ?ds = "nat_digits B (n div B)"
    have e: "nat_digits B n = ?ds @ [n mod B]"
      using assms False by (rule nat_digits_induct_step)
    have lt: "n div B < n" using assms False by simp
    have ih: "(\<forall>d \<in> set ?ds. d < B) \<and> be_val B ?ds 0 = n div B \<and> (?ds = [] \<or> hd ?ds \<noteq> 0)"
      using less.IH [OF lt] .
    have m: "n mod B < B" using assms by simp
    have v: "be_val B (nat_digits B n) 0 = n"
      unfolding e be_val_snoc using ih by simp
    have h: "hd (nat_digits B n) \<noteq> 0"
    proof (cases "?ds = []")
      case True
      then have "n div B = 0" using ih by simp
      then have "n mod B = n" using div_mult_mod_eq [of n B] by simp
      then show ?thesis using e True False by simp
    next
      case False
      then show ?thesis using e ih by simp
    qed
    show ?thesis using e ih m v h by auto
  qed
qed

subsection \<open>The alphabet\<close>

lemma length_pszBase58: "length pszBase58 = 58"
  by (simp add: pszBase58_def)

lemma distinct_pszBase58: "distinct pszBase58"
  by (simp add: pszBase58_def)

lemma pszBase58_no_space: "\<forall>c \<in> set pszBase58. \<not> isspace c"
  by (simp add: pszBase58_def isspace_def)

lemma pszBase58_0: "pszBase58 ! 0 = CHR ''1''"
  by (simp add: pszBase58_def)

lemma strchr_nth: "distinct xs \<Longrightarrow> i < length xs \<Longrightarrow> strchr xs (xs ! i) = Some i"
proof (induction xs arbitrary: i)
  case Nil
  then show ?case by simp
next
  case (Cons x xs)
  then show ?case by (cases i) auto
qed

lemma map_unat_dropWhile: "map unat (dropWhile (\<lambda>b. b = 0) (bs :: bytes)) = dropWhile (\<lambda>d. d = 0) (map unat bs)"
  by (induction bs) (auto simp: unsigned_eq_0_iff)

lemma takeWhile_eq_replicate: "takeWhile (\<lambda>x. x = a) xs = replicate (length (takeWhile (\<lambda>x. x = a) xs)) a"
  by (induction xs) auto

lemma map_of_nat_unat: "map of_nat (map unat bs) = (bs :: bytes)"
  by (induction bs) auto

subsection \<open>Encoder and decoder against the reference\<close>

text \<open>A vector of \<open>n * p div q + 1\<close> digits in base \<open>b\<close> holds \<open>n\<close> digits in base \<open>a\<close> when \<open>a ^ q \<le> b ^ p\<close>.\<close>

lemma digits_room:
  fixes a b :: nat
  assumes ab: "a ^ q \<le> b ^ p" and q: "0 < q" and b: "0 < b"
  shows "a ^ n \<le> b ^ (n * p div q + 1)"
proof -
  have e: "p * n \<le> q * (n * p div q + 1)"
  proof -
    have "q * (n * p div q) + n * p mod q = n * p" by (rule mult_div_mod_eq)
    moreover have "n * p mod q < q" using q by simp
    moreover have "p * n = n * p" by (rule mult.commute)
    ultimately have "p * n \<le> q * (n * p div q) + q" by linarith
    then show ?thesis by (simp add: distrib_left)
  qed
  have "(a ^ n) ^ q = (a ^ q) ^ n" by (metis power_mult mult.commute)
  also have "\<dots> \<le> (b ^ p) ^ n" using ab by (rule power_mono) simp
  also have "\<dots> = b ^ (p * n)" by (simp add: power_mult)
  also have "\<dots> \<le> b ^ (q * (n * p div q + 1))" using e b by (intro power_increasing) simp_all
  also have "\<dots> = (b ^ (n * p div q + 1)) ^ q" by (metis power_mult mult.commute)
  finally show ?thesis using power_le_imp_le_base [of "a ^ n" "q - 1" "b ^ (n * p div q + 1)"] q by simp
qed

lemma b58_room: "(256::nat) ^ n \<le> 58 ^ (n * 138 div 100 + 1)"
  by (rule digits_room) simp_all

lemma b256_room: "(58::nat) ^ n \<le> 256 ^ (n * 733 div 1000 + 1)"
proof (rule digits_room)
  have "(58::nat) ^ 1000 = 58 ^ (71 * 14 + 6)" by (rule arg_cong [where f = "\<lambda>k. 58 ^ k"]) simp
  also have "\<dots> = (58 ^ 71) ^ 14 * 58 ^ 6" by (simp only: power_add power_mult)
  also have "\<dots> \<le> (256 ^ 52) ^ 14 * 256 ^ 5"
    by (intro mult_le_mono power_mono) simp_all
  also have "\<dots> = 256 ^ (52 * 14 + 5)" by (simp only: power_add power_mult)
  also have "\<dots> = 256 ^ 733" by (rule arg_cong [where f = "\<lambda>k. 256 ^ k"]) simp
  finally show "(58::nat) ^ 1000 \<le> 256 ^ 733" .
qed simp_all

lemma b58_bytes_spec:
  "\<forall>d \<in> set b. d < 58 \<Longrightarrow> be_val 256 (map unat chs) (le_val 58 b) < 58 ^ length b \<Longrightarrow>
   \<exists>b'. b58_bytes chs b = Inr b' \<and> length b' = length b \<and> (\<forall>d \<in> set b'. d < 58)
      \<and> le_val 58 b' = be_val 256 (map unat chs) (le_val 58 b)"
proof (induction chs arbitrary: b)
  case Nil
  then show ?case by simp
next
  case (Cons ch chs)
  obtain b1 c where m: "muladd 256 58 (unat ch) b = (b1, c)" by fastforce
  let ?v = "256 * le_val 58 b + unat ch"
  have "?v \<le> be_val 256 (map unat chs) ?v" by (rule be_val_ge) simp
  then have "?v < 58 ^ length b" using Cons.prems(2) by simp
  then have s: "c = 0" "length b1 = length b" "\<forall>d \<in> set b1. d < 58" "le_val 58 b1 = ?v"
    using muladd_step [OF _ Cons.prems(1) _ m] by simp_all
  then show ?case using Cons.IH [of b1] Cons.prems(2) m by simp
qed

lemma b256_chars_spec:
  "\<forall>d \<in> set b. d < 256 \<Longrightarrow> \<forall>d \<in> set ds. d < 58 \<Longrightarrow> be_val 58 ds (le_val 256 b) < 256 ^ length b \<Longrightarrow>
   \<exists>b'. b256_chars (map (\<lambda>d. pszBase58 ! d) ds) b = Inr (Some (b', [])) \<and> length b' = length b
      \<and> (\<forall>d \<in> set b'. d < 256) \<and> le_val 256 b' = be_val 58 ds (le_val 256 b)"
proof (induction ds arbitrary: b)
  case Nil
  then show ?case by simp
next
  case (Cons d ds)
  have d: "d < 58" using Cons.prems(2) by simp
  have c: "\<not> isspace (pszBase58 ! d)" "strchr pszBase58 (pszBase58 ! d) = Some d"
    using d pszBase58_no_space strchr_nth [OF distinct_pszBase58] by (simp_all add: length_pszBase58)
  obtain b1 k where m: "muladd 58 256 d b = (b1, k)" by fastforce
  let ?v = "58 * le_val 256 b + d"
  have "?v \<le> be_val 58 ds ?v" by (rule be_val_ge) simp
  then have "?v < 256 ^ length b" using Cons.prems(3) by simp
  then have s: "k = 0" "length b1 = length b" "\<forall>d \<in> set b1. d < 256" "le_val 256 b1 = ?v"
    using muladd_step [OF _ Cons.prems(1) _ m] by simp_all
  then show ?case using Cons.IH [of b1] Cons.prems(2,3) m c by simp
qed

lemma b58_encode_digits:
  "\<exists>b'. b58_bytes rest (replicate (length rest * 138 div 100 + 1) 0) = Inr b'
       \<and> dropWhile (\<lambda>d. d = 0) (rev b') = nat_digits 58 (be_val 256 (map unat rest) 0)"
proof -
  define N where "N = length rest * 138 div 100 + 1"
  have "be_val 256 (map unat rest) 0 < 256 ^ length rest"
    using be_val_bound [of "map unat rest" 256] by (simp add: unat_byte_lt)
  then have "be_val 256 (map unat rest) (le_val 58 (replicate N 0)) < 58 ^ length (replicate N (0::nat))"
    using b58_room [of "length rest"] by (simp add: N_def le_val_replicate_zero)
  then obtain b' where b': "b58_bytes rest (replicate N 0) = Inr b'" "\<forall>d \<in> set b'. d < 58"
      "le_val 58 b' = be_val 256 (map unat rest) 0"
    using b58_bytes_spec [of "replicate N 0" rest] by (auto simp: le_val_replicate_zero)
  then show ?thesis using nat_digits_le_val [of 58 b'] unfolding N_def by auto
qed

lemma EncodeBase58_eq:
  "EncodeBase58 vch = Inr (replicate (length (takeWhile (\<lambda>b. b = 0) vch)) (CHR ''1'')
      @ map (\<lambda>d. pszBase58 ! d) (nat_digits 58 (be_val 256 (map unat vch) 0)))"
proof -
  define rest where "rest = dropWhile (\<lambda>b. b = 0) vch"
  have v: "be_val 256 (map unat rest) 0 = be_val 256 (map unat vch) 0"
    unfolding rest_def map_unat_dropWhile by (rule be_val_dropWhile_zero)
  obtain b' where "b58_bytes rest (replicate (length rest * 138 div 100 + 1) 0) = Inr b'"
      "dropWhile (\<lambda>d. d = 0) (rev b') = nat_digits 58 (be_val 256 (map unat rest) 0)"
    using b58_encode_digits by blast
  then show ?thesis using v unfolding EncodeBase58_def Let_def rest_def by simp
qed

lemma pszBase58_one_iff: "d < 58 \<Longrightarrow> pszBase58 ! d = CHR ''1'' \<longleftrightarrow> d = 0"
  using nth_eq_iff_index_eq [OF distinct_pszBase58, of d 0] pszBase58_0 by (simp add: length_pszBase58)

lemma dropWhile_none: "\<forall>x \<in> set xs. \<not> P x \<Longrightarrow> dropWhile P xs = xs"
  by (cases xs) simp_all

lemma b58_digits_split:
  assumes "\<forall>d \<in> set ds. d < 58" "ds = [] \<or> hd ds \<noteq> 0"
  shows "takeWhile (\<lambda>c. c = CHR ''1'') (replicate z (CHR ''1'') @ map (\<lambda>d. pszBase58 ! d) ds) = replicate z (CHR ''1'')
    \<and> dropWhile (\<lambda>c. c = CHR ''1'') (replicate z (CHR ''1'') @ map (\<lambda>d. pszBase58 ! d) ds) = map (\<lambda>d. pszBase58 ! d) ds"
proof (cases ds)
  case Nil
  then show ?thesis by simp
next
  case (Cons d ds')
  then have "pszBase58 ! d \<noteq> CHR ''1''" using assms pszBase58_one_iff [of d] by simp
  then show ?thesis using Cons by (induction z) simp_all
qed

lemma DecodeBase58_ref:
  assumes ds: "\<forall>d \<in> set ds. d < 58" "ds = [] \<or> hd ds \<noteq> 0"
  shows "DecodeBase58 (replicate z (CHR ''1'') @ map (\<lambda>d. pszBase58 ! d) ds)
       = Inr (Some (replicate z 0 @ map of_nat (nat_digits 256 (be_val 58 ds 0))))"
proof -
  let ?s = "replicate z (CHR ''1'') @ map (\<lambda>d. pszBase58 ! d) ds"
  let ?M = "length (map (\<lambda>d. pszBase58 ! d) ds) * 733 div 1000 + 1"
  have "\<forall>c \<in> set ?s. \<not> isspace c"
    using ds(1) pszBase58_no_space nth_mem [of _ pszBase58] by (auto simp: length_pszBase58 isspace_def)
  then have sp: "dropWhile isspace ?s = ?s" by (rule dropWhile_none)
  have sp1: "takeWhile (\<lambda>c. c = CHR ''1'') ?s = replicate z (CHR ''1'')"
    "dropWhile (\<lambda>c. c = CHR ''1'') ?s = map (\<lambda>d. pszBase58 ! d) ds"
    using b58_digits_split [OF ds] by simp_all
  have "be_val 58 ds (le_val 256 (replicate ?M 0)) < 256 ^ length (replicate ?M (0::nat))"
    using be_val_bound [OF ds(1)] b256_room [of "length ds"] by (simp add: le_val_replicate_zero)
  then obtain b' where b': "b256_chars (map (\<lambda>d. pszBase58 ! d) ds) (replicate ?M 0) = Inr (Some (b', []))"
      "\<forall>d \<in> set b'. d < 256" "le_val 256 b' = be_val 58 ds 0"
    using b256_chars_spec [of "replicate ?M 0" ds] ds(1) by (auto simp: le_val_replicate_zero)
  have "dropWhile (\<lambda>d. d = 0) (rev b') = nat_digits 256 (be_val 58 ds 0)"
    using nat_digits_le_val [of 256 b'] b'(2,3) by simp
  then show ?thesis
    unfolding DecodeBase58_def Let_def sp sp1 using b'(1) by simp
qed

lemma strchr_Some: "strchr xs c = Some i \<Longrightarrow> i < length xs \<and> xs ! i = c"
proof (induction xs arbitrary: i)
  case Nil
  then show ?case by simp
next
  case (Cons x xs)
  then show ?case by (cases "x = c") (auto split: if_splits)
qed

lemma map_strchr:
  "map (strchr pszBase58) s = map Some ds \<Longrightarrow> map (\<lambda>d. pszBase58 ! d) ds = s \<and> (\<forall>d \<in> set ds. d < 58)"
proof (induction s arbitrary: ds)
  case Nil
  then show ?case by simp
next
  case (Cons c s)
  then obtain d ds' where "ds = d # ds'" "strchr pszBase58 c = Some d" "map (strchr pszBase58) s = map Some ds'"
    by (cases ds) auto
  then show ?case using Cons.IH strchr_Some [of pszBase58 c d] by (simp add: length_pszBase58)
qed

lemma nat_digits_length:
  "1 < B \<Longrightarrow> B ^ k \<le> n \<Longrightarrow> n < B ^ Suc k \<Longrightarrow>
   length (nat_digits B n) = Suc k \<and> hd (nat_digits B n) = n div B ^ k"
proof (induction k arbitrary: n)
  case 0
  then have "nat_digits B n = [n]" using nat_digits_step [of B n 0] by simp
  then show ?case by simp
next
  case (Suc k)
  have B: "0 < B" using Suc.prems(1) by simp
  have "0 < B ^ Suc k" using B by simp
  then have n0: "n \<noteq> 0" using Suc.prems(2) by linarith
  have lo: "B ^ k \<le> n div B" using Suc.prems(2) B by (simp add: less_eq_div_iff_mult_less_eq mult.commute)
  have hi: "n div B < B ^ Suc k" using Suc.prems(3) B by (simp add: div_less_iff_less_mult mult.commute)
  have ih: "length (nat_digits B (n div B)) = Suc k \<and> hd (nat_digits B (n div B)) = n div B div B ^ k"
    using Suc.IH [OF Suc.prems(1) lo hi] .
  have e: "nat_digits B n = nat_digits B (n div B) @ [n mod B]"
    using Suc.prems(1) n0 by (rule nat_digits_induct_step)
  have "n div B div B ^ k = n div B ^ Suc k" by (simp add: div_mult2_eq)
  then show ?case using e ih by (cases "nat_digits B (n div B)") simp_all
qed

lemma EncodeBase58_lead:
  assumes "v \<noteq> 0" "length rest = 24" "0 < lo" "hi < 58"
      and "lo * 58 ^ 33 \<le> unat v * 256 ^ 24" "(unat v + 1) * 256 ^ 24 \<le> (hi + 1) * 58 ^ 33"
  shows "\<exists>s d. EncodeBase58 (v # rest) = Inr s \<and> length s = 34 \<and> lo \<le> d \<and> d \<le> hi \<and> hd s = pszBase58 ! d"
proof -
  let ?N = "be_val 256 (map unat (v # rest)) 0"
  have N: "?N = unat v * 256 ^ 24 + be_val 256 (map unat rest) 0"
    using be_val_shift [of 256 "map unat rest" "unat v"] assms(2) by simp
  have r: "be_val 256 (map unat rest) 0 < 256 ^ 24"
    using be_val_bound [of "map unat rest" 256] assms(2) by (simp add: unat_byte_lt)
  have a: "lo * 58 ^ 33 \<le> ?N" using N assms(5) by linarith
  have "(unat v + 1) * (256::nat) ^ 24 = unat v * 256 ^ 24 + 256 ^ 24" by simp
  then have b: "?N < (hi + 1) * 58 ^ 33" using N r assms(6) by linarith
  have "(58::nat) ^ 33 \<le> lo * 58 ^ 33" using assms(3) by simp
  moreover have "(hi + 1) * 58 ^ 33 \<le> (58::nat) ^ Suc 33" using assms(4) by simp
  ultimately have L: "length (nat_digits 58 ?N) = 34 \<and> hd (nat_digits 58 ?N) = ?N div 58 ^ 33"
    using nat_digits_length [of 58 33 ?N] a b by simp
  have "lo \<le> ?N div 58 ^ 33" using a by (simp add: less_eq_div_iff_mult_less_eq)
  moreover have "?N div 58 ^ 33 \<le> hi" using b by (simp add: div_less_iff_less_mult)
  moreover obtain b' where "b58_bytes (v # rest) (replicate (length (v # rest) * 138 div 100 + 1) 0) = Inr b'"
      "dropWhile (\<lambda>d. d = 0) (rev b') = nat_digits 58 ?N"
    using b58_encode_digits by blast
  then have "EncodeBase58 (v # rest) = Inr (map (\<lambda>d. pszBase58 ! d) (nat_digits 58 ?N))"
    using assms(1) unfolding EncodeBase58_def Let_def by simp
  moreover have "nat_digits 58 ?N \<noteq> []" using L by auto
  ultimately show ?thesis using L by (auto simp: hd_map)
qed

subsection \<open>The round trip\<close>

text \<open>
  \<open>DecodeBase58\<close> reads back what \<open>EncodeBase58\<close> writes: for every byte
  string the encoder returns a string (its \<open>assert\<close> never fails) and the
  decoder returns \<open>true\<close> with the original bytes, leading zero bytes
  included.
\<close>

lemma DecodeBase58_EncodeBase58:
  "\<exists>s. EncodeBase58 vch = Inr s \<and> DecodeBase58 s = Inr (Some vch)"
proof -
  let ?z = "length (takeWhile (\<lambda>b. b = 0) vch)"
  let ?rest = "dropWhile (\<lambda>b. b = 0) vch"
  let ?n = "be_val 256 (map unat vch) 0"
  let ?ds = "nat_digits 58 ?n"
  have ds: "\<forall>d \<in> set ?ds. d < 58" "be_val 58 ?ds 0 = ?n" "?ds = [] \<or> hd ?ds \<noteq> 0"
    using nat_digits_props [of 58 ?n] by simp_all
  have r: "map unat ?rest = dropWhile (\<lambda>d. d = 0) (map unat vch)" by (rule map_unat_dropWhile)
  have h: "map unat ?rest = [] \<or> hd (map unat ?rest) \<noteq> 0"
    unfolding r using hd_dropWhile [of "\<lambda>d. d = 0" "map unat vch"] by blast
  have lt: "\<forall>d \<in> set (map unat ?rest). d < 256" by (simp add: unat_byte_lt)
  have "be_val 256 (map unat ?rest) 0 = ?n" unfolding r by (rule be_val_dropWhile_zero)
  then have "map of_nat (nat_digits 256 ?n) = ?rest"
    using nat_digits_be_val [OF _ lt h] map_of_nat_unat by simp
  then have "DecodeBase58 (replicate ?z (CHR ''1'') @ map (\<lambda>d. pszBase58 ! d) ?ds)
      = Inr (Some (replicate ?z 0 @ ?rest))"
    using DecodeBase58_ref [OF ds(1,3), of ?z] ds(2) by simp
  also have "replicate ?z 0 @ ?rest = vch"
    using takeWhile_eq_replicate [of 0 vch] takeWhile_dropWhile_id [of "\<lambda>b. b = 0" vch] by simp
  finally show ?thesis using EncodeBase58_eq [of vch] by simp
qed

subsection \<open>The checked encoding\<close>

text \<open>
  \<open>DecodeBase58Check\<close> accepts exactly the strings that decode to a payload
  followed by that payload's checksum: it reads back every
  \<open>EncodeBase58Check\<close>, and rejects an encoding whose last four bytes are
  not the checksum of the rest.
\<close>

lemma DecodeBase58Check_payload:
  "DecodeBase58Check H s = Inr (Some w) \<Longrightarrow>
   \<exists>v. DecodeBase58 s = Inr (Some v) \<and> 4 \<le> length v \<and> w = take (length v - 4) v"
  by (auto simp: DecodeBase58Check_def Let_def split: sum.splits option.splits if_splits)

lemma DecodeBase58Check_iff:
  "DecodeBase58Check H s = Inr (Some v) \<longleftrightarrow> DecodeBase58 s = Inr (Some (v @ le_bytes 4 (Hash H v)))"
proof
  assume d: "DecodeBase58Check H s = Inr (Some v)"
  then obtain w where w: "DecodeBase58 s = Inr (Some w)" "4 \<le> length w"
    by (auto simp: DecodeBase58Check_def split: sum.splits option.splits if_splits)
  then have "v = take (length w - 4) w" "le_bytes 4 (Hash H v) = drop (length w - 4) w"
    using d by (auto simp: DecodeBase58Check_def Let_def split: if_splits)
  then show "DecodeBase58 s = Inr (Some (v @ le_bytes 4 (Hash H v)))" using w(1) by simp
next
  assume "DecodeBase58 s = Inr (Some (v @ le_bytes 4 (Hash H v)))"
  then show "DecodeBase58Check H s = Inr (Some v)" by (simp add: DecodeBase58Check_def)
qed

lemma DecodeBase58Check_EncodeBase58Check:
  "\<exists>s. EncodeBase58Check H v = Inr s \<and> DecodeBase58Check H s = Inr (Some v)"
  using DecodeBase58_EncodeBase58 [of "v @ le_bytes 4 (Hash H v)"]
  by (auto simp: EncodeBase58Check_def DecodeBase58Check_iff)

lemma DecodeBase58Check_bad_checksum:
  assumes "length c = 4" and "c \<noteq> le_bytes 4 (Hash H v)"
  shows "\<exists>s. EncodeBase58 (v @ c) = Inr s \<and> DecodeBase58Check H s = Inr None"
proof -
  obtain s where s: "EncodeBase58 (v @ c) = Inr s" "DecodeBase58 s = Inr (Some (v @ c))"
    using DecodeBase58_EncodeBase58 [of "v @ c"] by blast
  then have "DecodeBase58Check H s = Inr None" using assms by (simp add: DecodeBase58Check_def)
  then show ?thesis using s(1) by blast
qed

end
