(* ===== verification/Rand.thy ===== *)
theory Rand
  imports Seeds "HOL-Library.Stream"
begin

text \<open>
  \<open>GetRand\<close> of \<open>random.cpp\<close>, the source of the random part of the seed
  times in \<open>Seeds\<close>.  \<open>GetRandBytes\<close> fills \<open>nRand\<close> from the operating
  system's generator; here the successive values it yields are a stream of
  \<open>uint64\<close> draws.  The rejection loop
  \<open>do GetRandBytes(&nRand) while (nRand >= nRange)\<close> need not end, so it is a
  \<open>partial_function (option)\<close>: \<open>None\<close> is a loop that never exits.  The
  lemmas show that it exits at the first draw below \<open>nRange\<close>, that the result
  is below \<open>nMax\<close>, that every result value is reached from the same number of
  accepted draws, and that \<open>GetRand\<close> keeps the contract \<open>GetRand_contract\<close>
  that the seed lemmas assume.
\<close>

partial_function (option) rand_loop :: "uint64 \<Rightarrow> uint64 stream \<Rightarrow> (uint64 \<times> uint64 stream) option" where
  "rand_loop nRange draws =
     (let nRand = shd draws in
      if nRand \<ge> nRange then rand_loop nRange (stl draws) else Some (nRand, stl draws))"

text \<open>\<open>nRange = (std::numeric_limits<uint64_t>::max() / nMax) * nMax\<close>\<close>

definition GetRand_range :: "uint64 \<Rightarrow> uint64" where
  "GetRand_range nMax = (0xFFFFFFFFFFFFFFFF div nMax) * nMax"

definition GetRand :: "uint64 \<Rightarrow> uint64 stream \<Rightarrow> (uint64 \<times> uint64 stream) option" where
  "GetRand nMax draws =
     (if nMax = 0 then Some (0, draws)
      else map_option (\<lambda>(nRand, rest). (nRand mod nMax, rest)) (rand_loop (GetRand_range nMax) draws))"

subsection \<open>Lemmas\<close>

lemma rand_loop_first:
  "snth draws i < nRange \<Longrightarrow> \<forall>j < i. nRange \<le> snth draws j \<Longrightarrow>
   rand_loop nRange draws = Some (snth draws i, sdrop (Suc i) draws)"
proof (induction i arbitrary: draws)
  case 0
  then have "\<not> nRange \<le> shd draws" by (simp add: not_le)
  then show ?case by (subst rand_loop.simps) (simp add: Let_def)
next
  case (Suc i)
  have "nRange \<le> shd draws" using Suc.prems(2) by (metis snth.simps(1) zero_less_Suc)
  moreover have "rand_loop nRange (stl draws) = Some (snth (stl draws) i, sdrop (Suc i) (stl draws))"
  proof (rule Suc.IH)
    show "snth (stl draws) i < nRange" using Suc.prems(1) by simp
    show "\<forall>j < i. nRange \<le> snth (stl draws) j"
    proof (intro allI impI)
      fix j
      assume "j < i"
      then have "Suc j < Suc i" by simp
      then have "nRange \<le> snth draws (Suc j)" using Suc.prems(2) by blast
      then show "nRange \<le> snth (stl draws) j" by simp
    qed
  qed
  ultimately show ?case by (subst rand_loop.simps) (simp add: Let_def)
qed

lemma rand_loop_returns:
  assumes "\<exists>i. snth draws i < nRange"
  shows "rand_loop nRange draws = Some (snth draws (LEAST i. snth draws i < nRange),
                                       sdrop (Suc (LEAST i. snth draws i < nRange)) draws)"
proof (rule rand_loop_first)
  show "snth draws (LEAST i. snth draws i < nRange) < nRange" using assms by (rule LeastI_ex)
  show "\<forall>j < (LEAST i. snth draws i < nRange). nRange \<le> snth draws j"
  proof (intro allI impI)
    fix j
    assume "j < (LEAST i. snth draws i < nRange)"
    then have "\<not> snth draws j < nRange" by (rule not_less_Least)
    then show "nRange \<le> snth draws j" by simp
  qed
qed

lemma unat_GetRand_range:
  "0 < nMax \<Longrightarrow> unat (GetRand_range nMax) = 18446744073709551615 div unat nMax * unat nMax"
proof -
  assume n: "0 < nMax"
  have m: "unat (0xFFFFFFFFFFFFFFFF :: uint64) = 18446744073709551615" by simp
  have "18446744073709551615 div unat nMax * unat nMax \<le> (18446744073709551615 :: nat)"
    using div_mult_mod_eq [of 18446744073709551615 "unat nMax"] by linarith
  moreover have "unat (0xFFFFFFFFFFFFFFFF div nMax) * unat nMax = 18446744073709551615 div unat nMax * unat nMax"
    by (simp add: unat_div m)
  moreover have "(2::nat) ^ LENGTH(64) = 18446744073709551616" by simp
  ultimately have "unat (0xFFFFFFFFFFFFFFFF div nMax) * unat nMax < 2 ^ LENGTH(64)" by linarith
  then show ?thesis unfolding GetRand_range_def by (simp add: unat_mult_lem [THEN iffD1] unat_div m)
qed

lemma card_residue:
  assumes "0 < m" "v < (m::nat)"
  shows "card {y. y < q * m \<and> y mod m = v} = q"
proof -
  have "{y. y < q * m \<and> y mod m = v} = (\<lambda>j. v + j * m) ` {..<q}"
  proof (intro set_eqI iffI)
    fix y
    assume y: "y \<in> {y. y < q * m \<and> y mod m = v}"
    then have "y = v + y div m * m" using div_mult_mod_eq [of y m] by simp
    moreover have "y div m < q" using y assms(1) by (simp add: div_less_iff_less_mult)
    ultimately show "y \<in> (\<lambda>j. v + j * m) ` {..<q}" by blast
  next
    fix y
    assume "y \<in> (\<lambda>j. v + j * m) ` {..<q}"
    then obtain j where j: "j < q" "y = v + j * m" by blast
    then have "Suc j * m \<le> q * m" by (intro mult_le_mono1) simp
    then have "y < q * m" using j assms(2) by simp
    moreover have "y mod m = v" using j assms(2) by simp
    ultimately show "y \<in> {y. y < q * m \<and> y mod m = v}" by simp
  qed
  moreover have "inj_on (\<lambda>j. v + j * m) {..<q}" using assms(1) by (auto intro!: inj_onI)
  ultimately show ?thesis by (simp add: card_image)
qed

lemma GetRand_uniform_count:
  assumes "0 < nMax" "v < nMax"
  shows "card {x. x < GetRand_range nMax \<and> x mod nMax = v} = 18446744073709551615 div unat nMax"
proof -
  let ?q = "18446744073709551615 div unat nMax"
  have R: "unat (GetRand_range nMax) = ?q * unat nMax" using assms(1) by (rule unat_GetRand_range)
  have n: "0 < unat nMax" "unat v < unat nMax" using assms by (simp_all add: word_less_nat_alt)
  have "unat ` {x. x < GetRand_range nMax \<and> x mod nMax = v} = {y. y < ?q * unat nMax \<and> y mod unat nMax = unat v}"
  proof (intro set_eqI iffI)
    fix y
    assume "y \<in> unat ` {x. x < GetRand_range nMax \<and> x mod nMax = v}"
    then obtain x where "y = unat x" "x < GetRand_range nMax" "x mod nMax = v" by blast
    then show "y \<in> {y. y < ?q * unat nMax \<and> y mod unat nMax = unat v}"
      using R by (auto simp: word_less_nat_alt unat_mod)
  next
    fix y
    assume y: "y \<in> {y. y < ?q * unat nMax \<and> y mod unat nMax = unat v}"
    have "?q * unat nMax \<le> 18446744073709551615" using div_mult_mod_eq [of 18446744073709551615 "unat nMax"] by linarith
    moreover have "y < ?q * unat nMax" using y by simp
    moreover have "(2::nat) ^ LENGTH(64) = 18446744073709551616" by simp
    ultimately have yl: "y < 2 ^ LENGTH(64)" by linarith
    then have u: "unat (word_of_nat y :: uint64) = y" by (simp add: unsigned_of_nat take_bit_nat_eq_self)
    have "word_of_nat y < GetRand_range nMax" using y u R by (simp add: word_less_nat_alt)
    moreover have "(word_of_nat y :: uint64) mod nMax = v" using y u by (simp add: word_unat_eq_iff unat_mod)
    ultimately have "word_of_nat y \<in> {x. x < GetRand_range nMax \<and> x mod nMax = v}" by simp
    then show "y \<in> unat ` {x. x < GetRand_range nMax \<and> x mod nMax = v}" by (rule image_eqI [where f = unat, OF u [symmetric]])
  qed
  moreover have "inj_on unat {x. x < GetRand_range nMax \<and> x mod nMax = (v::uint64)}"
    by (rule inj_onI) (simp add: word_unat_eq_iff)
  then have "card (unat ` {x. x < GetRand_range nMax \<and> x mod nMax = v}) = card {x. x < GetRand_range nMax \<and> x mod nMax = v}"
    by (rule card_image)
  ultimately have "card {x. x < GetRand_range nMax \<and> x mod nMax = v} = card {y. y < ?q * unat nMax \<and> y mod unat nMax = unat v}"
    by simp
  then show ?thesis using card_residue [OF n] by simp
qed

text \<open>\<open>GetRand\<close> keeps the contract: a run of the seed loop whose \<open>k\<close>-th call returns what \<open>GetRand\<close> returns on the \<open>k\<close>-th stream of draws.\<close>

lemma GetRand_keeps_contract:
  assumes "\<forall>k n. 0 < n \<longrightarrow> (\<exists>rest. GetRand n (draws k n) = Some (GetRand_at env k n, rest))"
  shows "GetRand_contract env"
  unfolding GetRand_contract_def
proof (intro allI impI)
  fix k and n :: uint64
  assume n: "0 < n"
  then obtain rest where "GetRand n (draws k n) = Some (GetRand_at env k n, rest)" using assms by blast
  then obtain x rest' where "rand_loop (GetRand_range n) (draws k n) = Some (x, rest')" "GetRand_at env k n = x mod n"
    using n by (auto simp: GetRand_def word_neq_0_conv [symmetric])
  then show "GetRand_at env k n < n" using n by (simp add: word_mod_less_divisor)
qed

text \<open>
  \<open>GetRand(nMax)\<close> with \<open>nMax > 0\<close> returns as soon as one draw is below
  \<open>nRange\<close>, with that first accepted draw modulo \<open>nMax\<close>, and every value
  below \<open>nMax\<close> is the remainder of exactly \<open>(2^64 - 1) div nMax\<close>
  accepted draws.
\<close>

lemma GetRand_uniform:
  assumes "0 < nMax" and "snth draws i < GetRand_range nMax"
  shows "GetRand nMax draws = Some (snth draws (LEAST i. snth draws i < GetRand_range nMax) mod nMax,
                                   sdrop (Suc (LEAST i. snth draws i < GetRand_range nMax)) draws)
       \<and> snth draws (LEAST i. snth draws i < GetRand_range nMax) mod nMax < nMax
       \<and> (\<forall>v < nMax. card {x. x < GetRand_range nMax \<and> x mod nMax = v} = 18446744073709551615 div unat nMax)"
proof -
  have "rand_loop (GetRand_range nMax) draws
      = Some (snth draws (LEAST i. snth draws i < GetRand_range nMax), sdrop (Suc (LEAST i. snth draws i < GetRand_range nMax)) draws)"
    using assms(2) by (intro rand_loop_returns) blast
  moreover have "nMax \<noteq> 0" using assms(1) by (simp add: word_neq_0_conv)
  ultimately show ?thesis using assms(1) GetRand_uniform_count [OF assms(1)]
    by (simp add: GetRand_def word_mod_less_divisor)
qed

text \<open>
  C28: the random call of the seed loop (line 44), \<open>GetRand(nOneWeek)\<close>,
  returns as soon as one draw is accepted, with the first accepted draw modulo
  one week; the last-seen time computed from it lies in
  \<open>(now - 2 weeks, now - 1 week]\<close> for a clock between two weeks and
  \<open>2^32\<close> seconds; and every offset below one week is the remainder of the
  same number of accepted draws, \<open>(2^64 - 1) div 604800\<close>, so a uniform
  source gives a uniform offset.
\<close>

theorem GetRand_seed_time:
  assumes "snth draws i < GetRand_range nOneWeek"
    and "2 * 604800 \<le> unat now" and "unat now < 2 ^ 32"
  shows "\<exists>v rest. GetRand nOneWeek draws = Some (v, rest)
       \<and> v = snth draws (LEAST i. snth draws i < GetRand_range nOneWeek) mod nOneWeek
       \<and> unat now - 2 * 604800 < unat (seed_nTime now v) \<and> unat (seed_nTime now v) \<le> unat now - 604800
       \<and> (\<forall>w < nOneWeek. card {x. x < GetRand_range nOneWeek \<and> x mod nOneWeek = w} = 30500568904943)"
proof -
  have n: "0 < nOneWeek" by (simp add: word_less_nat_alt)
  let ?v = "snth draws (LEAST i. snth draws i < GetRand_range nOneWeek) mod nOneWeek"
  have g: "GetRand nOneWeek draws = Some (?v, sdrop (Suc (LEAST i. snth draws i < GetRand_range nOneWeek)) draws)"
    "?v < nOneWeek" "\<forall>w < nOneWeek. card {x. x < GetRand_range nOneWeek \<and> x mod nOneWeek = w} = 30500568904943"
    using GetRand_uniform [OF n assms(1)] by simp_all
  have r: "unat ?v < 604800" using g(2) by (simp add: word_less_nat_alt)
  then have "unat (seed_nTime now ?v) = (unat now - unat ?v - 604800) mod 2 ^ 32"
    using assms(2) by (intro unat_seed_nTime) simp
  also have "\<dots> = unat now - unat ?v - 604800" using assms(3) by simp
  finally have "unat (seed_nTime now ?v) = unat now - unat ?v - 604800" .
  then have "unat now - 2 * 604800 < unat (seed_nTime now ?v) \<and> unat (seed_nTime now ?v) \<le> unat now - 604800"
    using r assms(2) by linarith
  then show ?thesis using g by blast
qed

theorem GetRand_seed_time_witness:
  "\<exists>v rest. GetRand nOneWeek (sconst 5) = Some (v, rest) \<and> v = 5
     \<and> unat (seed_nTime 1523209806 v) = 1522605001
     \<and> card {x. x < GetRand_range nOneWeek \<and> x mod nOneWeek = 7} = 30500568904943"
proof -
  have r: "snth (sconst 5) 0 < GetRand_range nOneWeek"
    by (simp add: word_less_nat_alt unat_GetRand_range)
  have l: "(LEAST i. snth (sconst (5 :: uint64)) i < GetRand_range nOneWeek) = 0"
    using r by (simp add: Least_eq_0)
  obtain v rest where "GetRand nOneWeek (sconst 5) = Some (v, rest)" "v = 5 mod nOneWeek"
      "\<forall>w < nOneWeek. card {x. x < GetRand_range nOneWeek \<and> x mod nOneWeek = w} = 30500568904943"
    using GetRand_seed_time [OF r, of 1523209806] l by auto
  moreover have "5 mod nOneWeek = 5" "(7::uint64) < nOneWeek" by (simp_all add: nOneWeek_def)
  moreover have "unat (seed_nTime 1523209806 5) = 1522605001"
    using unat_seed_nTime [of 5 1523209806] by simp
  ultimately show ?thesis by auto
qed

end
