(* ===== verification/Spec2Isabelle.thy ===== *)
theory Spec2Isabelle
  imports Registry Base58 Rand
begin

text \<open>
  \<^bold>\<open>A verification library of the chain parameters of the Examination coin.\<close>

  The program is \<open>src/src/chainparams.cpp\<close>: the parameter profiles of the
  four networks (main, testnet, regression test, unit test), the genesis block
  they share, the checkpoint tables, the conversion of the packed fixed seeds,
  and the process-wide selection of the active profile.  The profiles are four
  static objects built by a chain of constructors
  (\<open>CMainParams\<close> \<open><\<close> \<open>CTestNetParams\<close> \<open><\<close> \<open>CRegTestParams\<close>, and
  \<open>CMainParams\<close> \<open><\<close> \<open>CUnitTestParams\<close>); \<open>SelectParams\<close> points the global
  \<open>pCurrentParams\<close> at one of them, \<open>Params()\<close> reads it, and the unit-test
  profile alone can be changed afterwards through \<open>ModifiableParams()\<close>.

  \<^bold>\<open>Theories.\<close>
  \<^item> \<open>Prelude\<close>: the machine types (\<open>byte\<close>, \<open>uint32\<close>, \<open>uint64\<close>,
    \<open>uint256\<close> as \<open>'n word\<close>), little-endian byte encoding with its round trip,
    and \<open>ParseHex\<close>/\<open>HexStr\<close> of \<open>utilstrencodings.cpp\<close>.
  \<^item> \<open>Script\<close>: the part of \<open>script.h\<close> the genesis coinbase uses: the
    \<open>CScriptNum\<close> encoding \<open>serialize\<close> and its decoder \<open>set_vch\<close> on
    \<open>int64_t\<close> (a 64-bit word), proved against the same encoding on unbounded
    integers, and the three \<open>CScript::operator<<\<close>.
  \<^item> \<open>Primitives\<close>: \<open>COutPoint\<close>, \<open>CTxIn\<close>, \<open>CTxOut\<close>,
    \<open>CMutableTransaction\<close>, \<open>CBlockHeader\<close> and \<open>CBlock\<close> as records and
    their serialization (\<open>ser_block\<close>: header, count, transactions).
  \<^item> \<open>Merkle\<close>: \<open>CBlock::BuildMerkleTree\<close> three ways: level at once
    (\<open>merkle_levels\<close>), in the source's shape (an inner loop \<open>merkle_inner\<close>
    that appends to the vector it reads, inside a \<open>while_option\<close> outer loop
    \<open>merkle_loop\<close>), and the reference \<open>merkle_root\<close>; all agree.  The two
    hash functions (\<open>HashX11\<close> of the header, double SHA-256 of the rest) are
    not modelled: they are the parameter \<open>H :: hash_impl\<close> of every operation
    that hashes, and every theorem holds for all of them.
  \<^item> \<open>Seeds\<close>: \<open>convertSeed6\<close> (lines 20--47) over a clock/random
    environment indexed by the call counter, at the source's word widths.
  \<^item> \<open>Rand\<close>: \<open>GetRand\<close> of \<open>random.cpp\<close>, the random source of the
    seed loop: its rejection loop over the draws of \<open>GetRandBytes\<close> (a
    stream) as a \<open>partial_function (option)\<close>, and the lemma that it keeps
    the contract \<open>GetRand_contract\<close> the seed lemmas assume.
  \<^item> \<open>Base58\<close>: \<open>EncodeBase58\<close>, \<open>EncodeBase58Check\<close>,
    \<open>DecodeBase58\<close> and \<open>DecodeBase58Check\<close> of \<open>base58.cpp\<close>, which turn a profile's prefixes and
    a payload into an address and back.  Their digit vectors
    (\<open>vector<unsigned char>\<close>, iterated from \<open>rbegin\<close>) are lists of
    \<open>nat\<close> kept least significant first; the lemmas show every digit stays
    below its base (58 or 256), so no store into a byte truncates.  The
    reference is positional notation (\<open>be_val\<close>, \<open>le_val\<close>,
    \<open>nat_digits\<close>).
  \<^item> \<open>Checkpoints\<close>: the three checkpoint tables (lines 56--91), built by
    \<open>map_list_of\<close> into a sorted association list with \<open>std::map::insert\<close>'s
    keep-the-first semantics, and the queries \<open>CheckBlock\<close>,
    \<open>GetTotalBlocksEstimate\<close> and \<open>GuessVerificationProgress\<close> of
    \<open>checkpoints.cpp\<close> (the last with \<open>double\<close> arithmetic as exact
    \<open>real\<close> arithmetic).
  \<^item> \<open>ChainParams\<close>: the record \<open>CChainParams\<close>, the genesis block
    (lines 119--136), the four constructor bodies and their chains, the
    per-network constants (message start, DNS seeds, the base58 prefix
    assignments, the dummy pool address, the derived constructors' genesis
    changes, the policy flags), the
    genesis asserts as the \<open>Inl\<close> branch of \<open>error + _\<close>, the seven
    unit-test setters as the datatype \<open>ModifiableOp\<close>, \<open>enum\<close> instances
    for \<open>Network\<close> and \<open>Base58Type\<close>, and the well-formedness predicate
    \<open>wf_params\<close> of a profile.
  \<^item> \<open>Registry\<close>: the state of the statics and the two pointers, the
    operations \<open>Params\<close>, \<open>SelectParams\<close>, \<open>SelectParamsFromCommandLine\<close>
    and \<open>ModifiableParams()->set...\<close>, a run of them (\<open>reg_step\<close>,
    \<open>reg_run\<close>), the reachable states as an inductive set, and the abstract
    machine \<open>abs_step\<close> of the specification that the pointer refines;
    \<open>reachable_statics_inv\<close> is the induction every invariant of the four
    profiles uses.
  \<^item> this theory: properties that span the registry, the profiles, the
    checkpoint tables and the base58 codec, among them the selection scenarios
    of the specification and the addresses of the active network.

  \<^bold>\<open>What is proved.\<close>  Initialization succeeds exactly when the hashes
  reproduce the declared genesis; in every reachable state each profile
  carries that genesis, the main/testnet/regtest profiles never change and the
  unit-test one changes only in its seven published fields; the selection
  pointer refines the specification's two-state machine and never designates
  the sentinel; every profile of every reachable state is well formed; every
  assert is a reachable error branch with the stated condition, and the
  testnet and regtest genesis asserts can never fire.  A sequence of
  unit-test overrides always succeeds and leaves each field at the last value
  its own setter wrote.  The merkle loop, in the source's in-place shape,
  computes the merkle root of the pairwise reference for every block.  On
  \<open>int64_t\<close>, \<open>CScriptNum\<close>'s \<open>set_vch\<close> reads back every serialized value
  except \<open>INT64_MIN\<close>, whose negation wraps and whose nine-byte encoding
  \<open>set_vch\<close> cannot read.  The seed times lie in
  \<open>(now - 2 weeks, now - 1 week]\<close>, and from the year 2106 the 32-bit seed time
  wraps and leaves that window; every reachable state holds the fixed seeds of
  the main list on the main network, only those of the test list on testnet
  (the base constructor's are cleared), and none on regtest and unit test.
  The unit-test profile shares the main network's message start bytes; the
  proof-of-work limits are exact; the height-0 checkpoint of the testnet and
  regtest tables is \<open>uint256("0x001")\<close>, so the genesis block fails
  \<open>CheckBlock\<close> on those networks whenever checkpoints are enabled;
  \<open>GuessVerificationProgress\<close> on every profile's checkpoint data is a
  fraction in \<open>[0, 1]\<close> for sane clock readings.  The regression-test profile
  has the testnet's base58 prefixes and the unit-test profile the main ones;
  \<open>EncodeBase58\<close> equals positional notation in base 58, so its carry assert
  never fails, and \<open>DecodeBase58\<close> reads back every encoding, so every address
  built from a profile's prefix round-trips, and each profile's prefixes are
  prefix-free; a pay-to-public-key-hash address of the active network is 34
  characters starting with \<open>E\<close> (main, unit test) or \<open>m\<close>/\<open>n\<close> (testnet,
  regtest); the dummy pool address of every profile decodes to a version byte
  (56 or 54) that is none of the profile's prefixes, and no hash function
  makes \<open>DecodeBase58Check\<close> accept it as an address of its network.
  \<open>GetRand\<close> returns the first accepted draw modulo its bound as soon as one
  draw is accepted, and each result value has the same number of accepted
  draws; for the seed loop's call \<open>GetRand(nOneWeek)\<close> the resulting seed time
  lies in its window.

  \<^bold>\<open>Bounds.\<close>  No loop of the program is unbounded: \<open>convertSeed6\<close>,
  \<open>map_list_of\<close>, \<open>ParseHex\<close> and \<open>HexStr\<close> recurse on their input list,
  \<open>BuildMerkleTree\<close>'s inner loop on \<open>nSize - i\<close> and its outer loop on the
  shrinking level size (a \<open>measure\<close>); the outer loop in its \<open>while_option\<close>
  form is proved to return, so no fuel is needed.  The base58 digit vectors
  have \<open>n * 138 div 100 + 1\<close> and \<open>n * 733 div 1000 + 1\<close> digits; the
  lemmas \<open>b58_room\<close> and \<open>b256_room\<close> show these hold every value
  (from \<open>256^100 \<le> 58^138\<close> and \<open>58^1000 \<le> 256^733\<close>).  The
  rejection loop of \<open>GetRand\<close> is the one loop that need not end; it is a
  partial function whose return is proved from the existence of an
  acceptable draw.  The seed-time window is stated for clock readings between
  two weeks and \<open>2^32\<close> seconds, the range in which the 32-bit store of
  \<open>CAddress::nTime\<close> does not wrap.

  \<^bold>\<open>Not modelled.\<close>  \<open>GetRandBytes\<close> and \<open>GetTime\<close> (the seed loop
  reads them from its environment, whose \<open>GetRand_contract\<close> \<open>GetRand\<close>
  is shown to keep); the hash functions (a parameter, see above); the
  address classes \<open>CBase58Data\<close>/\<open>CBitcoinAddress\<close> built on the
  codec; the block index behind \<open>GuessVerificationProgress\<close> (only its
  \<open>nChainTx\<close> and block time are read, and are its arguments); the contents of \<open>chainparamsseeds.h\<close> (the seed lists are
  parameters \<open>sm\<close>, \<open>st\<close>); \<open>chainparamsbase.cpp\<close> beyond the base pointer
  \<open>SelectBaseParams\<close> sets, modelled from the specification; the command-line
  parsing of \<open>NetworkIdFromCommandLine\<close> (its result is the argument of
  \<open>SelectParamsFromCommandLine\<close>); networking and the RPC layer.  The
  hash functions stay a parameter because X11 chains eleven hash functions and
  even the double SHA-256 of the 172-byte coinbase is beyond evaluation by
  rewriting; every theorem holds for every choice of them.  Every line
  of \<open>chainparams.cpp\<close> that is code is translated by a definition of the
  map; the lines left are comments, includes and braces.
\<close>

lemma CheckBlock_genesis_tables:
  "CheckBlock True data 0 hashGenesis_expected \<and> \<not> CheckBlock True dataTestnet 0 hashGenesis_expected
   \<and> \<not> CheckBlock True dataRegtest 0 hashGenesis_expected"
  by (simp add: CheckBlock_def checkpoint_tables hashGenesis_expected_def)

lemma reachable_declared: "\<exists>r. reachable declared_hashes seed_env_zero [] [] r"
  using init_declared reachable.init by blast

lemma reachable_statics:
  assumes "reachable H env sm st r"
  obtains k1 k2 k3 k4 where "mainParams_ctor H env sm 0 = Inr (mainParams r, k1)"
    "testNetParams_ctor H env sm st k1 = Inr (testNetParams r, k2)"
    "regTestParams_ctor H env sm st k2 = Inr (regTestParams r, k3)"
proof -
  obtain r0 where i: "init_statics H env sm st = Inr r0" and f: "mainParams r = mainParams r0"
    "testNetParams r = testNetParams r0" "regTestParams r = regTestParams r0"
    using reachable_from_init [OF assms] by blast
  show ?thesis using init_statics_Inr [OF i] f that by auto
qed

text \<open>
  C15: in every reachable state, \<open>Params()\<close> returns the profile of the
  network the pointer designates: the profile's own \<open>networkID\<close> is the
  selected one.
\<close>

theorem Params_selected_profile:
  assumes "reachable H env sm st r" and "Params r = Inr p"
  shows "pCurrentParams r = Some (networkID p)"
proof -
  obtain n where n: "pCurrentParams r = Some n" and p: "Params_net r n = Inr p"
    using assms(2) by (auto simp: Params_def split: option.splits)
  then show ?thesis using reachable_profile [OF assms(1) p] by simp
qed

theorem Params_selected_profile_witness:
  "\<exists>r r' p. reachable declared_hashes seed_env_zero [] [] r \<and> SelectParams r REGTEST = Inr r'
     \<and> Params r' = Inr p \<and> pCurrentParams r' = Some (networkID p)"
proof -
  obtain r where r: "reachable declared_hashes seed_env_zero [] [] r" using reachable_declared by blast
  have s: "reg_step r (Select REGTEST) = Inr (r\<lparr>pCurrentBaseParams := Some REGTEST, pCurrentParams := Some REGTEST\<rparr>)"
    by (simp add: SelectParams_eq)
  have r': "reachable declared_hashes seed_env_zero [] []
              (r\<lparr>pCurrentBaseParams := Some REGTEST, pCurrentParams := Some REGTEST\<rparr>)"
    using reachable.step [OF r s] .
  have p: "Params (r\<lparr>pCurrentBaseParams := Some REGTEST, pCurrentParams := Some REGTEST\<rparr>) = Inr (regTestParams r)"
    by (simp add: Params_def)
  show ?thesis using Params_selected_profile [OF r' p] r s p by auto
qed

text \<open>
  C16: in every reachable state, two different networks' profiles have the
  same message start bytes exactly when they are the main and the unit-test
  network: \<open>CUnitTestParams\<close> inherits \<open>CMainParams\<close>' magic and does not
  set its own.
\<close>

theorem message_start_shared:
  assumes "reachable H env sm st r" and "Params_net r n = Inr p" and "Params_net r m = Inr q" and "n \<noteq> m"
  shows "pchMessageStart p = pchMessageStart q \<longleftrightarrow> {n, m} = {MAIN, UNITTEST}"
  using reachable_profile [OF assms(1,2)] reachable_profile [OF assms(1,3)] assms(2,3,4)
  by (cases n; cases m) auto

theorem message_start_shared_witness:
  "\<exists>r p q. reachable declared_hashes seed_env_zero [] [] r \<and> Params_net r UNITTEST = Inr p
     \<and> Params_net r MAIN = Inr q \<and> UNITTEST \<noteq> MAIN
     \<and> (pchMessageStart p = pchMessageStart q \<longleftrightarrow> {UNITTEST, MAIN} = {MAIN, UNITTEST})"
proof -
  obtain r where r: "reachable declared_hashes seed_env_zero [] [] r" using reachable_declared by blast
  have p: "Params_net r UNITTEST = Inr (unitTestParams r)" and q: "Params_net r MAIN = Inr (mainParams r)"
    by simp_all
  show ?thesis using message_start_shared [OF r p q] r p q by auto
qed

text \<open>
  C17: in every reachable state, the proof-of-work limit of the regression
  test profile is \<open>~0 >> 1\<close>, that is \<open>2^255 - 1\<close>, and that of every other
  profile is \<open>~0 >> 20\<close>, \<open>2^236 - 1\<close>: regtest accepts strictly easier work.
\<close>

theorem pow_limits:
  assumes "reachable H env sm st r" and "Params_net r n = Inr p"
  shows "unat (bnProofOfWorkLimit p) = (if n = REGTEST then 2 ^ 255 - 1 else 2 ^ 236 - 1)"
  using reachable_profile [OF assms] by (simp add: unat_pow_limit)

theorem pow_limits_witness:
  "\<exists>r p. reachable declared_hashes seed_env_zero [] [] r \<and> Params_net r REGTEST = Inr p
     \<and> unat (bnProofOfWorkLimit p) = (if REGTEST = REGTEST then 2 ^ 255 - 1 else 2 ^ 236 - 1)"
proof -
  obtain r where r: "reachable declared_hashes seed_env_zero [] [] r" using reachable_declared by blast
  have p: "Params_net r REGTEST = Inr (regTestParams r)" by simp
  show ?thesis using pow_limits [OF r p] r p by blast
qed

text \<open>
  C18: in every reachable state, with checkpoints enabled, the genesis block
  of a profile passes \<open>CheckBlock\<close> at height 0 against that profile's
  checkpoint table exactly for the main and the unit-test network; the
  testnet and regtest tables pin height 0 to \<open>uint256("0x001")\<close>.
\<close>

theorem genesis_checkpoint:
  assumes "reachable H env sm st r" and "Params_net r n = Inr p"
  shows "CheckBlock True (Checkpoints p) 0 (hashGenesisBlock p) \<longleftrightarrow> n = MAIN \<or> n = UNITTEST"
proof -
  have "genesis_consistent H p"
    using reachable_consistent [OF assms(1)] assms(2) by (cases n) auto
  then have h: "hashGenesisBlock p = hashGenesis_expected" by (simp add: genesis_consistent_def)
  have "networkID p = n" using reachable_profile [OF assms] by simp
  then show ?thesis using h CheckBlock_genesis_tables assms(2) by (cases n) (simp_all add: Checkpoints_def)
qed

theorem genesis_checkpoint_witness:
  "\<exists>r p. reachable declared_hashes seed_env_zero [] [] r \<and> Params_net r TESTNET = Inr p
     \<and> (CheckBlock True (Checkpoints p) 0 (hashGenesisBlock p) \<longleftrightarrow> TESTNET = MAIN \<or> TESTNET = UNITTEST)"
proof -
  obtain r where r: "reachable declared_hashes seed_env_zero [] [] r" using reachable_declared by blast
  have p: "Params_net r TESTNET = Inr (testNetParams r)" by simp
  show ?thesis using genesis_checkpoint [OF r p] r p by blast
qed

text \<open>
  C19: overrides under the unit-test network, as a test harness issues them:
  after any sequence of setter calls through \<open>ModifiableParams()\<close>, every one
  succeeds, and each of the seven fields of \<open>Params()\<close> holds the value of the
  last call of its own setter, or its earlier value when no call of that setter
  was made.  Setters of different fields neither interfere nor depend on their
  order.
\<close>

theorem setter_sequence:
  assumes "pCurrentParams r = Some UNITTEST"
  shows "\<exists>r' p'. reg_run r (map Modify ops) = Inr r' \<and> Params r' = Inr p'
     \<and> nSubsidyHalvingInterval p'
         = last (nSubsidyHalvingInterval (unitTestParams r) # [v. setSubsidyHalvingInterval v \<leftarrow> ops])
     \<and> nEnforceBlockUpgradeMajority p'
         = last (nEnforceBlockUpgradeMajority (unitTestParams r) # [v. setEnforceBlockUpgradeMajority v \<leftarrow> ops])
     \<and> nRejectBlockOutdatedMajority p'
         = last (nRejectBlockOutdatedMajority (unitTestParams r) # [v. setRejectBlockOutdatedMajority v \<leftarrow> ops])
     \<and> nToCheckBlockUpgradeMajority p'
         = last (nToCheckBlockUpgradeMajority (unitTestParams r) # [v. setToCheckBlockUpgradeMajority v \<leftarrow> ops])
     \<and> fDefaultConsistencyChecks p'
         = last (fDefaultConsistencyChecks (unitTestParams r) # [v. setDefaultConsistencyChecks v \<leftarrow> ops])
     \<and> fAllowMinDifficultyBlocks p'
         = last (fAllowMinDifficultyBlocks (unitTestParams r) # [v. setAllowMinDifficultyBlocks v \<leftarrow> ops])
     \<and> fSkipProofOfWorkCheck p'
         = last (fSkipProofOfWorkCheck (unitTestParams r) # [v. setSkipProofOfWorkCheck v \<leftarrow> ops])"
proof -
  obtain r' where run: "reg_run r (map Modify ops) = Inr r'"
    and u: "unitTestParams r' = foldl apply_setter (unitTestParams r) ops"
    and c: "pCurrentParams r' = Some UNITTEST"
    using modify_run [OF assms] by blast
  then have "Params r' = Inr (unitTestParams r')" by (simp add: Params_def)
  then show ?thesis using run u by (simp add: foldl_apply_setter_fields)
qed

theorem setter_sequence_witness:
  "\<exists>r' p'. reg_run (reg_example\<lparr>pCurrentParams := Some UNITTEST\<rparr>)
         (map Modify [setSubsidyHalvingInterval 150, setSkipProofOfWorkCheck True, setSubsidyHalvingInterval 210000]) = Inr r'
     \<and> Params r' = Inr p' \<and> nSubsidyHalvingInterval p' = 210000 \<and> fSkipProofOfWorkCheck p'
     \<and> nEnforceBlockUpgradeMajority p' = nEnforceBlockUpgradeMajority (unitTestParams reg_example)"
  using setter_sequence [of "reg_example\<lparr>pCurrentParams := Some UNITTEST\<rparr>"
      "[setSubsidyHalvingInterval 150, setSkipProofOfWorkCheck True, setSubsidyHalvingInterval 210000]"]
  by (auto simp del: reg_run.simps)

text \<open>
  C20: the specification's three selection scenarios, from any reachable state:
  after \<open>SelectParams(MAIN)\<close>, \<open>Params()\<close> has port 36003 and message start
  \<open>c1 f4 a7 d6\<close>; after \<open>SelectParams(TESTNET)\<close>, port 36005 and
  \<open>fRequireStandard\<close> false; after \<open>SelectParams(REGTEST)\<close>, blocks are mined on
  demand and the proof-of-work limit is strictly larger than the main network's.
\<close>

theorem select_scenarios:
  assumes "reachable H env sm st r"
  shows "(\<exists>r' p. SelectParams r MAIN = Inr r' \<and> Params r' = Inr p
            \<and> nDefaultPort p = 36003 \<and> pchMessageStart p = [0xc1, 0xf4, 0xa7, 0xd6])
       \<and> (\<exists>r' p. SelectParams r TESTNET = Inr r' \<and> Params r' = Inr p
            \<and> nDefaultPort p = 36005 \<and> \<not> fRequireStandard p)
       \<and> (\<exists>r' p q. SelectParams r REGTEST = Inr r' \<and> Params r' = Inr p \<and> Params_net r' MAIN = Inr q
            \<and> fMineBlocksOnDemand p \<and> bnProofOfWorkLimit q < bnProofOfWorkLimit p)"
proof -
  obtain k1 k2 k3 where m: "mainParams_ctor H env sm 0 = Inr (mainParams r, k1)"
    and t: "testNetParams_ctor H env sm st k1 = Inr (testNetParams r, k2)"
    and g: "regTestParams_ctor H env sm st k2 = Inr (regTestParams r, k3)"
    using reachable_statics [OF assms] by blast
  have lt: "pow_limit 20 < pow_limit 1" by (simp add: word_less_nat_alt unat_pow_limit)
  show ?thesis using mainParams_ctor_fields [OF m] testNetParams_ctor_fields [OF t]
      regTestParams_ctor_fields [OF g] lt
    by (simp add: SelectParams_eq Params_def)
qed

theorem select_scenarios_witness:
  "\<exists>r. reachable declared_hashes seed_env_zero [] [] r
     \<and> (\<exists>r' p. SelectParams r MAIN = Inr r' \<and> Params r' = Inr p
            \<and> nDefaultPort p = 36003 \<and> pchMessageStart p = [0xc1, 0xf4, 0xa7, 0xd6])
     \<and> (\<exists>r' p. SelectParams r TESTNET = Inr r' \<and> Params r' = Inr p
            \<and> nDefaultPort p = 36005 \<and> \<not> fRequireStandard p)
     \<and> (\<exists>r' p q. SelectParams r REGTEST = Inr r' \<and> Params r' = Inr p \<and> Params_net r' MAIN = Inr q
            \<and> fMineBlocksOnDemand p \<and> bnProofOfWorkLimit q < bnProofOfWorkLimit p)"
proof -
  obtain r where r: "reachable declared_hashes seed_env_zero [] [] r" using reachable_declared by blast
  show ?thesis using select_scenarios [OF r] r by blast
qed

text \<open>
  C23: the base58 version prefixes in every reachable state: within the main
  and the testnet profile the five prefixes are pairwise different, and the
  two profiles differ in every prefix kind; but the regression-test profile
  has exactly the testnet prefixes and the unit-test profile exactly the main
  ones, so an address does not tell those networks apart.
\<close>

theorem base58_prefixes:
  assumes "reachable H env sm st r"
  shows "(\<forall>t. base58Prefixes (mainParams r) t \<noteq> base58Prefixes (testNetParams r) t)
     \<and> inj (base58Prefixes (mainParams r)) \<and> inj (base58Prefixes (testNetParams r))
     \<and> base58Prefixes (regTestParams r) = base58Prefixes (testNetParams r)
     \<and> base58Prefixes (unitTestParams r) = base58Prefixes (mainParams r)"
proof -
  have m: "base58Prefixes (mainParams r) = base58Prefixes_main (\<lambda>_. [])"
    and u: "base58Prefixes (unitTestParams r) = base58Prefixes_main (\<lambda>_. [])"
    and tn: "base58Prefixes (testNetParams r) = base58Prefixes_testnet (\<lambda>_. [])"
    and g: "base58Prefixes (regTestParams r) = base58Prefixes_testnet (\<lambda>_. [])"
    using reachable_address_fields [OF assms, of MAIN] reachable_address_fields [OF assms, of UNITTEST]
      reachable_address_fields [OF assms, of TESTNET] reachable_address_fields [OF assms, of REGTEST]
    by (simp_all del: base58Prefixes_main_def base58Prefixes_testnet_def)
  have "inj (base58Prefixes (mainParams r))" "inj (base58Prefixes (testNetParams r))"
    unfolding inj_def m tn by (auto simp: all_Base58Type split: Base58Type.splits)
  then show ?thesis using m tn u g by (simp add: all_Base58Type)
qed

theorem base58_prefixes_witness:
  "\<exists>r. reachable declared_hashes seed_env_zero [] [] r
     \<and> (\<forall>t. base58Prefixes (mainParams r) t \<noteq> base58Prefixes (testNetParams r) t)
     \<and> inj (base58Prefixes (mainParams r)) \<and> inj (base58Prefixes (testNetParams r))
     \<and> base58Prefixes (regTestParams r) = base58Prefixes (testNetParams r)
     \<and> base58Prefixes (unitTestParams r) = base58Prefixes (mainParams r)"
proof -
  obtain r where r: "reachable declared_hashes seed_env_zero [] [] r" using reachable_declared by blast
  show ?thesis using base58_prefixes [OF r] r by blast
qed


subsection \<open>Addresses of the active network\<close>

text \<open>The two dummy pool addresses, decoded.\<close>

lemma decode_dummy_main:
  "DecodeBase58 dummy_address_main = Inr (Some [56, 187, 77, 113, 146, 196, 43, 47, 243, 204, 174, 224, 6,
     75, 153, 6, 175, 250, 15, 159, 62, 192, 108, 73, 216])"
proof -
  let ?ds = "[22, 48, 0, 8, 15, 48, 14, 53, 33, 42, 24, 49, 13, 36, 12, 16, 31, 24, 18, 15, 31, 42, 26,
              50, 23, 38, 47, 28, 4, 42, 56, 41, 47, 14::nat]"
  let ?L = "[56, 187, 77, 113, 146, 196, 43, 47, 243, 204, 174, 224, 6, 75, 153, 6, 175, 250, 15, 159,
             62, 192, 108, 73, 216::nat]"
  have "map (strchr pszBase58) dummy_address_main = map Some ?ds"
    by (simp add: pszBase58_def)
  then have s: "map (\<lambda>d. pszBase58 ! d) ?ds = dummy_address_main" "\<forall>d \<in> set ?ds. d < 58"
    using map_strchr by blast+
  have "be_val 58 ?ds 0 = be_val 256 ?L 0" by simp
  moreover have "nat_digits 256 (be_val 256 ?L 0) = ?L" by (rule nat_digits_be_val) simp_all
  ultimately show ?thesis using DecodeBase58_ref [OF s(2), of 0] s(1) by simp
qed

lemma decode_dummy_testnet:
  "DecodeBase58 dummy_address_testnet = Inr (Some [54, 175, 81, 97, 208, 66, 75, 160, 200, 250, 98, 85,
     209, 174, 241, 45, 100, 220, 164, 77, 6, 181, 138, 181, 89])"
proof -
  let ?ds = "[22, 0, 13, 32, 52, 55, 40, 40, 21, 20, 9, 27, 46, 38, 26, 10, 13, 37, 19, 48, 15, 13, 0, 34,
              17, 49, 47, 11, 1, 26, 29, 24, 21, 47::nat]"
  let ?L = "[54, 175, 81, 97, 208, 66, 75, 160, 200, 250, 98, 85, 209, 174, 241, 45, 100, 220, 164, 77,
             6, 181, 138, 181, 89::nat]"
  have "map (strchr pszBase58) dummy_address_testnet = map Some ?ds"
    by (simp add: pszBase58_def)
  then have s: "map (\<lambda>d. pszBase58 ! d) ?ds = dummy_address_testnet" "\<forall>d \<in> set ?ds. d < 58"
    using map_strchr by blast+
  have "be_val 58 ?ds 0 = be_val 256 ?L 0" by simp
  moreover have "nat_digits 256 (be_val 256 ?L 0) = ?L" by (rule nat_digits_be_val) simp_all
  ultimately show ?thesis using DecodeBase58_ref [OF s(2), of 0] s(1) by simp
qed

text \<open>
  C25: in every reachable state, an address built from any base58 prefix of
  the active profile and any payload encodes without failing the encoder's
  assert and decodes back to the same bytes; and the profile's prefixes are
  prefix-free, so the decoded bytes begin with no other prefix of the profile
  and the address kind is recovered from them.
\<close>

theorem address_roundtrip:
  assumes "reachable H env sm st r" and "Params_net r n = Inr p"
  shows "\<exists>s. EncodeBase58 (base58Prefixes p t @ payload) = Inr s
       \<and> DecodeBase58 s = Inr (Some (base58Prefixes p t @ payload))
       \<and> (\<forall>t'. t' \<noteq> t \<longrightarrow> take (length (base58Prefixes p t')) (base58Prefixes p t @ payload) \<noteq> base58Prefixes p t')"
proof -
  have f: "base58Prefixes p = (if n = TESTNET \<or> n = REGTEST then base58Prefixes_testnet (\<lambda>_. [])
                                else base58Prefixes_main (\<lambda>_. []))"
    using reachable_address_fields [OF assms] by blast
  have "\<forall>t'. t' \<noteq> t \<longrightarrow> take (length (base58Prefixes p t')) (base58Prefixes p t @ payload) \<noteq> base58Prefixes p t'"
  proof (cases "n = TESTNET \<or> n = REGTEST")
    case True
    then show ?thesis using f by (cases t) (simp_all add: all_Base58Type)
  next
    case False
    then show ?thesis using f by (cases t) (simp_all add: all_Base58Type)
  qed
  then show ?thesis using DecodeBase58_EncodeBase58 [of "base58Prefixes p t @ payload"] by blast
qed

theorem address_roundtrip_witness:
  "\<exists>r. reachable declared_hashes seed_env_zero [] [] r
     \<and> (\<exists>s. EncodeBase58 (base58Prefixes (testNetParams r) SCRIPT_ADDRESS @ [0, 0]) = Inr s
          \<and> DecodeBase58 s = Inr (Some (base58Prefixes (testNetParams r) SCRIPT_ADDRESS @ [0, 0]))
          \<and> take (length (base58Prefixes (testNetParams r) PUBKEY_ADDRESS))
               (base58Prefixes (testNetParams r) SCRIPT_ADDRESS @ [0, 0]) \<noteq> base58Prefixes (testNetParams r) PUBKEY_ADDRESS)"
proof -
  obtain r where r: "reachable declared_hashes seed_env_zero [] [] r" using reachable_declared by blast
  obtain s where "EncodeBase58 (base58Prefixes (testNetParams r) SCRIPT_ADDRESS @ [0, 0]) = Inr s"
      "DecodeBase58 s = Inr (Some (base58Prefixes (testNetParams r) SCRIPT_ADDRESS @ [0, 0]))"
      "\<forall>t'. t' \<noteq> SCRIPT_ADDRESS \<longrightarrow> take (length (base58Prefixes (testNetParams r) t'))
          (base58Prefixes (testNetParams r) SCRIPT_ADDRESS @ [0, 0]) \<noteq> base58Prefixes (testNetParams r) t'"
    using address_roundtrip [OF r, of TESTNET "testNetParams r" SCRIPT_ADDRESS "[0, 0]"] by auto
  then show ?thesis using r by auto
qed

text \<open>
  C26: in every reachable state, a pay-to-public-key-hash address of the
  active network (its \<open>PUBKEY_ADDRESS\<close> prefix, a 20-byte key hash, the 4-byte
  checksum, through \<open>EncodeBase58Check\<close>) is 34 characters long and starts
  with \<open>E\<close> on the main and unit-test networks and with \<open>m\<close> or \<open>n\<close> on
  testnet and regression test, whatever the key hash and the hash function.
\<close>

theorem p2pkh_address_lead:
  assumes "reachable H env sm st r" and "Params_net r n = Inr p" and "length keyid = 20"
  shows "\<exists>s. EncodeBase58Check H (base58Prefixes p PUBKEY_ADDRESS @ keyid) = Inr s \<and> length s = 34
     \<and> hd s \<in> (if n = TESTNET \<or> n = REGTEST then {CHR ''m'', CHR ''n''} else {CHR ''E''})"
proof -
  have pk: "base58Prefixes p PUBKEY_ADDRESS = (if n = TESTNET \<or> n = REGTEST then [111] else [33])"
    using reachable_address_fields [OF assms(1,2)] by simp
  let ?rest = "keyid @ le_bytes 4 (Hash H (base58Prefixes p PUBKEY_ADDRESS @ keyid))"
  have l: "length ?rest = 24" using assms(3) by simp
  show ?thesis
  proof (cases "n = TESTNET \<or> n = REGTEST")
    case True
    obtain s d where e: "EncodeBase58 (111 # ?rest) = Inr s" "length s = 34" "44 \<le> d" "d \<le> 45"
        "hd s = pszBase58 ! d"
      using EncodeBase58_lead [OF _ l, of 111 44 45] by auto
    then have "d = 44 \<or> d = 45" by linarith
    then have "hd s \<in> {CHR ''m'', CHR ''n''}" using e(5) by (auto simp: pszBase58_def)
    then show ?thesis using e True pk by (simp add: EncodeBase58Check_def)
  next
    case False
    obtain s d where e: "EncodeBase58 (33 # ?rest) = Inr s" "length s = 34" "13 \<le> d" "d \<le> 13"
        "hd s = pszBase58 ! d"
      using EncodeBase58_lead [OF _ l, of 33 13 13] by auto
    then have "hd s = CHR ''E''" by (simp add: pszBase58_def)
    then show ?thesis using e False pk by (simp add: EncodeBase58Check_def)
  qed
qed

theorem p2pkh_address_lead_witness:
  "\<exists>r. reachable declared_hashes seed_env_zero [] [] r
     \<and> (\<exists>s. EncodeBase58Check declared_hashes (base58Prefixes (mainParams r) PUBKEY_ADDRESS @ replicate 20 0) = Inr s
          \<and> length s = 34 \<and> hd s \<in> {CHR ''E''})"
proof -
  obtain r where r: "reachable declared_hashes seed_env_zero [] [] r" using reachable_declared by blast
  show ?thesis using p2pkh_address_lead [OF r, of MAIN "mainParams r" "replicate 20 0"] r by auto
qed

text \<open>
  C27: in every reachable state, the dummy pool address of the active
  profile (\<open>strDarksendPoolDummyAddress\<close>) decodes to 25 bytes of which
  none of the profile's five base58 prefixes is a prefix: its version byte is
  56 on main and unit test and 54 on testnet and regression test.  Whatever
  the hash function, \<open>DecodeBase58Check\<close> either rejects it or returns a
  payload that begins with none of the prefixes, so it is never an address of
  the network it is configured for.
\<close>

theorem dummy_address_foreign:
  assumes "reachable H env sm st r" and "Params_net r n = Inr p"
  shows "\<exists>v. DecodeBase58 (strDarksendPoolDummyAddress p) = Inr (Some v) \<and> length v = 25
     \<and> (\<forall>t. take (length (base58Prefixes p t)) v \<noteq> base58Prefixes p t)
     \<and> (\<forall>H' w t. DecodeBase58Check H' (strDarksendPoolDummyAddress p) = Inr (Some w)
          \<longrightarrow> take (length (base58Prefixes p t)) w \<noteq> base58Prefixes p t)"
proof -
  have f: "base58Prefixes p = (if n = TESTNET \<or> n = REGTEST then base58Prefixes_testnet (\<lambda>_. [])
                                else base58Prefixes_main (\<lambda>_. []))"
    "strDarksendPoolDummyAddress p = (if n = TESTNET \<or> n = REGTEST then dummy_address_testnet
                                      else dummy_address_main)"
    using reachable_address_fields [OF assms] by blast+
  obtain v where v: "DecodeBase58 (strDarksendPoolDummyAddress p) = Inr (Some v)" "length v = 25"
      "\<forall>t. take (length (base58Prefixes p t)) v \<noteq> base58Prefixes p t"
  proof (cases "n = TESTNET \<or> n = REGTEST")
    case True
    then show ?thesis using that f decode_dummy_testnet by (simp del: dummy_address_testnet_def add: all_Base58Type)
  next
    case False
    then show ?thesis using that f decode_dummy_main by (simp del: dummy_address_main_def add: all_Base58Type)
  qed
  have "take (length (base58Prefixes p t)) w \<noteq> base58Prefixes p t"
    if "DecodeBase58Check H' (strDarksendPoolDummyAddress p) = Inr (Some w)" for H' w t
  proof -
    have "w = take 21 v" using DecodeBase58Check_payload [OF that] v(1,2) by auto
    moreover have "length (base58Prefixes p t) \<le> 4" using f(1) by (cases t) simp_all
    ultimately have "take (length (base58Prefixes p t)) w = take (length (base58Prefixes p t)) v"
      by (simp add: min_def)
    then show ?thesis using v(3) by simp
  qed
  then show ?thesis using v by blast
qed

theorem dummy_address_foreign_witness:
  "\<exists>r. reachable declared_hashes seed_env_zero [] [] r
     \<and> (\<exists>v. DecodeBase58 (strDarksendPoolDummyAddress (mainParams r)) = Inr (Some v) \<and> length v = 25
          \<and> (\<forall>t. take (length (base58Prefixes (mainParams r) t)) v \<noteq> base58Prefixes (mainParams r) t))
     \<and> DecodeBase58Check \<lparr>HashHeader = (\<lambda>_. 0), Hash = (\<lambda>_. 0xd8496cc0)\<rparr> (strDarksendPoolDummyAddress (mainParams r))
         = Inr (Some [56, 187, 77, 113, 146, 196, 43, 47, 243, 204, 174, 224, 6, 75, 153, 6, 175, 250, 15, 159, 62])
     \<and> take (length (base58Prefixes (mainParams r) PUBKEY_ADDRESS))
         [56, 187, 77, 113, 146, 196, 43, 47, 243, 204, 174, 224, 6, 75, 153, 6, 175, 250, 15, 159, 62]
       \<noteq> base58Prefixes (mainParams r) PUBKEY_ADDRESS"
proof -
  obtain r where r: "reachable declared_hashes seed_env_zero [] [] r" using reachable_declared by blast
  have d: "strDarksendPoolDummyAddress (mainParams r) = dummy_address_main"
    using reachable_address_fields [OF r, of MAIN "mainParams r"] by (simp del: dummy_address_main_def)
  have c: "le_bytes 4 (0xd8496cc0 :: uint256) = [192, 108, 73, 216]" by (simp add: le_bytes_literal)
  have a: "DecodeBase58Check \<lparr>HashHeader = (\<lambda>_. 0), Hash = (\<lambda>_. 0xd8496cc0)\<rparr> (strDarksendPoolDummyAddress (mainParams r))
         = Inr (Some [56, 187, 77, 113, 146, 196, 43, 47, 243, 204, 174, 224, 6, 75, 153, 6, 175, 250, 15, 159, 62])"
    unfolding d DecodeBase58Check_def using decode_dummy_main c by (simp del: dummy_address_main_def)
  show ?thesis using dummy_address_foreign [OF r, of MAIN "mainParams r"] r a by auto
qed

text \<open>
  C29: the fixed seeds of every reachable state, as the four constructors
  leave them: the main profile holds one address per entry of
  \<open>pnSeed6_main\<close> (line 150), with its address bytes and port, in order; the
  testnet profile clears what its base constructor converted (lines 203--204)
  and holds exactly the entries of \<open>pnSeed6_test\<close> (line 213); the
  regression-test and unit-test profiles clear both seed lists (lines 264--265
  and 291--292), and no setter restores them.
\<close>

theorem fixed_seeds:
  assumes "reachable H env sm st r"
  shows "map (\<lambda>a. (addr_ip a, addr_port a)) (vFixedSeeds (mainParams r))
           = map (\<lambda>d. (take 16 (seed_addr d), seed_port d)) sm
    \<and> map (\<lambda>a. (addr_ip a, addr_port a)) (vFixedSeeds (testNetParams r))
           = map (\<lambda>d. (take 16 (seed_addr d), seed_port d)) st
    \<and> vFixedSeeds (regTestParams r) = [] \<and> vFixedSeeds (unitTestParams r) = []
    \<and> vSeeds (testNetParams r) = [] \<and> vSeeds (regTestParams r) = [] \<and> vSeeds (unitTestParams r) = []"
proof -
  obtain r0 where i: "init_statics H env sm st = Inr r0" and f: "mainParams r = mainParams r0"
    "testNetParams r = testNetParams r0" "regTestParams r = regTestParams r0"
    "frozen_part (unitTestParams r) = frozen_part (unitTestParams r0)"
    using reachable_from_init [OF assms] by blast
  obtain k1 k2 k3 k4 where
    m: "mainParams_ctor H env sm 0 = Inr (mainParams r0, k1)" and
    t: "testNetParams_ctor H env sm st k1 = Inr (testNetParams r0, k2)" and
    g: "regTestParams_ctor H env sm st k2 = Inr (regTestParams r0, k3)" and
    u: "unitTestParams_ctor H env sm k3 = Inr (unitTestParams r0, k4)"
    using init_statics_Inr [OF i] by blast
  obtain j where sm: "vFixedSeeds (mainParams r0) = fst (convertSeed6 env [] sm j)"
    using mainParams_ctor_seeds [OF m] by blast
  obtain j' where st: "vFixedSeeds (testNetParams r0) = fst (convertSeed6 env [] st j')"
    using testNetParams_ctor_seeds [OF t] by blast
  show ?thesis
    using f sm st convertSeed6_ip_port [of env "[]" sm j] convertSeed6_ip_port [of env "[]" st j']
      testNetParams_ctor_fields [OF t] regTestParams_ctor_fields [OF g] unitTestParams_ctor_fields [OF u]
      frozen_part_fields [OF f(4)]
    by simp
qed

theorem fixed_seeds_witness:
  "\<exists>r. reachable declared_hashes seed_env_zero [] [] r
     \<and> map (\<lambda>a. (addr_ip a, addr_port a)) (vFixedSeeds (testNetParams r)) = []
     \<and> vFixedSeeds (regTestParams r) = [] \<and> vSeeds (unitTestParams r) = []"
proof -
  obtain r where r: "reachable declared_hashes seed_env_zero [] [] r" using reachable_declared by blast
  show ?thesis using fixed_seeds [OF r] r by auto
qed



end
